(* ===== verification/Journal.thy ===== *)
theory Journal
  imports Prelude
begin

text \<open>
  Model of \<^verbatim>\<open>crates/datasynth-core/src/models/journal_entry.rs\<close> (with the enumerations it
  takes from \<^verbatim>\<open>anomaly.rs\<close>, \<^verbatim>\<open>internal_control.rs\<close>, \<^verbatim>\<open>sod.rs\<close> and \<^verbatim>\<open>ic_pair.rs\<close>): the
  journal entry with its header and lines. Types of other crates are parameters: \<open>'d\<close> for
  \<^verbatim>\<open>rust_decimal::Decimal\<close> (an ordered ring: exact sums within the 96 bits of the crate),
  \<open>'date\<close> for \<^verbatim>\<open>chrono::NaiveDate\<close>, \<open>'ts\<close> for its time stamps; \<open>'wf\<close> stands for the approval
  workflow, which is only carried. A UUID is its sixteen bytes. Fields of a line whose name the
  header also has carry the prefix \<open>line_\<close>.
\<close>

section \<open>Enumerations\<close>

datatype IcPairId = IcPairId "u8 list"

datatype ControlStatus = Effective | Exception | NotTested | Remediated

datatype SodConflictType =
    PreparerApprover | RequesterApprover | ReconcilerPoster | MasterDataMaintainer
  | PaymentReleaser | JournalEntryPoster | SystemAccessConflict

datatype (plugins only: code size) FraudType =
    FictitiousEntry | FictitiousTransaction | RoundDollarManipulation
  | JustBelowThreshold | RevenueManipulation | ImproperCapitalization
  | ExpenseCapitalization | ReserveManipulation | SuspenseAccountAbuse
  | SplitTransaction | TimingAnomaly | UnauthorizedAccess
  | SelfApproval | ExceededApprovalLimit | SegregationOfDutiesViolation
  | UnauthorizedApproval | CollusiveApproval | FictitiousVendor
  | DuplicatePayment | ShellCompanyPayment | Kickback
  | KickbackScheme | UnauthorizedDiscount | RoundTripping
  | InvoiceManipulation | AssetMisappropriation | InventoryTheft
  | GhostEmployee | PrematureRevenue | UnderstatedLiabilities
  | OverstatedAssets | ChannelStuffing | ImproperRevenueRecognition
  | ImproperPoAllocation | VariableConsiderationManipulation | ContractModificationMisstatement
  | LeaseClassificationManipulation | OffBalanceSheetLease | LeaseLiabilityUnderstatement
  | RouAssetMisstatement | FairValueHierarchyManipulation | Level3InputManipulation
  | ValuationTechniqueManipulation | DelayedImpairment | ImpairmentTestAvoidance
  | CashFlowProjectionManipulation | ImproperImpairmentReversal | BidRigging
  | PhantomVendorContract | SplitContractThreshold | ConflictOfInterestSourcing
  | GhostEmployeePayroll | PayrollInflation | DuplicateExpenseReport
  | FictitiousExpense | SplitExpenseToAvoidApproval | RevenueTimingManipulation
  | QuotePriceOverride

datatype DocumentRef =
    PurchaseOrder string
  | VendorInvoice string
  | CustomerInvoice string
  | GoodsReceipt string
  | Delivery string
  | Payment string
  | Receipt string
  | NoDocument

definition parse_document_ref :: "string \<Rightarrow> DocumentRef option" where
  "parse_document_ref r =
     (if starts_with r ''PO-'' \<or> starts_with r ''PO '' then Some (PurchaseOrder r)
      else if starts_with r ''INV-'' \<or> starts_with r ''INV '' then Some (VendorInvoice r)
      else if starts_with r ''SO-'' \<or> starts_with r ''SO '' then Some (CustomerInvoice r)
      else if starts_with r ''GR-'' \<or> starts_with r ''GR '' then Some (GoodsReceipt r)
      else if starts_with r ''PAY-'' \<or> starts_with r ''PAY '' then Some (Payment r)
      else None)"

fun ref_document_id :: "DocumentRef \<Rightarrow> string option" where
  "ref_document_id (PurchaseOrder i) = Some i"
| "ref_document_id (VendorInvoice i) = Some i"
| "ref_document_id (CustomerInvoice i) = Some i"
| "ref_document_id (GoodsReceipt i) = Some i"
| "ref_document_id (Delivery i) = Some i"
| "ref_document_id (Payment i) = Some i"
| "ref_document_id (Receipt i) = Some i"
| "ref_document_id NoDocument = None"

datatype TransactionSource = Manual | Automated | Recurring | Reversal | Adjustment | Statistical

fun display_source :: "TransactionSource \<Rightarrow> string" where
  "display_source Manual = ''manual''"
| "display_source Automated = ''automated''"
| "display_source Recurring = ''recurring''"
| "display_source Reversal = ''reversal''"
| "display_source Adjustment = ''adjustment''"
| "display_source Statistical = ''statistical''"

datatype BusinessProcess =
    O2C | P2P | R2R | H2R | A2R | S2C | Mfg | Bank | Audit | Treasury | Tax | Intercompany
  | ProjectAccounting | Esg

record DocumentType =
  dt_code :: string
  dt_description :: string
  dt_business_process :: BusinessProcess
  dt_is_reversal :: bool

definition gl_account_type :: DocumentType where
  "gl_account_type =
     \<lparr>dt_code = ''SA'', dt_description = ''G/L Account Document'',
      dt_business_process = R2R, dt_is_reversal = False\<rparr>"

definition vendor_invoice_type :: DocumentType where
  "vendor_invoice_type =
     \<lparr>dt_code = ''KR'', dt_description = ''Vendor Invoice'',
      dt_business_process = P2P, dt_is_reversal = False\<rparr>"

definition customer_invoice_type :: DocumentType where
  "customer_invoice_type =
     \<lparr>dt_code = ''DR'', dt_description = ''Customer Invoice'',
      dt_business_process = O2C, dt_is_reversal = False\<rparr>"

definition vendor_payment_type :: DocumentType where
  "vendor_payment_type =
     \<lparr>dt_code = ''KZ'', dt_description = ''Vendor Payment'',
      dt_business_process = P2P, dt_is_reversal = False\<rparr>"

definition customer_payment_type :: DocumentType where
  "customer_payment_type =
     \<lparr>dt_code = ''DZ'', dt_description = ''Customer Payment'',
      dt_business_process = O2C, dt_is_reversal = False\<rparr>"

definition asset_posting_type :: DocumentType where
  "asset_posting_type =
     \<lparr>dt_code = ''AA'', dt_description = ''Asset Posting'',
      dt_business_process = A2R, dt_is_reversal = False\<rparr>"

definition payroll_type :: DocumentType where
  "payroll_type =
     \<lparr>dt_code = ''PR'', dt_description = ''Payroll Document'',
      dt_business_process = H2R, dt_is_reversal = False\<rparr>"

section \<open>Records\<close>

record ('date, 'ts, 'd, 'wf) JournalEntryHeader =
  document_id :: "uuid"
  company_code :: "string"
  fiscal_year :: "u16"
  fiscal_period :: "u8"
  posting_date :: "'date"
  document_date :: "'date"
  created_at :: "'ts"
  document_type :: "string"
  currency :: "string"
  exchange_rate :: "'d"
  reference :: "string option"
  header_text :: "string option"
  created_by :: "string"
  user_persona :: "string"
  source :: "TransactionSource"
  sap_source_code :: "string option"
  trading_partner :: "string option"
  business_process :: "BusinessProcess option"
  ledger :: "string"
  is_fraud :: "bool"
  fraud_type :: "FraudType option"
  is_fraud_propagated :: "bool"
  fraud_source_document_id :: "string option"
  is_anomaly :: "bool"
  anomaly_id :: "string option"
  anomaly_type :: "string option"
  batch_id :: "uuid option"
  is_manual :: "bool"
  is_post_close :: "bool"
  source_system :: "string"
  created_date :: "'ts option"
  control_ids :: "string list"
  sox_relevant :: "bool"
  control_status :: "ControlStatus"
  sod_violation :: "bool"
  sod_conflict_type :: "SodConflictType option"
  is_elimination :: "bool"
  ic_pair_id :: "IcPairId option"
  ic_partner_entity :: "string option"
  approval_workflow :: "'wf option"
  source_document :: "DocumentRef option"
  approved_by :: "string option"
  approval_date :: "'date option"
  ocpm_event_ids :: "uuid list"
  ocpm_object_ids :: "uuid list"
  ocpm_case_id :: "uuid option"

record ('date, 'd) JournalEntryLine =
  line_document_id :: "uuid"
  line_number :: "u32"
  gl_account :: "string"
  line_account_code :: "string"
  line_account_description :: "string option"
  debit_amount :: "'d"
  credit_amount :: "'d"
  local_amount :: "'d"
  group_amount :: "'d option"
  transaction_amount :: "'d option"
  cost_center :: "string option"
  profit_center :: "string option"
  business_unit :: "string option"
  segment :: "string option"
  functional_area :: "string option"
  line_text :: "string option"
  text_alias :: "string option"
  line_reference :: "string option"
  value_date :: "'date option"
  tax_code :: "string option"
  tax_amount :: "'d option"
  assignment :: "string option"
  offsetting_account :: "string option"
  is_suspense :: "bool"
  line_trading_partner :: "string option"
  quantity :: "'d option"
  unit_of_measure :: "string option"
  unit :: "string option"
  project_code :: "string option"
  auxiliary_account_number :: "string option"
  auxiliary_account_label :: "string option"
  lettrage :: "string option"
  lettrage_date :: "'date option"
  transaction_id :: "string option"
  predecessor_line_id :: "string option"

record ('date, 'ts, 'd, 'wf) JournalEntry =
  header :: "('date, 'ts, 'd, 'wf) JournalEntryHeader"
  lines :: "('date, 'd) JournalEntryLine list"

section \<open>Headers\<close>

text \<open>The calendar functions \<^verbatim>\<open>year\<close> and \<^verbatim>\<open>month\<close> of a date and the current time are
  arguments; the casts to \<^verbatim>\<open>u16\<close> and \<^verbatim>\<open>u8\<close> wrap.\<close>

definition with_deterministic_id ::
    "('date \<Rightarrow> int) \<Rightarrow> ('date \<Rightarrow> nat) \<Rightarrow> 'ts \<Rightarrow> string \<Rightarrow> 'date \<Rightarrow> uuid
     \<Rightarrow> ('date, 'ts, 'd::linordered_idom, 'wf) JournalEntryHeader" where
  "with_deterministic_id year month now company posting_dt doc_id =
     \<lparr>document_id = doc_id, company_code = company,
      fiscal_year = word_of_int (year posting_dt), fiscal_period = word_of_nat (month posting_dt),
      posting_date = posting_dt, document_date = posting_dt, created_at = now,
      document_type = ''SA'', currency = ''USD'', exchange_rate = 1, reference = None,
      header_text = None, created_by = ''SYSTEM'', user_persona = ''automated_system'',
      source = Automated, sap_source_code = None, trading_partner = None,
      business_process = Some R2R, ledger = ''0L'', is_fraud = False, fraud_type = None,
      is_fraud_propagated = False, fraud_source_document_id = None, is_anomaly = False,
      anomaly_id = None, anomaly_type = None, batch_id = None, is_manual = False,
      is_post_close = False, source_system = '''', created_date = None, control_ids = [],
      sox_relevant = False, control_status = Effective, sod_violation = False,
      sod_conflict_type = None, is_elimination = False, ic_pair_id = None,
      ic_partner_entity = None, approval_workflow = None, source_document = None,
      approved_by = None, approval_date = None, ocpm_event_ids = [], ocpm_object_ids = [],
      ocpm_case_id = None\<rparr>"

text \<open>\<^verbatim>\<open>JournalEntryHeader::new\<close> fills in the same values; \<open>doc_id\<close> is what \<^verbatim>\<open>Uuid::now_v7\<close>
  returned.\<close>

definition new_header ::
    "('date \<Rightarrow> int) \<Rightarrow> ('date \<Rightarrow> nat) \<Rightarrow> 'ts \<Rightarrow> uuid \<Rightarrow> string \<Rightarrow> 'date
     \<Rightarrow> ('date, 'ts, 'd::linordered_idom, 'wf) JournalEntryHeader" where
  "new_header year month now doc_id company posting_dt =
     \<lparr>document_id = doc_id, company_code = company,
      fiscal_year = word_of_int (year posting_dt), fiscal_period = word_of_nat (month posting_dt),
      posting_date = posting_dt, document_date = posting_dt, created_at = now,
      document_type = ''SA'', currency = ''USD'', exchange_rate = 1, reference = None,
      header_text = None, created_by = ''SYSTEM'', user_persona = ''automated_system'',
      source = Automated, sap_source_code = None, trading_partner = None,
      business_process = Some R2R, ledger = ''0L'', is_fraud = False, fraud_type = None,
      is_fraud_propagated = False, fraud_source_document_id = None, is_anomaly = False,
      anomaly_id = None, anomaly_type = None, batch_id = None, is_manual = False,
      is_post_close = False, source_system = '''', created_date = None, control_ids = [],
      sox_relevant = False, control_status = Effective, sod_violation = False,
      sod_conflict_type = None, is_elimination = False, ic_pair_id = None,
      ic_partner_entity = None, approval_workflow = None, source_document = None,
      approved_by = None, approval_date = None, ocpm_event_ids = [], ocpm_object_ids = [],
      ocpm_case_id = None\<rparr>"

definition propagate_fraud_from_documents ::
    "(string \<Rightarrow> FraudType option) \<Rightarrow> ('date, 'ts, 'd, 'wf) JournalEntryHeader
     \<Rightarrow> bool \<times> ('date, 'ts, 'd, 'wf) JournalEntryHeader" where
  "propagate_fraud_from_documents fraud_map h =
     (case Option.bind (source_document h) ref_document_id of
        None \<Rightarrow> (False, h)
      | Some doc_id \<Rightarrow>
          (case fraud_map doc_id of
             Some ft \<Rightarrow>
               (True, h\<lparr>is_fraud := True, fraud_type := Some ft, is_fraud_propagated := True,
                        fraud_source_document_id := Some doc_id\<rparr>)
           | None \<Rightarrow> (False, h)))"

section \<open>Lines\<close>

definition debit_line :: "uuid \<Rightarrow> u32 \<Rightarrow> string \<Rightarrow> 'd::linordered_idom \<Rightarrow> ('date, 'd) JournalEntryLine" where
  "debit_line doc_id n acct amount =
     \<lparr>line_document_id = doc_id, line_number = n, gl_account = acct,
      line_account_code = acct, line_account_description = None, debit_amount = amount,
      credit_amount = 0, local_amount = amount, group_amount = None, transaction_amount = None,
      cost_center = None, profit_center = None, business_unit = None, segment = None,
      functional_area = None, line_text = None, text_alias = None, line_reference = None,
      value_date = None, tax_code = None, tax_amount = None, assignment = None,
      offsetting_account = None, is_suspense = False, line_trading_partner = None, quantity = None,
      unit_of_measure = None, unit = None, project_code = None, auxiliary_account_number = None,
      auxiliary_account_label = None, lettrage = None, lettrage_date = None, transaction_id = None,
      predecessor_line_id = None\<rparr>"

definition credit_line :: "uuid \<Rightarrow> u32 \<Rightarrow> string \<Rightarrow> 'd::linordered_idom \<Rightarrow> ('date, 'd) JournalEntryLine" where
  "credit_line doc_id n acct amount =
     \<lparr>line_document_id = doc_id, line_number = n, gl_account = acct,
      line_account_code = acct, line_account_description = None, debit_amount = 0,
      credit_amount = amount, local_amount = - amount, group_amount = None,
      transaction_amount = None, cost_center = None, profit_center = None, business_unit = None,
      segment = None, functional_area = None, line_text = None, text_alias = None,
      line_reference = None, value_date = None, tax_code = None, tax_amount = None,
      assignment = None, offsetting_account = None, is_suspense = False,
      line_trading_partner = None, quantity = None, unit_of_measure = None, unit = None,
      project_code = None, auxiliary_account_number = None, auxiliary_account_label = None,
      lettrage = None, lettrage_date = None, transaction_id = None,
      predecessor_line_id = None\<rparr>"

definition default_line :: "('date, 'd::linordered_idom) JournalEntryLine" where
  "default_line =
     \<lparr>line_document_id = replicate 16 0, line_number = 0, gl_account = '''',
      line_account_code = '''', line_account_description = None, debit_amount = 0,
      credit_amount = 0, local_amount = 0, group_amount = None, transaction_amount = None,
      cost_center = None, profit_center = None, business_unit = None, segment = None,
      functional_area = None, line_text = None, text_alias = None, line_reference = None,
      value_date = None, tax_code = None, tax_amount = None, assignment = None,
      offsetting_account = None, is_suspense = False, line_trading_partner = None, quantity = None,
      unit_of_measure = None, unit = None, project_code = None, auxiliary_account_number = None,
      auxiliary_account_label = None, lettrage = None, lettrage_date = None, transaction_id = None,
      predecessor_line_id = None\<rparr>"

definition is_debit :: "('date, 'd::linordered_idom) JournalEntryLine \<Rightarrow> bool" where
  "is_debit l \<longleftrightarrow> debit_amount l > 0"

definition is_credit :: "('date, 'd::linordered_idom) JournalEntryLine \<Rightarrow> bool" where
  "is_credit l \<longleftrightarrow> credit_amount l > 0"

definition signed_amount :: "('date, 'd::linordered_idom) JournalEntryLine \<Rightarrow> 'd" where
  "signed_amount l = debit_amount l - credit_amount l"

text \<open>\<open>new_v5\<close> and \<open>uuid_to_string\<close> are the name-based UUID under \<^verbatim>\<open>NAMESPACE_OID\<close> and the text form of
  the crate \<^verbatim>\<open>uuid\<close>; the line number is appended in little-endian order.\<close>

definition u32_le_bytes :: "u32 \<Rightarrow> u8 list" where
  "u32_le_bytes n = map (\<lambda>i. ucast (drop_bit (8 * i) n)) [0..<4]"

definition transaction_id_input :: "uuid \<Rightarrow> u32 \<Rightarrow> u8 list" where
  "transaction_id_input doc_id n = doc_id @ u32_le_bytes n"

definition derive_transaction_id ::
    "(u8 list \<Rightarrow> uuid) \<Rightarrow> (uuid \<Rightarrow> string) \<Rightarrow> uuid \<Rightarrow> u32 \<Rightarrow> string" where
  "derive_transaction_id new_v5 uuid_to_string doc_id n =
     uuid_to_string (new_v5 (transaction_id_input doc_id n))"

definition ensure_transaction_id ::
    "(u8 list \<Rightarrow> uuid) \<Rightarrow> (uuid \<Rightarrow> string) \<Rightarrow> ('date, 'd) JournalEntryLine \<Rightarrow> ('date, 'd) JournalEntryLine" where
  "ensure_transaction_id new_v5 uuid_to_string l =
     (if transaction_id l = None
      then l\<lparr>transaction_id :=
               Some (derive_transaction_id new_v5 uuid_to_string (line_document_id l) (line_number l))\<rparr>
      else l)"

section \<open>Entries\<close>

definition new_entry ::
    "('date, 'ts, 'd, 'wf) JournalEntryHeader \<Rightarrow> ('date, 'ts, 'd, 'wf) JournalEntry" where
  "new_entry h = \<lparr>header = h, lines = []\<rparr>"

definition new_simple ::
    "('date \<Rightarrow> int) \<Rightarrow> ('date \<Rightarrow> nat) \<Rightarrow> 'ts \<Rightarrow> uuid \<Rightarrow> string \<Rightarrow> string \<Rightarrow> 'date \<Rightarrow> string
     \<Rightarrow> ('date, 'ts, 'd::linordered_idom, 'wf) JournalEntry" where
  "new_simple year month now doc_id document_number company posting_dt desc =
     \<lparr>header = (new_header year month now doc_id company posting_dt)
        \<lparr>header_text := Some desc, reference := Some document_number\<rparr>,
      lines = []\<rparr>"

definition add_line ::
    "('date, 'ts, 'd, 'wf) JournalEntry \<Rightarrow> ('date, 'd) JournalEntryLine \<Rightarrow> ('date, 'ts, 'd, 'wf) JournalEntry" where
  "add_line e l = e\<lparr>lines := lines e @ [l\<lparr>line_document_id := document_id (header e)\<rparr>]\<rparr>"

definition total_debit :: "('date, 'ts, 'd::linordered_idom, 'wf) JournalEntry \<Rightarrow> 'd" where
  "total_debit e = sum_list (map debit_amount (lines e))"

definition total_credit :: "('date, 'ts, 'd::linordered_idom, 'wf) JournalEntry \<Rightarrow> 'd" where
  "total_credit e = sum_list (map credit_amount (lines e))"

definition is_balanced :: "('date, 'ts, 'd::linordered_idom, 'wf) JournalEntry \<Rightarrow> bool" where
  "is_balanced e \<longleftrightarrow> total_debit e = total_credit e"

definition balance_difference :: "('date, 'ts, 'd::linordered_idom, 'wf) JournalEntry \<Rightarrow> 'd" where
  "balance_difference e = total_debit e - total_credit e"

definition line_count :: "('date, 'ts, 'd, 'wf) JournalEntry \<Rightarrow> nat" where
  "line_count e = length (lines e)"

definition has_even_line_count :: "('date, 'ts, 'd, 'wf) JournalEntry \<Rightarrow> bool" where
  "has_even_line_count e \<longleftrightarrow> length (lines e) mod 2 = 0"

definition debit_credit_counts :: "('date, 'ts, 'd::linordered_idom, 'wf) JournalEntry \<Rightarrow> nat \<times> nat" where
  "debit_credit_counts e =
     (length (filter is_debit (lines e)), length (filter is_credit (lines e)))"

definition has_equal_debit_credit_counts :: "('date, 'ts, 'd::linordered_idom, 'wf) JournalEntry \<Rightarrow> bool" where
  "has_equal_debit_credit_counts e \<longleftrightarrow> (case debit_credit_counts e of (d, c) \<Rightarrow> d = c)"

text \<open>\<^verbatim>\<open>sort\<close> then \<^verbatim>\<open>dedup\<close>, which removes repeated neighbours.\<close>

definition unique_accounts :: "('date, 'ts, 'd, 'wf) JournalEntry \<Rightarrow> string list" where
  "unique_accounts e = remdups_adj (sort (map gl_account (lines e)))"

definition has_suspense_posting :: "('date, 'ts, 'd, 'wf) JournalEntry \<Rightarrow> bool" where
  "has_suspense_posting e \<longleftrightarrow> list_ex is_suspense (lines e)"

definition document_number :: "(uuid \<Rightarrow> string) \<Rightarrow> ('date, 'ts, 'd, 'wf) JournalEntry \<Rightarrow> string" where
  "document_number uuid_to_string e = uuid_to_string (document_id (header e))"

definition has_sod_violation :: "('date, 'ts, 'd, 'wf) JournalEntry \<Rightarrow> bool" where
  "has_sod_violation e = sod_violation (header e)"

definition set_description :: "('date, 'ts, 'd, 'wf) JournalEntry \<Rightarrow> string \<Rightarrow> ('date, 'ts, 'd, 'wf) JournalEntry" where
  "set_description e desc = e\<lparr>header := (header e)\<lparr>header_text := Some desc\<rparr>\<rparr>"

section \<open>Lemmas\<close>

named_theorems entry_simps \<open>reading an entry after one of its operations\<close>

lemma header_ops [simp, entry_simps]:
  "header (add_line e l) = header e" "header (new_entry h) = h" "lines (new_entry h) = []"
  "lines (add_line e l) = lines e @ [l\<lparr>line_document_id := document_id (header e)\<rparr>]"
  "lines (set_description e desc) = lines e"
  "document_id (header (set_description e desc)) = document_id (header e)"
  by (simp_all add: add_line_def new_entry_def set_description_def)

lemma totals_add_line [simp, entry_simps]:
  "total_debit (add_line e l) = total_debit e + debit_amount l"
  "total_credit (add_line e l) = total_credit e + credit_amount l"
  by (simp_all add: total_debit_def total_credit_def)

lemma line_ctor_simps [simp, entry_simps]:
  "debit_amount (debit_line i n a x) = x" "credit_amount (debit_line i n a x) = 0"
  "debit_amount (credit_line i n a x) = 0" "credit_amount (credit_line i n a x) = x"
  "gl_account (debit_line i n a x) = a" "gl_account (credit_line i n a x) = a"
  "line_account_code (debit_line i n a x) = a" "line_account_code (credit_line i n a x) = a"
  by (simp_all add: debit_line_def credit_line_def)

lemma new_headers_agree:
  "new_header y m now i c p = with_deterministic_id y m now c p i"
  by (simp only: new_header_def with_deterministic_id_def)

lemma balance_difference_add_line [simp, entry_simps]:
  "balance_difference (add_line e l) = balance_difference e + signed_amount l"
  by (simp add: balance_difference_def signed_amount_def)

lemma counts_add_line:
  "debit_credit_counts (add_line e l) =
     (case debit_credit_counts e of (d, c) \<Rightarrow> (d + of_bool (is_debit l), c + of_bool (is_credit l)))"
  by (simp add: debit_credit_counts_def is_debit_def is_credit_def)

text \<open>An entry as \<^verbatim>\<open>add_line\<close> builds it: every line carries the document id of the header.\<close>

definition lines_owned :: "('date, 'ts, 'd, 'wf) JournalEntry \<Rightarrow> bool" where
  "lines_owned e \<longleftrightarrow> (\<forall>l\<in>set (lines e). line_document_id l = document_id (header e))"

lemma lines_owned_intros [intro, simp]:
  "lines_owned (new_entry h)" "lines_owned (new_simple y m now i num c p d)"
  "lines_owned e \<Longrightarrow> lines_owned (add_line e l)"
  "lines_owned e \<Longrightarrow> lines_owned (set_description e desc)"
  by (auto simp: lines_owned_def new_simple_def)

lemma sum_signed:
  "sum_list (map signed_amount ls) = sum_list (map debit_amount ls) - sum_list (map credit_amount ls)"
  by (induction ls) (simp_all add: signed_amount_def)

lemma distinct_remdups_adj_sorted: "sorted xs \<Longrightarrow> distinct (remdups_adj (xs :: 'a::linorder list))"
  by (induction xs rule: remdups_adj.induct) auto

lemma u32_le_bytes_inj: "u32_le_bytes m = u32_le_bytes n \<Longrightarrow> m = n"
proof -
  assume eq: "u32_le_bytes m = u32_le_bytes n"
  have b: "(ucast (drop_bit (8 * i) m) :: u8) = ucast (drop_bit (8 * i) n)" if "i < 4" for i
    using arg_cong[OF eq, of "\<lambda>bs. bs ! i"] that by (simp add: u32_le_bytes_def del: upt_rec_numeral)
  show "m = n"
  proof (rule bit_word_eqI)
    fix k assume k: "k < LENGTH(32)"
    have "bit (ucast (drop_bit (8 * (k div 8)) m) :: u8) (k mod 8) = bit (ucast (drop_bit (8 * (k div 8)) n) :: u8) (k mod 8)"
      using b[of "k div 8"] k by auto
    then show "bit m k \<longleftrightarrow> bit n k" by (simp add: bit_simps)
  qed
qed

lemma length_u32_le_bytes [simp]: "length (u32_le_bytes n) = 4"
  by (simp add: u32_le_bytes_def)

section \<open>Properties\<close>

text \<open>The double-entry check reads the signed amounts: the difference of an entry is the
  sum of its lines' signed amounts, the entry is balanced exactly if that sum is zero, and
  posting a debit and a credit of one amount changes neither, whatever the entry held.\<close>

theorem double_entry:
  "balance_difference e = sum_list (map signed_amount (lines e)) \<and>
   (is_balanced e \<longleftrightarrow> sum_list (map signed_amount (lines e)) = 0) \<and>
   balance_difference (add_line (add_line e (debit_line i n a x)) (credit_line j m b x)) = balance_difference e \<and>
   (is_balanced (add_line (add_line e (debit_line i n a x)) (credit_line j m b x)) \<longleftrightarrow> is_balanced e)"
proof -
  have diff: "balance_difference e = sum_list (map signed_amount (lines e))"
    by (simp add: balance_difference_def total_debit_def total_credit_def sum_signed)
  then show ?thesis
    by (auto simp: is_balanced_def balance_difference_def signed_amount_def)
qed

text \<open>Entries are built from lines whose document id is the header's, also when the line
  was made for another document, and a posted pair with a positive amount keeps the numbers of
  debit and credit lines equal and the line count even.\<close>

theorem add_line_keeps_entry_shape:
  assumes "lines_owned e" "has_equal_debit_credit_counts e" "has_even_line_count e" "0 < x"
    "e' = add_line (add_line e (debit_line i n a x)) (credit_line j m b x)"
  shows "lines_owned e' \<and> has_equal_debit_credit_counts e' \<and> has_even_line_count e'
    \<and> line_count e' = line_count e + 2"
  using assms(1-4)
  by (auto simp: assms(5) has_equal_debit_credit_counts_def counts_add_line is_debit_def is_credit_def
      has_even_line_count_def line_count_def split: prod.splits)

theorem add_line_keeps_entry_shape_witness:
  "lines_owned (add_line (add_line (new_entry (new_header (\<lambda>_. 2024) (\<lambda>_. 3) () (replicate 16 0) ''C1'' ()))
       (debit_line (replicate 16 1) 1 ''1000'' (5::int))) (credit_line (replicate 16 2) 2 ''4000'' 5)
     :: (unit, unit, int, unit) JournalEntry)"
  using add_line_keeps_entry_shape[where
      e = "new_entry (new_header (\<lambda>_. 2024) (\<lambda>_. 3) () (replicate 16 0) ''C1'' ()) :: (unit, unit, int, unit) JournalEntry"
      and x = 5 and i = "replicate 16 1" and n = 1 and a = "''1000''" and j = "replicate 16 2" and m = 2
      and b = "''4000''", OF _ _ _ _ refl]
  by (simp add: has_equal_debit_credit_counts_def debit_credit_counts_def has_even_line_count_def)

text \<open>\<^verbatim>\<open>unique_accounts\<close> lists exactly the accounts the lines post to, each once, in
  increasing order.\<close>

theorem unique_accounts_correct:
  "set (unique_accounts e) = set (map gl_account (lines e)) \<and>
   distinct (unique_accounts e) \<and> sorted (unique_accounts e)"
  by (simp add: unique_accounts_def distinct_remdups_adj_sorted)

text \<open>Reading a reference: the kinds exclude each other, so the order of the tests does
  not matter; the parsed reference keeps the whole text as its document id, and no text is read
  as a delivery, a receipt or a manual entry.\<close>

theorem parse_document_ref_iff:
  "parse_document_ref r = Some d \<longleftrightarrow>
     d = PurchaseOrder r \<and> (starts_with r ''PO-'' \<or> starts_with r ''PO '') \<or>
     d = VendorInvoice r \<and> (starts_with r ''INV-'' \<or> starts_with r ''INV '') \<or>
     d = CustomerInvoice r \<and> (starts_with r ''SO-'' \<or> starts_with r ''SO '') \<or>
     d = GoodsReceipt r \<and> (starts_with r ''GR-'' \<or> starts_with r ''GR '') \<or>
     d = Payment r \<and> (starts_with r ''PAY-'' \<or> starts_with r ''PAY '')"
  by (auto simp: parse_document_ref_def starts_with_iff)

text \<open>Fraud propagation tags a header exactly when its source document has an id that the
  map knows, then with that id and that type; it changes nothing but the four fraud fields,
  nothing at all when it answers false, and repeating it changes nothing more.\<close>

theorem propagate_fraud_spec:
  fixes fraud_map and h :: "('date, 'ts, 'd, 'wf) JournalEntryHeader"
  defines "p \<equiv> propagate_fraud_from_documents fraud_map h"
  shows "(fst p \<longleftrightarrow> (\<exists>d i ft. source_document h = Some d \<and> ref_document_id d = Some i
            \<and> fraud_map i = Some ft \<and> fraud_source_document_id (snd p) = Some i
            \<and> fraud_type (snd p) = Some ft \<and> is_fraud (snd p) \<and> is_fraud_propagated (snd p)))
    \<and> (if fst p
       then snd p = h\<lparr>is_fraud := is_fraud (snd p), fraud_type := fraud_type (snd p),
              is_fraud_propagated := is_fraud_propagated (snd p),
              fraud_source_document_id := fraud_source_document_id (snd p)\<rparr>
       else snd p = h)
    \<and> propagate_fraud_from_documents fraud_map (snd p) = p"
  unfolding p_def propagate_fraud_from_documents_def
  by (cases "Option.bind (source_document h) ref_document_id")
     (auto split: option.splits bind_splits)

text \<open>A transaction id is derived once: a line keeps the id it has and otherwise gets the
  derived one, a second call changes nothing, and the bytes that are hashed for it determine
  the document and the line number.\<close>

theorem ensure_transaction_id_stable:
  "transaction_id (ensure_transaction_id new_v5 str l) =
     Some (case transaction_id l of Some t \<Rightarrow> t
           | None \<Rightarrow> str (new_v5 (transaction_id_input (line_document_id l) (line_number l)))) \<and>
   ensure_transaction_id new_v5 str (ensure_transaction_id new_v5 str l) = ensure_transaction_id new_v5 str l \<and>
   (transaction_id_input i m = transaction_id_input j n \<longleftrightarrow> i = j \<and> m = n)"
  by (auto simp: ensure_transaction_id_def derive_transaction_id_def transaction_id_input_def
      dest!: u32_le_bytes_inj split: option.splits)

end
