(* ===== verification/Ledger.thy ===== *)
theory Ledger
  imports Prelude
begin

text \<open>
  The interface of everything that amounts are posted to: a state that keeps a total per key
  (account, category, company and account), and a posting that adds the amount of a line to
  the total of its key and changes no other. A client that posts a list of lines then knows
  every total, and that the order of the lines does not matter.
\<close>

definition key_sum :: "('l \<Rightarrow> 'k) \<Rightarrow> ('l \<Rightarrow> 'd::comm_monoid_add) \<Rightarrow> 'l list \<Rightarrow> 'k \<Rightarrow> 'd" where
  "key_sum key amount ls k = sum_list (map amount (filter (\<lambda>l. key l = k) ls))"

named_theorems key_sums \<open>sums of the amounts of a key\<close>

lemma key_sum_simps [simp, key_sums]:
  "key_sum key amount [] k = 0"
  "key_sum key amount (l # ls) k = (if key l = k then amount l else 0) + key_sum key amount ls k"
  "key_sum key amount (ls @ ls') k = key_sum key amount ls k + key_sum key amount ls' k"
  by (simp_all add: key_sum_def)

lemma key_sum_concat [key_sums]:
  "key_sum key amount (concat lss) k = sum_list (map (\<lambda>ls. key_sum key amount ls k) lss)"
  by (induction lss) simp_all

lemma key_sum_permuted:
  "mset ls = mset ls' \<Longrightarrow> key_sum key amount ls k = key_sum key amount ls' k"
  by (simp add: key_sum_def flip: sum_mset_sum_list)

lemma key_sum_minus:
  fixes f :: "'l \<Rightarrow> 'd::ab_group_add"
  shows "key_sum key (\<lambda>l. f l - g l) ls k = key_sum key f ls k - key_sum key g ls k"
  by (induction ls) simp_all

text \<open>The keys partition the lines.\<close>

lemma sum_of_key_sums:
  fixes amount :: "'l \<Rightarrow> 'd::comm_monoid_add"
  assumes "finite K" "key ` set ls \<subseteq> K"
  shows "(\<Sum>k\<in>K. key_sum key amount ls k) = sum_list (map amount ls)"
  using assms(2)
proof (induction ls)
  case (Cons l ls)
  then have "(\<Sum>k\<in>K. if key l = k then amount l else 0) = amount l"
    using assms(1) by simp
  with Cons show ?case by (simp add: sum.distrib)
qed simp

locale posting_ledger =
  fixes post :: "'s \<Rightarrow> 'l \<Rightarrow> 's" and total :: "'s \<Rightarrow> 'k \<Rightarrow> 'd::ab_group_add"
    and key :: "'l \<Rightarrow> 'k" and amount :: "'l \<Rightarrow> 'd"
  assumes total_post: "total (post s l) k = total s k + (if key l = k then amount l else 0)"
begin

definition post_lines :: "'s \<Rightarrow> 'l list \<Rightarrow> 's" where
  "post_lines s ls = foldl post s ls"

lemma total_post_lines: "total (post_lines s ls) k = total s k + key_sum key amount ls k"
  by (induction ls arbitrary: s) (simp_all add: post_lines_def total_post algebra_simps)

lemma post_lines_order_independent:
  "mset ls = mset ls' \<Longrightarrow> total (post_lines s ls) k = total (post_lines s ls') k"
  by (simp add: total_post_lines key_sum_permuted[of ls ls'])

lemma untouched_key: "k \<notin> key ` set ls \<Longrightarrow> total (post_lines s ls) k = total s k"
proof -
  assume "k \<notin> key ` set ls"
  then have "filter (\<lambda>l. key l = k) ls = []" by (auto simp: filter_empty_conv)
  then show ?thesis by (simp add: total_post_lines key_sum_def)
qed

end

end
