(* ===== verification/Ordered_Map.thy ===== *)
theory Ordered_Map
  imports Prelude
begin

text \<open>
  The \<^verbatim>\<open>BTreeMap\<close> of Rust's standard library as an association list in strictly ascending
  order of its keys: insertion, the entry API, and the facts the components share. Two such
  maps with the same lookups are the same list, so order independence of a fold over a map is
  a statement about lookups.
\<close>

fun bt_insert :: "'k::linorder \<Rightarrow> 'v \<Rightarrow> ('k \<times> 'v) list \<Rightarrow> ('k \<times> 'v) list" where
  "bt_insert k v [] = [(k, v)]"
| "bt_insert k v ((k', v') # m) =
     (if k < k' then (k, v) # (k', v') # m
      else if k = k' then (k, v) # m
      else (k', v') # bt_insert k v m)"

text \<open>\<^verbatim>\<open>*m.entry(k).or_insert(d) = f(..)\<close>.\<close>

definition bt_entry ::
    "'k::linorder \<Rightarrow> 'v \<Rightarrow> ('v \<Rightarrow> 'v) \<Rightarrow> ('k \<times> 'v) list \<Rightarrow> ('k \<times> 'v) list" where
  "bt_entry k d f m = bt_insert k (f (case map_of m k of None \<Rightarrow> d | Some v \<Rightarrow> v)) m"

definition bt_wf :: "('k::linorder \<times> 'v) list \<Rightarrow> bool" where
  "bt_wf m \<longleftrightarrow> sorted_wrt (<) (map fst m)"

text \<open>\<^verbatim>\<open>collect\<close> into a map: a later binding of a key replaces an earlier one.\<close>

definition bt_collect :: "('k::linorder \<times> 'v) list \<Rightarrow> ('k \<times> 'v) list" where
  "bt_collect kvs = foldl (\<lambda>m (k, v). bt_insert k v m) [] kvs"

lemma bt_wf_Nil [simp]: "bt_wf []"
  by (simp add: bt_wf_def)

lemma bt_wf_distinct: "bt_wf m \<Longrightarrow> distinct (map fst m)"
  by (simp add: bt_wf_def strict_sorted_iff)

lemma keys_bt_insert [simp]: "fst ` set (bt_insert k v m) = insert k (fst ` set m)"
proof (induction m)
  case (Cons p m)
  then show ?case by (cases p) (simp add: insert_commute)
qed simp

lemma bt_wf_Cons: "bt_wf ((k, v) # m) \<longleftrightarrow> (\<forall>x \<in> fst ` set m. k < x) \<and> bt_wf m"
  by (simp add: bt_wf_def)

lemma bt_wf_insert [simp]: "bt_wf m \<Longrightarrow> bt_wf (bt_insert k v m)"
proof (induction m)
  case (Cons p m)
  obtain k' v' where p: "p = (k', v')" by force
  have m: "bt_wf m" "\<forall>x \<in> fst ` set m. k' < x"
    using Cons.prems by (simp_all add: p bt_wf_Cons)
  show ?case
  proof (cases k k' rule: linorder_cases)
    case less
    then have "\<forall>x \<in> fst ` set m. k < x" using m(2) less_trans by blast
    with less m show ?thesis by (simp add: p bt_wf_Cons)
  next
    case greater
    with m Cons.IH show ?thesis by (auto simp: p bt_wf_Cons)
  qed (use m in \<open>simp add: p bt_wf_Cons\<close>)
qed (simp add: bt_wf_def)

lemma bt_wf_entry [simp]: "bt_wf m \<Longrightarrow> bt_wf (bt_entry k d f m)"
  by (simp add: bt_entry_def)

lemma map_of_bt_insert [simp]: "map_of (bt_insert k v m) = (map_of m)(k \<mapsto> v)"
  by (induction m) (auto simp: fun_eq_iff)

lemma map_of_bt_entry:
  "map_of (bt_entry k d f m) =
     (map_of m)(k \<mapsto> f (case map_of m k of None \<Rightarrow> d | Some v \<Rightarrow> v))"
  by (simp add: bt_entry_def)

lemma keys_bt_entry [simp]: "fst ` set (bt_entry k d f m) = insert k (fst ` set m)"
  by (simp add: bt_entry_def)

lemma bt_wf_collect [simp]: "bt_wf (bt_collect kvs)"
proof -
  have "bt_wf m \<Longrightarrow> bt_wf (foldl (\<lambda>m (k, v). bt_insert k v m) m kvs)" for m
    by (induction kvs arbitrary: m) auto
  then show ?thesis by (simp add: bt_collect_def)
qed

lemma map_of_bt_collect: "map_of (bt_collect kvs) = map_of (rev kvs)"
proof -
  have "map_of (foldl (\<lambda>m (k, v). bt_insert k v m) m kvs) = map_of m ++ map_of (rev kvs)" for m
    by (induction kvs arbitrary: m) (auto simp: map_add_def fun_eq_iff split: option.split)
  then show ?thesis by (simp add: bt_collect_def)
qed

lemma map_of_bt_collect_distinct:
  "distinct (map fst kvs) \<Longrightarrow> map_of (bt_collect kvs) = map_of kvs"
  by (simp add: map_of_bt_collect map_of_inject_set distinct_rev flip: rev_map)

text \<open>A well-formed map is determined by its lookups.\<close>

lemma bt_ext:
  assumes "bt_wf m" "bt_wf m'" "map_of m = map_of m'"
  shows "m = m'"
proof -
  have d: "distinct (map fst m)" "distinct (map fst m')"
    using assms(1,2) by (simp_all add: bt_wf_distinct)
  have same: "set m = set m'"
    using assms(3) d by (simp add: map_of_inject_set)
  have "inj_on fst (set m \<union> set m')"
    using d same by (simp add: distinct_map)
  then show ?thesis
    using assms(1,2) d same
    by (intro map_sorted_distinct_set_unique[where f = fst]) (simp_all add: bt_wf_def strict_sorted_iff)
qed

text \<open>Sums over the values of a map.\<close>

definition bt_sum :: "('v \<Rightarrow> 'a::comm_monoid_add) \<Rightarrow> ('k \<times> 'v) list \<Rightarrow> 'a" where
  "bt_sum g m = sum_list (map (g \<circ> snd) m)"

lemma bt_sum_Nil [simp]: "bt_sum g [] = 0"
  by (simp add: bt_sum_def)

lemma bt_sum_insert:
  fixes g :: "'v \<Rightarrow> 'a::ab_group_add"
  assumes "bt_wf m"
  shows "bt_sum g (bt_insert k v m) =
           bt_sum g m + g v - (case map_of m k of None \<Rightarrow> 0 | Some v' \<Rightarrow> g v')"
  using assms
proof (induction m)
  case (Cons p m)
  obtain k' v' where p: "p = (k', v')" by force
  have m: "bt_wf m" "\<forall>x \<in> fst ` set m. k' < x"
    using Cons.prems by (auto simp: bt_wf_def p)
  have "k < k' \<Longrightarrow> map_of m k = None"
    using m(2) by (force simp: map_of_eq_None_iff)
  then show ?case
    using Cons.IH m(1) by (auto simp: p bt_sum_def algebra_simps split: option.splits)
qed (simp add: bt_sum_def)

lemma bt_sum_entry:
  fixes g :: "'v \<Rightarrow> 'a::ab_group_add"
  assumes "bt_wf m" "g d = 0"
  shows "bt_sum g (bt_entry k d f m) =
           bt_sum g m + g (f (case map_of m k of None \<Rightarrow> d | Some v \<Rightarrow> v))
             - g (case map_of m k of None \<Rightarrow> d | Some v \<Rightarrow> v)"
  using assms by (simp add: bt_entry_def bt_sum_insert split: option.split)

section \<open>Grouping\<close>

text \<open>\<^verbatim>\<open>m.entry(k).or_default().push(v)\<close> over a list.\<close>

definition bt_push :: "'k::linorder \<Rightarrow> 'v \<Rightarrow> ('k \<times> 'v list) list \<Rightarrow> ('k \<times> 'v list) list" where
  "bt_push k v m = bt_entry k [] (\<lambda>vs. vs @ [v]) m"

lemma bt_wf_push [simp]: "bt_wf m \<Longrightarrow> bt_wf (bt_push k v m)"
  by (simp add: bt_push_def)

lemma get_or_empty_push:
  "get_or_empty (bt_push k v m) k' = get_or_empty m k' @ (if k = k' then [v] else [])"
  by (simp add: bt_push_def map_of_bt_entry get_or_empty_def split: option.split)

lemma keys_push [simp]: "fst ` set (bt_push k v m) = insert k (fst ` set m)"
  by (simp add: bt_push_def)

lemma get_or_empty_pushes:
  "get_or_empty (foldl (\<lambda>m (k, v). bt_push k v m) m kvs) k =
     get_or_empty m k @ map snd (filter (\<lambda>kv. fst kv = k) kvs)"
  by (induction kvs arbitrary: m) (auto simp: get_or_empty_push)

lemma pushes_wf: "bt_wf m \<Longrightarrow> bt_wf (foldl (\<lambda>m (k, v). bt_push k v m) m kvs)"
  by (induction kvs arbitrary: m) auto

lemma pushes_keys:
  "fst ` set (foldl (\<lambda>m (k, v). bt_push k v m) m kvs) = fst ` set m \<union> fst ` set kvs"
  by (induction kvs arbitrary: m) (simp_all add: split_beta)

lemma mset_concat_push:
  "bt_wf m \<Longrightarrow> mset (concat (map snd (bt_push k v m))) = add_mset v (mset (concat (map snd m)))"
proof (induction m)
  case (Cons p m)
  obtain k' vs where p: "p = (k', vs)" by force
  have m: "bt_wf m" "\<forall>x \<in> fst ` set m. k' < x"
    using Cons.prems by (simp_all add: p bt_wf_Cons)
  have "k < k' \<Longrightarrow> map_of m k = None"
    using m(2) by (force simp: map_of_eq_None_iff)
  then show ?case
    using Cons.IH m(1) by (auto simp: p bt_push_def bt_entry_def split: option.splits)
qed (simp add: bt_push_def bt_entry_def)

lemma mset_concat_pushes:
  "bt_wf m \<Longrightarrow> mset (concat (map snd (foldl (\<lambda>m (k, v). bt_push k v m) m kvs))) =
     mset (concat (map snd m)) + mset (map snd kvs)"
  by (induction kvs arbitrary: m) (auto simp: mset_concat_push simp del: mset_concat map_map)

text \<open>An entry of a grouped map is the list of the values with its key, which is not empty.\<close>

lemma grouped_entry:
  assumes "(k, vs) \<in> set (foldl (\<lambda>m (k, v). bt_push k v m) [] kvs)"
  shows "vs = map snd (filter (\<lambda>kv. fst kv = k) kvs)" "vs \<noteq> []"
proof -
  let ?m = "foldl (\<lambda>m (k, v). bt_push k v m) [] kvs"
  have "map_of ?m k = Some vs"
    using assms by (simp add: pushes_wf bt_wf_distinct)
  then have "get_or_empty ?m k = vs" by (simp add: get_or_empty_def)
  then show vs: "vs = map snd (filter (\<lambda>kv. fst kv = k) kvs)"
    by (simp add: get_or_empty_pushes)
  have "k \<in> fst ` set ?m" using assms by force
  then have "k \<in> fst ` set kvs" by (simp add: pushes_keys)
  then show "vs \<noteq> []" by (auto simp: vs filter_empty_conv)
qed

end
