(* ===== verification/Decimal_Text.thy ===== *)
theory Decimal_Text
  imports Prelude
begin

text \<open>
  Decimal text of integers as Rust's formatter writes it (\<^verbatim>\<open>{}\<close> and \<^verbatim>\<open>{:0w}\<close>) and as
  \<^verbatim>\<open>str::parse\<close> reads it into an unsigned type, with the round trip.
\<close>

fun show_nat :: "nat \<Rightarrow> string" where
  "show_nat n =
     (if n < 10 then [char_of (48 + n)] else show_nat (n div 10) @ [char_of (48 + n mod 10)])"

declare show_nat.simps [simp del]

definition pad_zero :: "nat \<Rightarrow> string \<Rightarrow> string" where
  "pad_zero w s = replicate (w - length s) CHR ''0'' @ s"

text \<open>\<^verbatim>\<open>{:0w}\<close>: the sign comes first and counts in the width.\<close>

definition show_int_padded :: "nat \<Rightarrow> int \<Rightarrow> string" where
  "show_int_padded w i =
     (if i < 0 then CHR ''-'' # pad_zero (w - 1) (show_nat (nat (- i)))
      else pad_zero w (show_nat (nat i)))"

definition digit_value :: "char \<Rightarrow> nat option" where
  "digit_value c = (let n = (of_char c :: nat) in if 48 \<le> n \<and> n \<le> 57 then Some (n - 48) else None)"

fun read_digits :: "nat \<Rightarrow> string \<Rightarrow> nat option" where
  "read_digits acc [] = Some acc"
| "read_digits acc (c # s) =
     (case digit_value c of None \<Rightarrow> None | Some d \<Rightarrow> read_digits (10 * acc + d) s)"

text \<open>\<^verbatim>\<open>parse\<close> into an unsigned type with largest value \<open>limit\<close>: an optional plus sign, at least
  one digit, and no overflow.\<close>

definition parse_unsigned :: "nat \<Rightarrow> string \<Rightarrow> nat option" where
  "parse_unsigned limit s =
     (let t = (case s of CHR ''+'' # r \<Rightarrow> r | _ \<Rightarrow> s) in
      if t = [] then None
      else (case read_digits 0 t of None \<Rightarrow> None | Some n \<Rightarrow> if n \<le> limit then Some n else None))"

lemma digit_value_digit [simp]: "d < 10 \<Longrightarrow> digit_value (char_of (48 + d)) = Some d"
  by (simp add: digit_value_def)

lemma read_digits_append:
  "read_digits a (s @ t) = (case read_digits a s of None \<Rightarrow> None | Some b \<Rightarrow> read_digits b t)"
  by (induction s arbitrary: a) (auto split: option.split)

lemma read_digits_zeros [simp]:
  "read_digits a (replicate k CHR ''0'' @ s) = read_digits (a * 10 ^ k) s"
  by (induction k arbitrary: a) (simp_all add: digit_value_def ac_simps)

lemma read_digits_show_nat [simp]: "read_digits 0 (show_nat n) = Some n"
proof (induction n rule: show_nat.induct)
  case (1 n)
  then show ?case
    by (subst show_nat.simps) (simp add: read_digits_append)
qed

lemma show_nat_digits: "c \<in> set (show_nat n) \<Longrightarrow> digit_value c \<noteq> None"
proof (induction n rule: show_nat.induct)
  case (1 n)
  then show ?case
    using show_nat.simps[of n] by (auto split: if_splits)
qed

lemma show_nat_not_Nil [simp]: "show_nat n \<noteq> []"
  by (subst show_nat.simps) simp

lemma show_nat_inj: "show_nat m = show_nat n \<Longrightarrow> m = n"
  by (metis option.inject read_digits_show_nat)

lemma length_show_nat: "n < 10 ^ k \<Longrightarrow> 0 < k \<Longrightarrow> length (show_nat n) \<le> k"
proof (induction k arbitrary: n)
  case (Suc k)
  show ?case
  proof (cases "n < 10")
    case False
    then have "0 < k" using Suc.prems(1) by (cases k) auto
    moreover have "n div 10 < 10 ^ k" using Suc.prems(1) by (simp add: less_mult_imp_div_less ac_simps)
    ultimately have "length (show_nat (n div 10)) \<le> k" using Suc.IH by blast
    then show ?thesis using False by (subst show_nat.simps) simp
  qed (subst show_nat.simps; simp)
qed simp

lemma length_pad_zero [simp]: "length (pad_zero w s) = max w (length s)"
  by (simp add: pad_zero_def)

lemma plus_not_digit: "digit_value CHR ''+'' = None"
  by (simp add: digit_value_def)

text \<open>Padded text of a number reads back as the number.\<close>

lemma parse_pad_zero_show:
  assumes "n \<le> limit"
  shows "parse_unsigned limit (pad_zero w (show_nat n)) = Some n"
proof -
  let ?s = "pad_zero w (show_nat n)"
  have "CHR ''+'' \<notin> set ?s"
    using show_nat_digits[of "CHR ''+''" n] plus_not_digit by (auto simp: pad_zero_def)
  then have "(case ?s of CHR ''+'' # r \<Rightarrow> r | _ \<Rightarrow> ?s) = ?s"
    by (cases ?s) (auto split: list.split char.split bool.split)
  moreover have "?s \<noteq> []" by (simp add: pad_zero_def)
  moreover have "read_digits 0 ?s = Some n" by (simp add: pad_zero_def)
  ultimately show ?thesis using assms by (simp add: parse_unsigned_def Let_def)
qed

end
