(* ===== verification/Elimination.thy ===== *)
theory Elimination
  imports Complex_Main Journal Ledger Ordered_Map Decimal_Text
begin

text \<open>
  Model of \<^verbatim>\<open>crates/datasynth-core/src/models/intercompany/elimination.rs\<close>: elimination entries and
  their factories, elimination rules, aggregated intercompany balances and the consolidation
  journal; and of \<^verbatim>\<open>datasynth-generators/src/intercompany/elimination_to_je.rs\<close>, which turns
  elimination entries into journal entries. Amounts have the type parameter \<open>'d\<close>, dates \<open>'date\<close>;
  a function that reads the clock takes \<open>now\<close> or \<open>today\<close>.
\<close>

section \<open>Types of eliminations\<close>

datatype EliminationType =
    ICBalances | ICRevenueExpense | ICProfitInInventory | ICProfitInFixedAssets
  | InvestmentEquity | ICDividends | ICLoans | ICInterest | MinorityInterest | Goodwill
  | CurrencyTranslation

fun elim_type_rank :: "EliminationType \<Rightarrow> nat" where
  "elim_type_rank ICBalances = 0"
| "elim_type_rank ICRevenueExpense = 1"
| "elim_type_rank ICProfitInInventory = 2"
| "elim_type_rank ICProfitInFixedAssets = 3"
| "elim_type_rank InvestmentEquity = 4"
| "elim_type_rank ICDividends = 5"
| "elim_type_rank ICLoans = 6"
| "elim_type_rank ICInterest = 7"
| "elim_type_rank MinorityInterest = 8"
| "elim_type_rank Goodwill = 9"
| "elim_type_rank CurrencyTranslation = 10"

lemma elim_type_rank_inj: "elim_type_rank a = elim_type_rank b \<longleftrightarrow> a = b"
  by (cases a; cases b) simp_all

text \<open>The derived order is the order of declaration.\<close>

instantiation EliminationType :: linorder
begin

definition less_eq_EliminationType :: "EliminationType \<Rightarrow> EliminationType \<Rightarrow> bool" where
  "less_eq_EliminationType a b \<longleftrightarrow> elim_type_rank a \<le> elim_type_rank b"

definition less_EliminationType :: "EliminationType \<Rightarrow> EliminationType \<Rightarrow> bool" where
  "less_EliminationType a b \<longleftrightarrow> elim_type_rank a < elim_type_rank b"

instance
  by standard (auto simp: less_eq_EliminationType_def less_EliminationType_def elim_type_rank_inj)

end

fun elim_description :: "EliminationType \<Rightarrow> string" where
  "elim_description ICBalances = ''Eliminate intercompany receivables and payables''"
| "elim_description ICRevenueExpense = ''Eliminate intercompany revenue and expense''"
| "elim_description ICProfitInInventory = ''Eliminate unrealized profit in inventory''"
| "elim_description ICProfitInFixedAssets = ''Eliminate unrealized profit in fixed assets''"
| "elim_description InvestmentEquity = ''Eliminate investment against subsidiary equity''"
| "elim_description ICDividends = ''Eliminate intercompany dividends''"
| "elim_description ICLoans = ''Eliminate intercompany loan balances''"
| "elim_description ICInterest = ''Eliminate intercompany interest income/expense''"
| "elim_description MinorityInterest = ''Recognize non-controlling interest''"
| "elim_description Goodwill = ''Recognize goodwill from acquisition''"
| "elim_description CurrencyTranslation = ''Currency translation adjustment''"

definition affects_pnl :: "EliminationType \<Rightarrow> bool" where
  "affects_pnl t \<longleftrightarrow>
     t \<in> {ICRevenueExpense, ICProfitInInventory, ICProfitInFixedAssets, ICDividends, ICInterest}"

definition is_recurring :: "EliminationType \<Rightarrow> bool" where
  "is_recurring t \<longleftrightarrow> t \<in> {ICBalances, ICRevenueExpense, ICLoans, ICInterest, MinorityInterest}"

section \<open>Elimination entries\<close>

record 'd EliminationLine =
  eln_line_number :: u32
  eln_company :: string
  eln_account :: string
  eln_is_debit :: bool
  eln_amount :: 'd
  eln_currency :: string
  eln_description :: string

record ('date, 'ts, 'd) EliminationEntry =
  ee_entry_id :: string
  ee_elimination_type :: EliminationType
  ee_consolidation_entity :: string
  ee_fiscal_period :: string
  ee_entry_date :: 'date
  ee_related_companies :: "string list"
  ee_lines :: "'d EliminationLine list"
  ee_total_debit :: 'd
  ee_total_credit :: 'd
  ee_currency :: string
  ee_is_permanent :: bool
  ee_ic_references :: "string list"
  ee_description :: string
  ee_created_by :: string
  ee_created_at :: 'ts

definition new_elimination ::
    "'ts \<Rightarrow> string \<Rightarrow> EliminationType \<Rightarrow> string \<Rightarrow> string \<Rightarrow> 'date \<Rightarrow> string
     \<Rightarrow> ('date, 'ts, 'd::linordered_idom) EliminationEntry" where
  "new_elimination now entry_id ty entity period dt cur =
     \<lparr>ee_entry_id = entry_id, ee_elimination_type = ty, ee_consolidation_entity = entity,
      ee_fiscal_period = period, ee_entry_date = dt, ee_related_companies = [], ee_lines = [],
      ee_total_debit = 0, ee_total_credit = 0, ee_currency = cur,
      ee_is_permanent = (\<not> is_recurring ty), ee_ic_references = [],
      ee_description = elim_description ty, ee_created_by = ''SYSTEM'', ee_created_at = now\<rparr>"

definition elim_add_line ::
    "('date, 'ts, 'd::linordered_idom) EliminationEntry \<Rightarrow> 'd EliminationLine
     \<Rightarrow> ('date, 'ts, 'd) EliminationEntry" where
  "elim_add_line e l =
     (let e' = (if eln_is_debit l then e\<lparr>ee_total_debit := ee_total_debit e + eln_amount l\<rparr>
                else e\<lparr>ee_total_credit := ee_total_credit e + eln_amount l\<rparr>)
      in e'\<lparr>ee_lines := ee_lines e' @ [l]\<rparr>)"

definition elim_is_balanced :: "('date, 'ts, 'd) EliminationEntry \<Rightarrow> bool" where
  "elim_is_balanced e \<longleftrightarrow> ee_total_debit e = ee_total_credit e"

definition elim_line ::
    "u32 \<Rightarrow> string \<Rightarrow> string \<Rightarrow> bool \<Rightarrow> 'd \<Rightarrow> string \<Rightarrow> string \<Rightarrow> 'd EliminationLine" where
  "elim_line n company acct debit amount cur desc =
     \<lparr>eln_line_number = n, eln_company = company, eln_account = acct, eln_is_debit = debit,
      eln_amount = amount, eln_currency = cur, eln_description = desc\<rparr>"

definition create_ic_balance_elimination ::
    "'ts \<Rightarrow> string \<Rightarrow> string \<Rightarrow> string \<Rightarrow> 'date \<Rightarrow> string \<Rightarrow> string \<Rightarrow> string \<Rightarrow> string \<Rightarrow> 'd
     \<Rightarrow> string \<Rightarrow> ('date, 'ts, 'd::linordered_idom) EliminationEntry" where
  "create_ic_balance_elimination now entry_id entity period dt company1 company2 receivable payable
       amount cur =
     (let e = (new_elimination now entry_id ICBalances entity period dt cur)
                \<lparr>ee_related_companies := [company1, company2],
                 ee_description := ''Eliminate IC balance between '' @ company1 @ '' and '' @ company2\<rparr>;
          e = elim_add_line e (elim_line 1 company2 payable True amount cur
                (''Eliminate IC payable to '' @ company1))
      in elim_add_line e (elim_line 2 company1 receivable False amount cur
           (''Eliminate IC receivable from '' @ company2)))"

definition create_ic_revenue_expense_elimination ::
    "'ts \<Rightarrow> string \<Rightarrow> string \<Rightarrow> string \<Rightarrow> 'date \<Rightarrow> string \<Rightarrow> string \<Rightarrow> string \<Rightarrow> string \<Rightarrow> 'd
     \<Rightarrow> string \<Rightarrow> ('date, 'ts, 'd::linordered_idom) EliminationEntry" where
  "create_ic_revenue_expense_elimination now entry_id entity period dt seller buyer revenue expense
       amount cur =
     (let e = (new_elimination now entry_id ICRevenueExpense entity period dt cur)
                \<lparr>ee_related_companies := [seller, buyer],
                 ee_description :=
                   ''Eliminate IC revenue/expense between '' @ seller @ '' and '' @ buyer\<rparr>;
          e = elim_add_line e (elim_line 1 seller revenue True amount cur
                (''Eliminate IC revenue from '' @ buyer))
      in elim_add_line e (elim_line 2 buyer expense False amount cur
           (''Eliminate IC expense to '' @ seller)))"

definition create_unrealized_profit_elimination ::
    "'ts \<Rightarrow> string \<Rightarrow> string \<Rightarrow> string \<Rightarrow> 'date \<Rightarrow> string \<Rightarrow> string \<Rightarrow> 'd
     \<Rightarrow> string \<Rightarrow> ('date, 'ts, 'd::linordered_idom) EliminationEntry" where
  "create_unrealized_profit_elimination now entry_id entity period dt seller buyer profit cur =
     (let e = (new_elimination now entry_id ICProfitInInventory entity period dt cur)
                \<lparr>ee_related_companies := [seller, buyer],
                 ee_description :=
                   ''Eliminate unrealized profit in inventory from '' @ seller @ '' to '' @ buyer\<rparr>;
          e = elim_add_line e (elim_line 1 seller ''5000'' True profit cur
                ''Eliminate unrealized profit'')
      in elim_add_line e (elim_line 2 buyer ''1400'' False profit cur ''Reduce inventory to cost''))"

text \<open>The loop over the equity components, with the line number.\<close>

fun add_equity_lines ::
    "string \<Rightarrow> string \<Rightarrow> (string \<times> 'd::linordered_idom) list
     \<Rightarrow> u32 \<times> ('date, 'ts, 'd) EliminationEntry \<Rightarrow> u32 \<times> ('date, 'ts, 'd) EliminationEntry" where
  "add_equity_lines subsidiary cur [] st = st"
| "add_equity_lines subsidiary cur ((acct, amount) # cs) (n, e) =
     add_equity_lines subsidiary cur cs
       (n + 1, elim_add_line e (elim_line n subsidiary acct True amount cur
                 ''Eliminate subsidiary equity''))"

definition create_investment_equity_elimination ::
    "'ts \<Rightarrow> string \<Rightarrow> string \<Rightarrow> string \<Rightarrow> 'date \<Rightarrow> string \<Rightarrow> string \<Rightarrow> 'd \<Rightarrow> (string \<times> 'd) list
     \<Rightarrow> 'd option \<Rightarrow> 'd option \<Rightarrow> string \<Rightarrow> ('date, 'ts, 'd::linordered_idom) EliminationEntry" where
  "create_investment_equity_elimination now entry_id entity period dt parent subsidiary investment
       equity_components goodwill minority cur =
     (let e = (new_elimination now entry_id InvestmentEquity entity period dt cur)
                \<lparr>ee_related_companies := [parent, subsidiary], ee_is_permanent := True,
                 ee_description := ''Eliminate investment in '' @ subsidiary @ '' against equity''\<rparr>;
          (n, e) = add_equity_lines subsidiary cur equity_components (1, e);
          (n, e) = (case goodwill of
                      None \<Rightarrow> (n, e)
                    | Some g \<Rightarrow> (n + 1, elim_add_line e (elim_line n entity ''1800'' True g cur
                                  ''Recognize goodwill'')));
          e = elim_add_line e (elim_line n parent ''1510'' False investment cur
                ''Eliminate investment in subsidiary'');
          n = n + 1
      in (case minority of
            None \<Rightarrow> e
          | Some mi \<Rightarrow> elim_add_line e (elim_line n entity ''3500'' False mi cur
                         ''Recognize non-controlling interest'')))"

section \<open>Rules and aggregated balances\<close>

record 'date EliminationRule =
  er_rule_id :: string
  er_name :: string
  er_elimination_type :: EliminationType
  er_source_account_pattern :: string
  er_target_account_pattern :: string
  er_company_pairs :: "(string \<times> string) list"
  er_priority :: u32
  er_is_active :: bool
  er_effective_date :: 'date
  er_end_date :: "'date option"
  er_auto_generate :: bool

definition new_ic_balance_rule ::
    "string \<Rightarrow> string \<Rightarrow> string \<Rightarrow> string \<Rightarrow> 'date \<Rightarrow> 'date EliminationRule" where
  "new_ic_balance_rule rule_id name receivable_pattern payable_pattern effective =
     \<lparr>er_rule_id = rule_id, er_name = name, er_elimination_type = ICBalances,
      er_source_account_pattern = receivable_pattern,
      er_target_account_pattern = payable_pattern, er_company_pairs = [], er_priority = 10,
      er_is_active = True, er_effective_date = effective, er_end_date = None,
      er_auto_generate = True\<rparr>"

definition is_active_on :: "'date::linorder EliminationRule \<Rightarrow> 'date \<Rightarrow> bool" where
  "is_active_on r d \<longleftrightarrow> er_is_active r \<and> d \<ge> er_effective_date r
     \<and> (case er_end_date r of None \<Rightarrow> True | Some until \<Rightarrow> d \<le> until)"

record ('date, 'd) ICAggregatedBalance =
  ia_creditor_company :: string
  ia_debtor_company :: string
  ia_receivable_account :: string
  ia_payable_account :: string
  ia_receivable_balance :: 'd
  ia_payable_balance :: 'd
  ia_difference :: 'd
  ia_currency :: string
  ia_as_of_date :: 'date
  ia_is_matched :: bool

definition new_aggregated_balance ::
    "string \<Rightarrow> string \<Rightarrow> string \<Rightarrow> string \<Rightarrow> string \<Rightarrow> 'date
     \<Rightarrow> ('date, 'd::linordered_idom) ICAggregatedBalance" where
  "new_aggregated_balance creditor debtor receivable payable cur dt =
     \<lparr>ia_creditor_company = creditor, ia_debtor_company = debtor,
      ia_receivable_account = receivable, ia_payable_account = payable,
      ia_receivable_balance = 0, ia_payable_balance = 0, ia_difference = 0, ia_currency = cur,
      ia_as_of_date = dt, ia_is_matched = True\<rparr>"

definition set_balances ::
    "('date, 'd::linordered_idom) ICAggregatedBalance \<Rightarrow> 'd \<Rightarrow> 'd \<Rightarrow> ('date, 'd) ICAggregatedBalance" where
  "set_balances b receivable payable =
     b\<lparr>ia_receivable_balance := receivable, ia_payable_balance := payable,
       ia_difference := receivable - payable, ia_is_matched := (receivable - payable = 0)\<rparr>"

definition aggregated_elimination_amount ::
    "('date, 'd::linordered_idom) ICAggregatedBalance \<Rightarrow> 'd" where
  "aggregated_elimination_amount b = min (ia_receivable_balance b) (ia_payable_balance b)"

section \<open>The consolidation journal\<close>

datatype ConsolidationStatus = Draft | PendingApproval | Approved | Posted | Reversed

record 'd EliminationSummary =
  es_elimination_type :: EliminationType
  es_entry_count :: nat
  es_total_amount :: 'd

record ('date, 'ts, 'd) ConsolidationJournal =
  cj_consolidation_entity :: string
  cj_fiscal_period :: string
  cj_status :: ConsolidationStatus
  cj_entries :: "('date, 'ts, 'd) EliminationEntry list"
  cj_summary :: "(EliminationType \<times> 'd EliminationSummary) list"
  cj_total_debits :: 'd
  cj_total_credits :: 'd
  cj_is_balanced :: bool
  cj_created_date :: 'date
  cj_modified_date :: 'date
  cj_approved_by :: "string option"
  cj_approved_date :: "'date option"

definition new_journal ::
    "string \<Rightarrow> string \<Rightarrow> 'date \<Rightarrow> ('date, 'ts, 'd::linordered_idom) ConsolidationJournal" where
  "new_journal entity period created =
     \<lparr>cj_consolidation_entity = entity, cj_fiscal_period = period, cj_status = Draft,
      cj_entries = [], cj_summary = [], cj_total_debits = 0, cj_total_credits = 0,
      cj_is_balanced = True, cj_created_date = created, cj_modified_date = created,
      cj_approved_by = None, cj_approved_date = None\<rparr>"

definition summarize ::
    "('date, 'ts, 'd::linordered_idom) EliminationEntry
     \<Rightarrow> (EliminationType \<times> 'd EliminationSummary) list
     \<Rightarrow> (EliminationType \<times> 'd EliminationSummary) list" where
  "summarize e m =
     (let s = (case map_of m (ee_elimination_type e) of
                 None \<Rightarrow> \<lparr>es_elimination_type = ee_elimination_type e, es_entry_count = 0,
                          es_total_amount = 0\<rparr>
               | Some s \<Rightarrow> s)
      in AList.update (ee_elimination_type e)
           (s\<lparr>es_entry_count := es_entry_count s + 1,
              es_total_amount := es_total_amount s + ee_total_debit e\<rparr>) m)"

definition add_entry ::
    "'date \<Rightarrow> ('date, 'ts, 'd::linordered_idom) ConsolidationJournal
     \<Rightarrow> ('date, 'ts, 'd) EliminationEntry \<Rightarrow> ('date, 'ts, 'd) ConsolidationJournal" where
  "add_entry today j e =
     (let debits = cj_total_debits j + ee_total_debit e;
          credits = cj_total_credits j + ee_total_credit e
      in j\<lparr>cj_total_debits := debits, cj_total_credits := credits,
           cj_is_balanced := (debits = credits), cj_summary := summarize e (cj_summary j),
           cj_entries := cj_entries j @ [e], cj_modified_date := today\<rparr>)"

definition submit_journal ::
    "('date, 'ts, 'd) ConsolidationJournal \<Rightarrow> ('date, 'ts, 'd) ConsolidationJournal" where
  "submit_journal j = (if cj_is_balanced j then j\<lparr>cj_status := PendingApproval\<rparr> else j)"

definition approve_journal ::
    "'date \<Rightarrow> ('date, 'ts, 'd) ConsolidationJournal \<Rightarrow> string \<Rightarrow> ('date, 'ts, 'd) ConsolidationJournal" where
  "approve_journal today j who =
     j\<lparr>cj_status := Approved, cj_approved_by := Some who, cj_approved_date := Some today\<rparr>"

definition post_journal ::
    "('date, 'ts, 'd) ConsolidationJournal \<Rightarrow> ('date, 'ts, 'd) ConsolidationJournal" where
  "post_journal j = (if cj_status j = Approved then j\<lparr>cj_status := Posted\<rparr> else j)"

section \<open>Journal entries of eliminations\<close>

text \<open>What the conversion asks of other crates: the calendar, and the clock and \<^verbatim>\<open>Uuid::now_v7\<close> at
  the call with a given number.\<close>

record ('date, 'ts) conversion_env =
  cv_year :: "'date \<Rightarrow> int"
  cv_month :: "'date \<Rightarrow> nat"
  cv_now_at :: "nat \<Rightarrow> 'ts"
  cv_uuid_at :: "nat \<Rightarrow> uuid"

text \<open>The fiscal year and period of a text of the form YYYYMM, as \<^verbatim>\<open>u16\<close> and \<^verbatim>\<open>u8\<close>.\<close>

definition parse_fiscal_period :: "string \<Rightarrow> (u16 \<times> u8) option" where
  "parse_fiscal_period s =
     (if length s = 6 then
        (case (parse_unsigned (2 ^ 16 - 1) (take 4 s), parse_unsigned (2 ^ 8 - 1) (drop 4 s)) of
           (Some y, Some mo) \<Rightarrow> Some (word_of_nat y, word_of_nat mo)
         | _ \<Rightarrow> None)
      else None)"

definition elimination_header ::
    "('date, 'ts) conversion_env \<Rightarrow> nat \<Rightarrow> ('date, 'ts, 'd::linordered_idom) EliminationEntry
     \<Rightarrow> ('date, 'ts, 'd, 'wf) JournalEntryHeader" where
  "elimination_header cv k e =
     (let h = (new_header (cv_year cv) (cv_month cv) (cv_now_at cv k) (cv_uuid_at cv k)
                 (ee_consolidation_entity e) (ee_entry_date e))
                \<lparr>document_type := ''ELIMINATION'', created_by := ''CONSOLIDATION'',
                 user_persona := ''system_consolidation'', currency := ee_currency e,
                 source := Automated, business_process := Some R2R,
                 header_text := Some (ee_description e), reference := Some (ee_entry_id e),
                 is_elimination := True\<rparr>
      in (case parse_fiscal_period (ee_fiscal_period e) of
            None \<Rightarrow> h
          | Some (y, p) \<Rightarrow> h\<lparr>fiscal_year := y, fiscal_period := p\<rparr>))"

definition je_line_of ::
    "uuid \<Rightarrow> nat \<Rightarrow> 'd::linordered_idom EliminationLine \<Rightarrow> ('date, 'd) JournalEntryLine" where
  "je_line_of doc_id idx l =
     (let n = word_of_nat idx + 1 in
      if eln_is_debit l then debit_line doc_id n (eln_account l) (eln_amount l)
      else credit_line doc_id n (eln_account l) (eln_amount l))"

definition elimination_to_journal_entry ::
    "('date, 'ts) conversion_env \<Rightarrow> nat \<Rightarrow> ('date, 'ts, 'd::linordered_idom) EliminationEntry
     \<Rightarrow> ('date, 'ts, 'd, 'wf) JournalEntry" where
  "elimination_to_journal_entry cv k e =
     (let je = new_entry (elimination_header cv k e); doc_id = document_id (header je) in
      foldl (\<lambda>je (idx, l). add_line je (je_line_of doc_id idx l)) je (enumerate 0 (ee_lines e)))"

definition elimination_to_journal_entries ::
    "('date, 'ts) conversion_env \<Rightarrow> ('date, 'ts, 'd::linordered_idom) EliminationEntry list
     \<Rightarrow> ('date, 'ts, 'd, 'wf) JournalEntry list" where
  "elimination_to_journal_entries cv es =
     map (\<lambda>(k, e). elimination_to_journal_entry cv k e) (enumerate 0 (filter elim_is_balanced es))"

section \<open>Lines and totals\<close>

definition elim_signed :: "'d::linordered_idom EliminationLine \<Rightarrow> 'd" where
  "elim_signed l = (if eln_is_debit l then eln_amount l else - eln_amount l)"

definition debit_sum :: "'d::linordered_idom EliminationLine list \<Rightarrow> 'd" where
  "debit_sum ls = sum_list (map eln_amount (filter eln_is_debit ls))"

definition credit_sum :: "'d::linordered_idom EliminationLine list \<Rightarrow> 'd" where
  "credit_sum ls = sum_list (map eln_amount (filter (\<lambda>l. \<not> eln_is_debit l) ls))"

text \<open>The totals of an entry are those of its lines; every constructor keeps this.\<close>

definition totals_ok :: "('date, 'ts, 'd::linordered_idom) EliminationEntry \<Rightarrow> bool" where
  "totals_ok e \<longleftrightarrow> ee_total_debit e = debit_sum (ee_lines e) \<and> ee_total_credit e = credit_sum (ee_lines e)"

named_theorems elim_simps \<open>reading an elimination entry after one of its operations\<close>

lemma line_sums [simp]:
  "debit_sum [] = 0" "credit_sum [] = 0"
  "debit_sum (ls @ [l]) = debit_sum ls + (if eln_is_debit l then eln_amount l else 0)"
  "credit_sum (ls @ [l]) = credit_sum ls + (if eln_is_debit l then 0 else eln_amount l)"
  by (simp_all add: debit_sum_def credit_sum_def)

lemma signed_is_debit_minus_credit: "sum_list (map elim_signed ls) = debit_sum ls - credit_sum ls"
  by (induction ls) (simp_all add: debit_sum_def credit_sum_def elim_signed_def)

lemma elim_add_line_simps [simp, elim_simps]:
  "ee_lines (elim_add_line e l) = ee_lines e @ [l]"
  "ee_elimination_type (elim_add_line e l) = ee_elimination_type e"
  "ee_entry_id (elim_add_line e l) = ee_entry_id e"
  "ee_entry_date (elim_add_line e l) = ee_entry_date e"
  "ee_fiscal_period (elim_add_line e l) = ee_fiscal_period e"
  "ee_total_debit (elim_add_line e l) = ee_total_debit e + (if eln_is_debit l then eln_amount l else 0)"
  "ee_total_credit (elim_add_line e l) = ee_total_credit e + (if eln_is_debit l then 0 else eln_amount l)"
  by (simp_all add: elim_add_line_def Let_def)

lemma new_elimination_simps [simp, elim_simps]:
  "ee_lines (new_elimination now i ty en p d c) = []"
  "ee_elimination_type (new_elimination now i ty en p d c) = ty"
  "ee_entry_id (new_elimination now i ty en p d c) = i"
  "ee_entry_date (new_elimination now i ty en p d c) = d"
  "ee_fiscal_period (new_elimination now i ty en p d c) = p"
  "ee_total_debit (new_elimination now i ty en p d c) = 0"
  "ee_total_credit (new_elimination now i ty en p d c) = 0"
  by (simp_all add: new_elimination_def)

lemma elim_line_simps [simp, elim_simps]:
  "eln_account (elim_line n co a b x cur d) = a" "eln_is_debit (elim_line n co a b x cur d) = b"
  "eln_amount (elim_line n co a b x cur d) = x" "eln_company (elim_line n co a b x cur d) = co"
  by (simp_all add: elim_line_def)

lemma totals_ok_new [simp, intro]: "totals_ok (new_elimination now i ty en p d c)"
  by (simp add: totals_ok_def)

lemma totals_ok_add_line [simp, intro]: "totals_ok e \<Longrightarrow> totals_ok (elim_add_line e l)"
  by (simp add: totals_ok_def)

lemma totals_ok_update [simp]:
  "totals_ok (e\<lparr>ee_related_companies := cs\<rparr>) = totals_ok e"
  "totals_ok (e\<lparr>ee_description := s\<rparr>) = totals_ok e"
  "totals_ok (e\<lparr>ee_is_permanent := b\<rparr>) = totals_ok e"
  "totals_ok (e\<lparr>ee_ic_references := cs\<rparr>) = totals_ok e"
  "totals_ok (e\<lparr>ee_created_at := t\<rparr>) = totals_ok e"
  by (simp_all add: totals_ok_def)

lemma totals_ok_factories [simp, intro]:
  "totals_ok (create_ic_balance_elimination now i en p d c1 c2 r py x cur)"
  "totals_ok (create_ic_revenue_expense_elimination now i en p d c1 c2 r py x cur)"
  "totals_ok (create_unrealized_profit_elimination now i en p d c1 c2 x cur)"
  by (simp_all add: create_ic_balance_elimination_def create_ic_revenue_expense_elimination_def
      create_unrealized_profit_elimination_def Let_def totals_ok_add_line)

lemma equity_lines:
  "totals_ok e \<Longrightarrow> totals_ok (snd (add_equity_lines sub cur cs (n, e)))"
  "ee_total_debit (snd (add_equity_lines sub cur cs (n, e))) = ee_total_debit e + sum_list (map snd cs)"
  "ee_total_credit (snd (add_equity_lines sub cur cs (n, e))) = ee_total_credit e"
  "fst (add_equity_lines sub cur cs (n, e)) = n + word_of_nat (length cs)"
proof -
  have "(totals_ok e \<longrightarrow> totals_ok (snd (add_equity_lines sub cur cs (n, e))))
    \<and> ee_total_debit (snd (add_equity_lines sub cur cs (n, e))) = ee_total_debit e + sum_list (map snd cs)
    \<and> ee_total_credit (snd (add_equity_lines sub cur cs (n, e))) = ee_total_credit e
    \<and> fst (add_equity_lines sub cur cs (n, e)) = n + word_of_nat (length cs)"
    by (induction cs arbitrary: n e) (auto simp: algebra_simps)
  then show "totals_ok e \<Longrightarrow> totals_ok (snd (add_equity_lines sub cur cs (n, e)))"
    "ee_total_debit (snd (add_equity_lines sub cur cs (n, e))) = ee_total_debit e + sum_list (map snd cs)"
    "ee_total_credit (snd (add_equity_lines sub cur cs (n, e))) = ee_total_credit e"
    "fst (add_equity_lines sub cur cs (n, e)) = n + word_of_nat (length cs)"
    by auto
qed

lemma investment_totals:
  assumes e: "e = create_investment_equity_elimination now i en p d parent sub amount comps gw mi cur"
  shows "totals_ok e"
    and "ee_total_debit e = sum_list (map snd comps) + (case gw of None \<Rightarrow> 0 | Some g \<Rightarrow> g)"
    and "ee_total_credit e = amount + (case mi of None \<Rightarrow> 0 | Some x \<Rightarrow> x)"
proof -
  obtain n e1 where a: "add_equity_lines sub cur comps (1, (new_elimination now i InvestmentEquity en p d cur)
      \<lparr>ee_related_companies := [parent, sub], ee_is_permanent := True,
       ee_description := ''Eliminate investment in '' @ sub @ '' against equity''\<rparr>) = (n, e1)"
    (is "add_equity_lines sub cur comps (1, ?e0) = _") by force
  have t: "totals_ok e1" "ee_total_debit e1 = sum_list (map snd comps)" "ee_total_credit e1 = 0"
    using equity_lines[where e = ?e0 and sub = sub and cur = cur and cs = comps and n = 1]
    unfolding a by simp_all
  show "totals_ok e" "ee_total_debit e = sum_list (map snd comps) + (case gw of None \<Rightarrow> 0 | Some g \<Rightarrow> g)"
    "ee_total_credit e = amount + (case mi of None \<Rightarrow> 0 | Some x \<Rightarrow> x)"
    unfolding e create_investment_equity_elimination_def Let_def a prod.case
    using t by (auto split: option.split)
qed

section \<open>Conversion\<close>

text \<open>The change an entry makes to an account.\<close>

definition elim_net :: "('date, 'ts, 'd::linordered_idom) EliminationEntry \<Rightarrow> string \<Rightarrow> 'd" where
  "elim_net e = key_sum eln_account elim_signed (ee_lines e)"

definition je_net :: "('date, 'ts, 'd::linordered_idom, 'wf) JournalEntry \<Rightarrow> string \<Rightarrow> 'd" where
  "je_net e = key_sum gl_account signed_amount (lines e)"

lemma je_line_of_simps [simp]:
  "gl_account (je_line_of i n l) = eln_account l"
  "signed_amount (je_line_of i n l) = elim_signed l"
  "debit_amount (je_line_of i n l) = (if eln_is_debit l then eln_amount l else 0)"
  "credit_amount (je_line_of i n l) = (if eln_is_debit l then 0 else eln_amount l)"
  by (simp_all add: je_line_of_def Let_def signed_amount_def elim_signed_def)

lemma add_lines_fold:
  fixes je :: "('date, 'ts, 'd::linordered_idom, 'wf) JournalEntry" and doc :: uuid
  defines "f \<equiv> \<lambda>je (idx, l). add_line je (je_line_of doc idx l)"
  shows "header (foldl f je (enumerate n ls)) = header je"
    and "map gl_account (lines (foldl f je (enumerate n ls)))
           = map gl_account (lines je) @ map eln_account ls"
    and "map signed_amount (lines (foldl f je (enumerate n ls)))
           = map signed_amount (lines je) @ map elim_signed ls"
    and "total_debit (foldl f je (enumerate n ls)) = total_debit je + debit_sum ls"
    and "total_credit (foldl f je (enumerate n ls)) = total_credit je + credit_sum ls"
    and "je_net (foldl f je (enumerate n ls)) a = je_net je a + key_sum eln_account elim_signed ls a"
proof -
  have "header (foldl f je (enumerate n ls)) = header je
    \<and> map gl_account (lines (foldl f je (enumerate n ls)))
           = map gl_account (lines je) @ map eln_account ls
    \<and> map signed_amount (lines (foldl f je (enumerate n ls)))
           = map signed_amount (lines je) @ map elim_signed ls
    \<and> total_debit (foldl f je (enumerate n ls)) = total_debit je + debit_sum ls
    \<and> total_credit (foldl f je (enumerate n ls)) = total_credit je + credit_sum ls
    \<and> je_net (foldl f je (enumerate n ls)) a = je_net je a + key_sum eln_account elim_signed ls a"
    by (induction ls arbitrary: n je)
       (simp_all add: f_def enumerate_simps debit_sum_def credit_sum_def je_net_def signed_amount_def
         elim_signed_def)
  then show "header (foldl f je (enumerate n ls)) = header je"
    "map gl_account (lines (foldl f je (enumerate n ls))) = map gl_account (lines je) @ map eln_account ls"
    "map signed_amount (lines (foldl f je (enumerate n ls)))
           = map signed_amount (lines je) @ map elim_signed ls"
    "total_debit (foldl f je (enumerate n ls)) = total_debit je + debit_sum ls"
    "total_credit (foldl f je (enumerate n ls)) = total_credit je + credit_sum ls"
    "je_net (foldl f je (enumerate n ls)) a = je_net je a + key_sum eln_account elim_signed ls a"
    by blast+
qed

lemma converted_header:
  fixes e :: "('date, 'ts, 'd::linordered_idom) EliminationEntry" and k :: nat
    and cv :: "('date, 'ts) conversion_env"
  defines "h \<equiv> elimination_header cv k e :: ('date, 'ts, 'd, 'wf) JournalEntryHeader"
  shows "is_elimination h" "document_type h = ''ELIMINATION''" "created_by h = ''CONSOLIDATION''"
    "reference h = Some (ee_entry_id e)" "company_code h = ee_consolidation_entity e"
    "posting_date h = ee_entry_date e" "currency h = ee_currency e"
    "(fiscal_year h, fiscal_period h) =
       (case parse_fiscal_period (ee_fiscal_period e) of
          Some yp \<Rightarrow> yp
        | None \<Rightarrow> (word_of_int (cv_year cv (ee_entry_date e)), word_of_nat (cv_month cv (ee_entry_date e))))"
  by (simp_all add: h_def elimination_header_def new_header_def Let_def split: option.split)

lemma new_entry_sums:
  "total_debit (new_entry h) = 0" "total_credit (new_entry h) = 0" "je_net (new_entry h) a = 0"
  by (simp_all add: total_debit_def total_credit_def je_net_def)

lemma converted_entry:
  fixes e :: "('date, 'ts, 'd::linordered_idom) EliminationEntry" and k :: nat
    and cv :: "('date, 'ts) conversion_env"
  defines "je \<equiv> elimination_to_journal_entry cv k e :: ('date, 'ts, 'd, 'wf) JournalEntry"
  shows "header je = elimination_header cv k e"
    and "map gl_account (lines je) = map eln_account (ee_lines e)"
    and "map signed_amount (lines je) = map elim_signed (ee_lines e)"
    and "total_debit je = debit_sum (ee_lines e)" and "total_credit je = credit_sum (ee_lines e)"
    and "je_net je a = elim_net e a"
  by (simp_all add: je_def elimination_to_journal_entry_def Let_def add_lines_fold elim_net_def
      new_entry_sums)

section \<open>The consolidation journal under its operations\<close>

datatype ('date, 'ts, 'd) journal_op =
    AddEntry 'date "('date, 'ts, 'd) EliminationEntry"
  | Submit
  | Approve 'date string
  | Post

fun journal_step ::
    "('date, 'ts, 'd::linordered_idom) ConsolidationJournal \<Rightarrow> ('date, 'ts, 'd) journal_op
     \<Rightarrow> ('date, 'ts, 'd) ConsolidationJournal" where
  "journal_step j (AddEntry today e) = add_entry today j e"
| "journal_step j Submit = submit_journal j"
| "journal_step j (Approve today who) = approve_journal today j who"
| "journal_step j Post = post_journal j"

fun added_entries :: "('date, 'ts, 'd) journal_op list \<Rightarrow> ('date, 'ts, 'd) EliminationEntry list" where
  "added_entries [] = []"
| "added_entries (AddEntry today e # ops) = e # added_entries ops"
| "added_entries (op # ops) = added_entries ops"

text \<open>The summary that a list of entries should have.\<close>

definition summary_of ::
    "('date, 'ts, 'd::linordered_idom) EliminationEntry list \<Rightarrow> EliminationType
     \<Rightarrow> 'd EliminationSummary option" where
  "summary_of es ty =
     (let of_ty = filter (\<lambda>e. ee_elimination_type e = ty) es in
      if of_ty = [] then None
      else Some \<lparr>es_elimination_type = ty, es_entry_count = length of_ty,
                 es_total_amount = sum_list (map ee_total_debit of_ty)\<rparr>)"

lemma summarize_summary_of:
  assumes "map_of m = summary_of es"
  shows "map_of (summarize e m) = summary_of (es @ [e])"
  using assms by (auto simp: summarize_def Let_def update_conv summary_of_def fun_eq_iff)

definition journal_ok :: "('date, 'ts, 'd::linordered_idom) ConsolidationJournal \<Rightarrow> bool" where
  "journal_ok j \<longleftrightarrow>
     cj_total_debits j = sum_list (map ee_total_debit (cj_entries j))
     \<and> cj_total_credits j = sum_list (map ee_total_credit (cj_entries j))
     \<and> (cj_is_balanced j \<longleftrightarrow> cj_total_debits j = cj_total_credits j)
     \<and> map_of (cj_summary j) = summary_of (cj_entries j)
     \<and> (cj_status j \<in> {Approved, Posted} \<longrightarrow> cj_approved_by j \<noteq> None \<and> cj_approved_date j \<noteq> None)
     \<and> cj_status j \<noteq> Reversed"

lemma journal_ok_new: "journal_ok (new_journal en p d)"
  by (simp add: journal_ok_def new_journal_def summary_of_def fun_eq_iff)

lemma journal_ok_step: "journal_ok j \<Longrightarrow> journal_ok (journal_step j op)"
  by (cases op) (auto simp: journal_ok_def add_entry_def submit_journal_def approve_journal_def
      post_journal_def Let_def summarize_summary_of)

lemma entries_step: "cj_entries (journal_step j op) = cj_entries j @ added_entries [op]"
  by (cases op) (simp_all add: add_entry_def submit_journal_def approve_journal_def
      post_journal_def Let_def)

lemma journal_run:
  "journal_ok j \<Longrightarrow> journal_ok (foldl journal_step j ops)
     \<and> cj_entries (foldl journal_step j ops) = cj_entries j @ added_entries ops"
proof (induction ops arbitrary: j)
  case (Cons op ops)
  from Cons.IH[OF journal_ok_step[OF Cons.prems, of op]] show ?case
    by (cases op) (simp_all add: entries_step del: journal_step.simps)
qed simp

definition journal_after ::
    "string \<Rightarrow> string \<Rightarrow> 'date \<Rightarrow> ('date, 'ts, 'd::linordered_idom) journal_op list
     \<Rightarrow> ('date, 'ts, 'd) ConsolidationJournal" where
  "journal_after en p d ops = foldl journal_step (new_journal en p d) ops"

text \<open>The approval is not tied to the balance: an unbalanced journal that was never submitted
  can be approved and posted.\<close>

lemma unbalanced_journal_posted:
  assumes "ee_total_debit e \<noteq> ee_total_credit e"
  shows "cj_status (journal_after en p d [AddEntry t e, Approve t who, Post]) = Posted"
    and "\<not> cj_is_balanced (journal_after en p d [AddEntry t e, Approve t who, Post])"
  using assms by (simp_all add: journal_after_def add_entry_def approve_journal_def post_journal_def new_journal_def)

lemma list_all2_enumerate:
  "(\<And>k x. x \<in> set xs \<Longrightarrow> P x (f k x)) \<Longrightarrow> list_all2 P xs (map (\<lambda>(k, x). f k x) (enumerate n xs))"
  by (induction xs arbitrary: n) (simp_all add: enumerate_simps)

section \<open>Properties\<close>

text \<open>The consolidation journal after any sequence of additions, submissions, approvals and
  postings: its entries are the added ones in order, its totals are their sums, it is marked
  balanced exactly if these agree, its summary has exactly one record for each type that
  occurs, with the number of its entries and the sum of their debits, and an approved or posted
  journal names who approved it and when.\<close>

theorem consolidation_journal_invariant:
  fixes ops :: "('date, 'ts, 'd::linordered_idom) journal_op list"
  shows "cj_entries (journal_after en p d ops) = added_entries ops
         \<and> cj_total_debits (journal_after en p d ops) = sum_list (map ee_total_debit (added_entries ops))
         \<and> cj_total_credits (journal_after en p d ops) = sum_list (map ee_total_credit (added_entries ops))
         \<and> cj_is_balanced (journal_after en p d ops)
             = (sum_list (map ee_total_debit (added_entries ops))
                = sum_list (map ee_total_credit (added_entries ops)))
         \<and> map_of (cj_summary (journal_after en p d ops)) = summary_of (added_entries ops)
         \<and> (cj_status (journal_after en p d ops) \<in> {Draft, PendingApproval}
            \<or> (\<exists>who on. cj_status (journal_after en p d ops) \<in> {Approved, Posted}
                 \<and> cj_approved_by (journal_after en p d ops) = Some who
                 \<and> cj_approved_date (journal_after en p d ops) = Some on))"
proof -
  have ok: "journal_ok (journal_after en p d ops)"
    and es: "cj_entries (journal_after en p d ops) = added_entries ops"
    using journal_run[OF journal_ok_new, of en p d ops]
    by (simp_all add: journal_after_def new_journal_def)
  then show ?thesis
    by (cases "cj_status (journal_after en p d ops)") (auto simp: journal_ok_def)
qed

text \<open>The investment elimination is balanced exactly if the eliminated equity and the goodwill
  make up the investment and the minority interest; its totals are those of its lines.\<close>

theorem investment_elimination_balance:
  shows "elim_is_balanced (create_investment_equity_elimination now i en p d parent sub amount
             comps gw mi cur)
           = (sum_list (map snd comps) + (case gw of None \<Rightarrow> 0 | Some g \<Rightarrow> g)
              = (amount :: 'd::linordered_idom) + (case mi of None \<Rightarrow> 0 | Some x \<Rightarrow> x))
         \<and> totals_ok (create_investment_equity_elimination now i en p d parent sub amount
             comps gw mi cur)"
  using investment_totals[OF refl, of now i en p d parent sub amount comps gw mi cur]
  unfolding elim_is_balanced_def by simp

text \<open>Conversion to the journal: the balanced elimination entries, in their order, become one
  journal entry each; it is marked as an elimination of the consolidation entity and names the
  entry it comes from, it is balanced in the sense of the journal, and it changes every account
  by what the lines of the elimination entry say.\<close>

theorem eliminations_posted:
  fixes es :: "('date, 'ts, 'd::linordered_idom) EliminationEntry list"
  assumes "\<forall>e \<in> set es. totals_ok e"
  shows "list_all2 (\<lambda>e je. is_balanced je \<and> is_elimination (header je)
             \<and> company_code (header je) = ee_consolidation_entity e
             \<and> reference (header je) = Some (ee_entry_id e)
             \<and> map gl_account (lines je) = map eln_account (ee_lines e)
             \<and> map signed_amount (lines je) = map elim_signed (ee_lines e)
             \<and> (\<forall>a. je_net je a = elim_net e a))
           (filter elim_is_balanced es)
           (elimination_to_journal_entries cv es
              :: ('date, 'ts, 'd, 'wf) JournalEntry list)"
  unfolding elimination_to_journal_entries_def
proof (rule list_all2_enumerate)
  fix k e assume "e \<in> set (filter elim_is_balanced es)"
  then have "debit_sum (ee_lines e) = credit_sum (ee_lines e)"
    using assms by (auto simp: totals_ok_def elim_is_balanced_def)
  then show "is_balanced (elimination_to_journal_entry cv k e :: ('date, 'ts, 'd, 'wf) JournalEntry)
      \<and> is_elimination (header (elimination_to_journal_entry cv k e :: ('date, 'ts, 'd, 'wf) JournalEntry))
      \<and> company_code (header (elimination_to_journal_entry cv k e :: ('date, 'ts, 'd, 'wf) JournalEntry))
          = ee_consolidation_entity e
      \<and> reference (header (elimination_to_journal_entry cv k e :: ('date, 'ts, 'd, 'wf) JournalEntry))
          = Some (ee_entry_id e)
      \<and> map gl_account (lines (elimination_to_journal_entry cv k e :: ('date, 'ts, 'd, 'wf) JournalEntry))
          = map eln_account (ee_lines e)
      \<and> map signed_amount (lines (elimination_to_journal_entry cv k e :: ('date, 'ts, 'd, 'wf) JournalEntry))
          = map elim_signed (ee_lines e)
      \<and> (\<forall>a. je_net (elimination_to_journal_entry cv k e :: ('date, 'ts, 'd, 'wf) JournalEntry) a
          = elim_net e a)"
    by (simp add: converted_entry converted_header is_balanced_def)
qed

section \<open>Concrete instances\<close>

definition sample_conversion_env :: "(int, nat) conversion_env" where
  "sample_conversion_env =
     \<lparr>cv_year = (\<lambda>d. 2024), cv_month = (\<lambda>d. 12), cv_now_at = (\<lambda>k. k),
      cv_uuid_at = (\<lambda>k. replicate 16 (word_of_nat k))\<rparr>"

definition sample_investment :: "(int, nat, rat) EliminationEntry" where
  "sample_investment =
     create_investment_equity_elimination 0 ''E1'' ''G'' ''202412'' 365 ''P'' ''S'' 90
       [(''3000'', 60), (''3300'', 40)] (Some 10) (Some 20) ''CHF''"

lemma eliminations_posted_witness:
  "list_all2 (\<lambda>e je. is_balanced je \<and> (\<forall>a. je_net je a = elim_net e a)) [sample_investment]
     (elimination_to_journal_entries sample_conversion_env [sample_investment]
        :: (int, nat, rat, unit) JournalEntry list)"
proof -
  have t: "totals_ok sample_investment"
    unfolding sample_investment_def by (rule investment_totals(1)[OF refl])
  have b: "filter elim_is_balanced [sample_investment] = [sample_investment]"
    using investment_totals(2,3)[OF sample_investment_def] by (simp add: elim_is_balanced_def)
  have "\<forall>e \<in> set [sample_investment]. totals_ok e" using t by simp
  from eliminations_posted[OF this, of sample_conversion_env] show ?thesis
    unfolding b by (rule list_all2_mono) simp
qed

end
