(* ===== verification/Merkle.thy ===== *)
theory Merkle
  imports Prelude
begin

unbundle bit_operations_syntax

text \<open>
  Model of \<^verbatim>\<open>crates/datasynth-audit-fsm/src/working_paper_merkle.rs\<close>: the SHA-256
  Merkle tree over the working papers of an audit engagement, the inclusion proofs, and the
  bundle root. SHA-256 itself is the crate \<^verbatim>\<open>sha2\<close>: every definition that hashes takes
  the digest function \<open>sha\<close> as its first argument. A Rust \<open>String\<close> is the list of its UTF-8
  bytes, so \<open>length\<close> is \<^verbatim>\<open>len()\<close>.
\<close>

section \<open>Errors and hexadecimal text\<close>

datatype MerkleError =
    EmptyLeaves
  | IndexOutOfRange nat nat
  | NotHexSha256 string

abbreviation (input) as_bytes :: "string \<Rightarrow> u8 list" where
  "as_bytes s \<equiv> map of_char s"

definition is_ascii_hexdigit :: "char \<Rightarrow> bool" where
  "is_ascii_hexdigit c =
     (let n = (of_char c :: nat) in
        48 \<le> n \<and> n \<le> 57 \<or> 97 \<le> n \<and> n \<le> 102 \<or> 65 \<le> n \<and> n \<le> 70)"

text \<open>The two lower-case digits that \<^verbatim>\<open>write!("{b:02x}")\<close> appends for a byte.\<close>

definition hex_digit :: "u8 \<Rightarrow> char" where
  "hex_digit n = (if n < 10 then char_of (48 + unat n) else char_of (87 + unat n))"

definition hex_encode :: "u8 list \<Rightarrow> string" where
  "hex_encode bytes = concat (map (\<lambda>b. [hex_digit (drop_bit 4 b), hex_digit (b AND 15)]) bytes)"

definition ascii_hex_to_nibble :: "u8 \<Rightarrow> (MerkleError, u8) result" where
  "ascii_hex_to_nibble c =
     (if 48 \<le> c \<and> c \<le> 57 then Inr (c - 48)
      else if 97 \<le> c \<and> c \<le> 102 then Inr (c - 97 + 10)
      else if 65 \<le> c \<and> c \<le> 70 then Inr (c - 65 + 10)
      else Inl (NotHexSha256 [char_of (unat c)]))"

text \<open>The loop of \<^verbatim>\<open>hex_decode\<close>: two digits a byte, high nibble first.\<close>

fun hex_decode_pairs :: "u8 list \<Rightarrow> (MerkleError, u8 list) result" where
  "hex_decode_pairs (h # l # rest) =
     try_bind (ascii_hex_to_nibble h) (\<lambda>high.
     try_bind (ascii_hex_to_nibble l) (\<lambda>low.
     try_bind (hex_decode_pairs rest) (\<lambda>out. Inr ((push_bit 4 high OR low) # out))))"
| "hex_decode_pairs _ = Inr []"

definition hex_decode :: "string \<Rightarrow> (MerkleError, u8 list) result" where
  "hex_decode s =
     (if length s \<noteq> 64 \<or> \<not> list_all is_ascii_hexdigit s then Inl (NotHexSha256 s)
      else hex_decode_pairs (as_bytes s))"

section \<open>The tree\<close>

definition leaf_hash :: "(u8 list \<Rightarrow> u8 list) \<Rightarrow> u8 list \<Rightarrow> string" where
  "leaf_hash sha data = hex_encode (sha data)"

definition pair_hash ::
    "(u8 list \<Rightarrow> u8 list) \<Rightarrow> string \<Rightarrow> string \<Rightarrow> (MerkleError, string) result" where
  "pair_hash sha left right =
     try_bind (hex_decode left) (\<lambda>l.
     try_bind (hex_decode right) (\<lambda>r. Inr (hex_encode (sha (l @ r)))))"

text \<open>One pass of the loop of \<^verbatim>\<open>merkle_root\<close>: duplicate the last node of an odd level,
  then hash the nodes two by two.\<close>

definition pad_level :: "string list \<Rightarrow> string list" where
  "pad_level level = (if \<not> even (length level) then level @ [last level] else level)"

fun hash_pairs ::
    "(u8 list \<Rightarrow> u8 list) \<Rightarrow> string list \<Rightarrow> (MerkleError, string list) result" where
  "hash_pairs sha (a # b # rest) =
     try_bind (pair_hash sha a b) (\<lambda>h.
     try_bind (hash_pairs sha rest) (\<lambda>hs. Inr (h # hs)))"
| "hash_pairs sha _ = Inr []"

definition next_level ::
    "(u8 list \<Rightarrow> u8 list) \<Rightarrow> string list \<Rightarrow> (MerkleError, string list) result" where
  "next_level sha level = hash_pairs sha (pad_level level)"

lemma length_hash_pairs: "hash_pairs sha xs = Inr ys \<Longrightarrow> length ys = length xs div 2"
  by (induction sha xs arbitrary: ys rule: hash_pairs.induct) (auto simp: result_simps)

lemma length_pad_level: "length (pad_level xs) = 2 * ((length xs + 1) div 2)"
  by (auto simp: pad_level_def elim!: oddE evenE)

lemma length_next_level:
  "next_level sha xs = Inr ys \<Longrightarrow> length ys = (length xs + 1) div 2"
  by (auto simp: next_level_def length_pad_level dest: length_hash_pairs)

function merkle_loop ::
    "(u8 list \<Rightarrow> u8 list) \<Rightarrow> string list \<Rightarrow> (MerkleError, string) result" where
  "merkle_loop sha level =
     (if length level > 1
      then (case next_level sha level of
              Inl e \<Rightarrow> Inl e
            | Inr nxt \<Rightarrow> merkle_loop sha nxt)
      else Inr (hd level))"
  by pat_completeness auto
termination
  by (relation "measure (\<lambda>(sha, level). length level)") (auto dest: length_next_level)

declare merkle_loop.simps [simp del]

definition merkle_root ::
    "(u8 list \<Rightarrow> u8 list) \<Rightarrow> string list \<Rightarrow> (MerkleError, string) result" where
  "merkle_root sha leaves = (if leaves = [] then Inl EmptyLeaves else merkle_loop sha leaves)"

section \<open>Inclusion proofs\<close>

datatype ProofDirection = Left | Right

record ProofStep =
  sibling :: string
  direction :: ProofDirection

text \<open>The step recorded for position \<open>idx\<close> of a padded level.\<close>

definition proof_step :: "string list \<Rightarrow> nat \<Rightarrow> ProofStep" where
  "proof_step level idx =
     (if even idx then \<lparr>sibling = level ! (idx + 1), direction = Right\<rparr>
      else \<lparr>sibling = level ! (idx - 1), direction = Left\<rparr>)"

function merkle_proof_loop ::
    "(u8 list \<Rightarrow> u8 list) \<Rightarrow> string list \<Rightarrow> nat \<Rightarrow> (MerkleError, ProofStep list) result" where
  "merkle_proof_loop sha level idx =
     (if length level > 1
      then (case next_level sha level of
              Inl e \<Rightarrow> Inl e
            | Inr nxt \<Rightarrow>
                try_bind (merkle_proof_loop sha nxt (idx div 2))
                  (\<lambda>steps. Inr (proof_step (pad_level level) idx # steps)))
      else Inr [])"
  by pat_completeness auto
termination
  by (relation "measure (\<lambda>(sha, level, idx). length level)") (auto dest: length_next_level)

declare merkle_proof_loop.simps [simp del]

definition merkle_proof ::
    "(u8 list \<Rightarrow> u8 list) \<Rightarrow> string list \<Rightarrow> nat \<Rightarrow> (MerkleError, ProofStep list) result" where
  "merkle_proof sha leaves index =
     (if index \<ge> length leaves then Inl (IndexOutOfRange index (length leaves))
      else merkle_proof_loop sha leaves index)"

text \<open>The loop of \<^verbatim>\<open>verify_merkle_proof\<close>: hash upward, the side taken from the index.\<close>

fun climb ::
    "(u8 list \<Rightarrow> u8 list) \<Rightarrow> string \<Rightarrow> ProofStep list \<Rightarrow> nat \<Rightarrow> (MerkleError, string) result" where
  "climb sha current [] idx = Inr current"
| "climb sha current (step # steps) idx =
     try_bind (if even idx then pair_hash sha current (sibling step)
               else pair_hash sha (sibling step) current)
       (\<lambda>nxt. climb sha nxt steps (idx div 2))"

definition verify_merkle_proof ::
    "(u8 list \<Rightarrow> u8 list) \<Rightarrow> string \<Rightarrow> ProofStep list \<Rightarrow> nat \<Rightarrow> string
       \<Rightarrow> (MerkleError, bool) result" where
  "verify_merkle_proof sha leaf proof index root =
     try_bind (climb sha leaf proof index) (\<lambda>current. Inr (current = root))"

section \<open>Hexadecimal round trip\<close>

lemma of_char_word: "(of_char c :: u8) = word_of_nat (of_char c)"
  by (simp add: of_nat_of_char)

lemma unat_of_char: "unat (of_char c :: u8) = (of_char c :: nat)"
proof -
  have "(of_char c :: nat) < 256" by (metis mod_less_divisor of_char_mod_256 zero_less_numeral)
  then show ?thesis by (simp add: of_char_word unat_of_nat take_bit_eq_mod)
qed

lemma hex_digit_ok:
  assumes "n < 16"
  shows "ascii_hex_to_nibble (of_char (hex_digit n)) = Inr n"
    and "is_ascii_hexdigit (hex_digit n)"
proof -
  have n: "unat n < 16" using assms by (simp add: word_less_nat_alt)
  have c: "(of_char (hex_digit n) :: nat) = (if n < 10 then 48 + unat n else 87 + unat n)"
    using n by (auto simp: hex_digit_def)
  then show "is_ascii_hexdigit (hex_digit n)"
    using n by (auto simp: is_ascii_hexdigit_def word_less_nat_alt)
  have w: "(of_char (hex_digit n) :: u8) = (if n < 10 then 48 + n else 87 + n)"
    using c by (simp add: of_char_word)
  have u: "unat (of_char (hex_digit n) :: u8) = (if n < 10 then 48 + unat n else 87 + unat n)"
    using c by (simp add: unat_of_char)
  show "ascii_hex_to_nibble (of_char (hex_digit n)) = Inr n"
    unfolding ascii_hex_to_nibble_def word_le_nat_alt u using n w
    by (auto simp: word_less_nat_alt)
qed

lemma ascii_hex_to_nibble_ok:
  "is_ascii_hexdigit c \<Longrightarrow> is_ok (ascii_hex_to_nibble (of_char c))"
    by (auto simp: is_ascii_hexdigit_def ascii_hex_to_nibble_def word_le_nat_alt unat_of_char Let_def)
lemma join_nibbles: "push_bit 4 (drop_bit 4 b) OR (b AND 15) = (b :: u8)"
proof -
  have "b AND 15 = take_bit 4 b" by (simp add: take_bit_eq_mask mask_eq_exp_minus_1)
  moreover have "push_bit 4 (drop_bit 4 b) OR take_bit 4 b = b"
    by (rule bit_eqI) (auto simp add: bit_simps)
  ultimately show ?thesis by simp
qed

lemma nibble_less: "drop_bit 4 b < (16 :: u8)" "b AND 15 < (16 :: u8)"
proof -
  have "unat b < 256" using unsigned_less [of b, where 'a = nat] by simp
  moreover have "unat (drop_bit 4 b) = unat b div 16"
    by (simp only: unat_drop_bit_eq) (simp add: drop_bit_eq_div)
  ultimately show "drop_bit 4 b < (16 :: u8)"
    by (simp add: word_less_nat_alt)
  have "b AND 15 \<le> (15 :: u8)" by (rule word_and_le1)
  then show "b AND 15 < (16 :: u8)" by (rule order_le_less_trans) simp
qed

lemma hex_encode_simps [simp]:
  "hex_encode [] = []"
  "hex_encode (b # bs) = hex_digit (drop_bit 4 b) # hex_digit (b AND 15) # hex_encode bs"
  by (simp_all add: hex_encode_def)

lemma length_hex_encode [simp]: "length (hex_encode bs) = 2 * length bs"
  by (induction bs) auto

lemma hexdigits_hex_encode: "list_all is_ascii_hexdigit (hex_encode bs)"
  by (induction bs) (auto simp: hex_digit_ok nibble_less)

lemma hex_decode_pairs_encode: "hex_decode_pairs (as_bytes (hex_encode bs)) = Inr bs"
  by (induction bs) (auto simp: hex_digit_ok nibble_less join_nibbles)

lemma hex_decode_hex_encode: "length bs = 32 \<Longrightarrow> hex_decode (hex_encode bs) = Inr bs"
  by (simp add: hex_decode_def hexdigits_hex_encode hex_decode_pairs_encode)

lemma hex_encode_inject [simp]: "hex_encode xs = hex_encode ys \<longleftrightarrow> xs = ys"
proof
  assume "hex_encode xs = hex_encode ys"
  then have "(Inr xs :: (MerkleError, u8 list) result) = Inr ys"
    by (simp only: hex_decode_pairs_encode [symmetric])
  then show "xs = ys" by simp
qed simp

lemma hex_decode_encode_eqD: "hex_decode (hex_encode xs) = hex_decode (hex_encode ys) \<Longrightarrow> xs = ys"
  by (auto simp: hex_decode_def hexdigits_hex_encode hex_decode_pairs_encode split: if_splits)

lemma length_hex_decode_pairs:
  "hex_decode_pairs bs = Inr out \<Longrightarrow> length out = length bs div 2"
  by (induction bs arbitrary: out rule: hex_decode_pairs.induct) (auto simp: result_simps)

lemma length_hex_decode: "hex_decode s = Inr out \<Longrightarrow> length out = 32"
  by (auto simp: hex_decode_def split: if_splits dest!: length_hex_decode_pairs)

lemma hex_decode_pairs_ok:
  "list_all is_ascii_hexdigit cs \<Longrightarrow> is_ok (hex_decode_pairs (as_bytes cs))"
  by (induction cs rule: induct_list012)
     (auto simp: result_simps dest!: ascii_hex_to_nibble_ok)

lemma hex_decode_ok_iff:
  "is_ok (hex_decode s) \<longleftrightarrow> length s = 64 \<and> list_all is_ascii_hexdigit s"
  by (auto simp: hex_decode_def hex_decode_pairs_ok)

lemma hex_decode_err: "hex_decode s = Inl e \<Longrightarrow> e = NotHexSha256 s"
  using hex_decode_ok_iff [of s]
  by (auto simp: hex_decode_def is_ok_def split: if_splits sum.splits)

section \<open>Levels of the tree\<close>

lemma pair_hash_Inr_iff [result_simps]:
  "pair_hash sha l r = Inr h \<longleftrightarrow>
     (\<exists>a b. hex_decode l = Inr a \<and> hex_decode r = Inr b \<and> h = hex_encode (sha (a @ b)))"
  by (auto simp: pair_hash_def result_simps)

lemma hash_pairs_nth:
  "hash_pairs sha xs = Inr ys \<Longrightarrow> k < length ys \<Longrightarrow>
     pair_hash sha (xs ! (2 * k)) (xs ! (2 * k + 1)) = Inr (ys ! k)"
proof (induction sha xs arbitrary: ys k rule: hash_pairs.induct)
  case (1 sha a b rest)
  then show ?case by (cases k) (auto simp: result_simps)
qed auto

lemma pad_level_nth [simp]: "idx < length xs \<Longrightarrow> pad_level xs ! idx = xs ! idx"
  by (simp add: pad_level_def nth_append)

lemma next_level_nth:
  assumes "next_level sha xs = Inr ys" and "i < length xs"
  shows "pair_hash sha (pad_level xs ! (2 * (i div 2))) (pad_level xs ! (2 * (i div 2) + 1))
           = Inr (ys ! (i div 2))"
    and "i div 2 < length ys"
proof -
  show "i div 2 < length ys" using assms by (simp add: length_next_level)
  with assms(1) show "pair_hash sha (pad_level xs ! (2 * (i div 2)))
      (pad_level xs ! (2 * (i div 2) + 1)) = Inr (ys ! (i div 2))"
    unfolding next_level_def by (rule hash_pairs_nth)
qed

text \<open>Hashing the recorded sibling with the node at \<open>i\<close> gives the parent of \<open>i\<close>.\<close>

lemma proof_step_hash:
  assumes "next_level sha xs = Inr ys" and "i < length xs"
  defines "st \<equiv> sibling (proof_step (pad_level xs) i)"
  shows "(if even i then pair_hash sha (xs ! i) st else pair_hash sha st (xs ! i))
           = Inr (ys ! (i div 2))"
  using next_level_nth [OF assms(1,2)] assms(2)
  by (auto simp: st_def proof_step_def elim!: evenE oddE)

text \<open>The number of levels above the leaves.\<close>

fun merkle_depth :: "nat \<Rightarrow> nat" where
  "merkle_depth n = (if n \<le> 1 then 0 else Suc (merkle_depth ((n + 1) div 2)))"

declare merkle_depth.simps [simp del]

lemma merkle_depth_small [simp]: "n \<le> 1 \<Longrightarrow> merkle_depth n = 0"
  by (simp add: merkle_depth.simps)

lemma merkle_depth_step: "1 < n \<Longrightarrow> merkle_depth n = Suc (merkle_depth ((n + 1) div 2))"
  by (simp add: merkle_depth.simps [of n])

lemma merkle_proof_loop_climb:
  "merkle_loop sha level = Inr r \<Longrightarrow> i < length level \<Longrightarrow>
     \<exists>p. merkle_proof_loop sha level i = Inr p \<and> climb sha (level ! i) p i = Inr r
       \<and> length p = merkle_depth (length level)"
proof (induction sha level arbitrary: i rule: merkle_loop.induct)
  case (1 sha level)
  show ?case
  proof (cases "length level > 1")
    case False
    with "1.prems" have "level = [r]" "i = 0"
      by (cases level; simp add: merkle_loop.simps)+
    then show ?thesis by (simp add: merkle_proof_loop.simps)
  next
    case True
    with "1.prems"(1) obtain nxt where nxt: "next_level sha level = Inr nxt"
      and loop: "merkle_loop sha nxt = Inr r"
      by (auto simp: merkle_loop.simps [of sha level] split: sum.splits)
    have "i div 2 < length nxt" using next_level_nth(2) [OF nxt "1.prems"(2)] .
    from "1.IH" [OF True nxt loop this] obtain p
      where p: "merkle_proof_loop sha nxt (i div 2) = Inr p"
        "climb sha (nxt ! (i div 2)) p (i div 2) = Inr r"
        "length p = merkle_depth (length nxt)" by blast
    with True nxt show ?thesis
      using proof_step_hash [OF nxt "1.prems"(2)]
      by (simp add: merkle_proof_loop.simps [of sha level] merkle_depth_step length_next_level)
  qed
qed

section \<open>Totality\<close>

lemma hash_pairs_ok:
  assumes "\<forall>x. length (sha x) = 32"
  shows "list_all (\<lambda>s. is_ok (hex_decode s)) xs \<Longrightarrow>
    \<exists>ys. hash_pairs sha xs = Inr ys \<and> list_all (\<lambda>s. is_ok (hex_decode s)) ys"
  using assms
proof (induction sha xs rule: hash_pairs.induct)
  case (1 sha a b rest)
  then obtain x y ys where "hex_decode a = Inr x" "hex_decode b = Inr y"
    "hash_pairs sha rest = Inr ys" "list_all (\<lambda>s. is_ok (hex_decode s)) ys"
    by (auto simp: is_ok_iff)
  with "1.prems"(2) show ?case
    by (auto simp: pair_hash_def hex_decode_hex_encode)
qed auto

lemma merkle_loop_ok:
  assumes "\<forall>x. length (sha x) = 32"
  shows "level \<noteq> [] \<Longrightarrow> list_all (\<lambda>s. is_ok (hex_decode s)) level \<Longrightarrow>
    \<exists>r. merkle_loop sha level = Inr r \<and> is_ok (hex_decode r)"
  using assms
proof (induction sha level rule: merkle_loop.induct)
  case (1 sha level)
  show ?case
  proof (cases "length level > 1")
    case False
    with "1.prems" show ?thesis by (cases level) (auto simp: merkle_loop.simps)
  next
    case True
    have "list_all (\<lambda>s. is_ok (hex_decode s)) (pad_level level)"
      using "1.prems" by (auto simp: pad_level_def list_all_iff)
    with "1.prems"(3) obtain nxt where nxt: "next_level sha level = Inr nxt"
      and "list_all (\<lambda>s. is_ok (hex_decode s)) nxt"
      using hash_pairs_ok [OF "1.prems"(3)] unfolding next_level_def by blast
    moreover have "nxt \<noteq> []" using length_next_level [OF nxt] True by auto
    ultimately show ?thesis using "1.IH" [OF True nxt] "1.prems"(3) True
      by (auto simp: merkle_loop.simps [of sha level])
  qed
qed

section \<open>Collision freedom on the messages of a tree\<close>

text \<open>
  The messages that a computation gives to the digest function. Injectivity of \<open>sha\<close> on these
  finitely many messages is what the properties below assume of SHA-256.
\<close>

definition pair_message :: "string \<Rightarrow> string \<Rightarrow> u8 list list" where
  "pair_message l r =
     (case (hex_decode l, hex_decode r) of (Inr a, Inr b) \<Rightarrow> [a @ b] | _ \<Rightarrow> [])"

fun pair_messages :: "string list \<Rightarrow> u8 list list" where
  "pair_messages (a # b # rest) = pair_message a b @ pair_messages rest"
| "pair_messages _ = []"

function tree_messages :: "(u8 list \<Rightarrow> u8 list) \<Rightarrow> string list \<Rightarrow> u8 list list" where
  "tree_messages sha level =
     (if length level > 1
      then pair_messages (pad_level level) @
             (case next_level sha level of Inl e \<Rightarrow> [] | Inr nxt \<Rightarrow> tree_messages sha nxt)
      else [])"
  by pat_completeness auto
termination
  by (relation "measure (\<lambda>(sha, level). length level)") (auto dest: length_next_level)

declare tree_messages.simps [simp del]

fun climb_messages ::
    "(u8 list \<Rightarrow> u8 list) \<Rightarrow> string \<Rightarrow> ProofStep list \<Rightarrow> nat \<Rightarrow> u8 list list" where
  "climb_messages sha current [] idx = []"
| "climb_messages sha current (step # steps) idx =
     (let l = (if even idx then current else sibling step);
          r = (if even idx then sibling step else current)
      in pair_message l r @
           (case pair_hash sha l r of Inl e \<Rightarrow> [] | Inr nxt \<Rightarrow> climb_messages sha nxt steps (idx div 2)))"

lemma pair_message_Inr:
  "pair_hash sha l r = Inr h \<Longrightarrow>
     \<exists>a b. pair_message l r = [a @ b] \<and> hex_decode l = Inr a \<and> hex_decode r = Inr b
       \<and> h = hex_encode (sha (a @ b))"
  by (auto simp: result_simps pair_message_def)

lemma pair_hash_inj:
  assumes "pair_hash sha l r = Inr h" and "pair_hash sha l' r' = Inr h"
    and "inj_on sha M" and "set (pair_message l r) \<subseteq> M" and "set (pair_message l' r') \<subseteq> M"
  shows "hex_decode l = hex_decode l' \<and> hex_decode r = hex_decode r'"
proof -
  obtain a b a' b' where m: "pair_message l r = [a @ b]" "pair_message l' r' = [a' @ b']"
    and d: "hex_decode l = Inr a" "hex_decode r = Inr b" "hex_decode l' = Inr a'" "hex_decode r' = Inr b'"
    and "hex_encode (sha (a @ b)) = hex_encode (sha (a' @ b'))"
    using pair_message_Inr [OF assms(1)] pair_message_Inr [OF assms(2)] by metis
  then have "a @ b = a' @ b'" using assms(3-5) by (auto dest: inj_onD)
  moreover have "length a = length a'" using d by (simp add: length_hex_decode)
  ultimately show ?thesis using d by simp
qed

lemma pair_message_subset:
  "2 * k + 1 < length xs \<Longrightarrow>
     set (pair_message (xs ! (2 * k)) (xs ! (2 * k + 1))) \<subseteq> set (pair_messages xs)"
proof (induction xs arbitrary: k rule: pair_messages.induct)
  case (1 a b rest)
  then show ?case by (cases k) auto
qed auto

lemma hash_pairs_inj:
  "hash_pairs sha xs = Inr ys \<Longrightarrow> hash_pairs sha xs' = Inr ys \<Longrightarrow> length xs' = length xs \<Longrightarrow>
   even (length xs) \<Longrightarrow> inj_on sha M \<Longrightarrow>
   set (pair_messages xs) \<subseteq> M \<Longrightarrow> set (pair_messages xs') \<subseteq> M \<Longrightarrow>
   map hex_decode xs = map hex_decode xs'"
proof (induction sha xs arbitrary: ys xs' rule: hash_pairs.induct)
  case (1 sha a b rest)
  then obtain a' b' rest' where xs': "xs' = a' # b' # rest'"
    by (auto simp: length_Suc_conv)
  from "1.prems"(1,2) xs' obtain h hs where
    h: "pair_hash sha a b = Inr h" "pair_hash sha a' b' = Inr h"
    and hs: "hash_pairs sha rest = Inr hs" "hash_pairs sha rest' = Inr hs"
    by (auto simp: result_simps simp del: pair_hash_Inr_iff)
  have "map hex_decode rest = map hex_decode rest'"
    by (rule "1.IH" [OF hs]) (use "1.prems" xs' in auto)
  then show ?case using pair_hash_inj [OF h "1.prems"(5)] "1.prems"(6,7) xs' by auto
qed auto

text \<open>Every node above the leaves is a hex-encoded digest.\<close>

lemma hash_pairs_encoded: "hash_pairs sha xs = Inr ys \<Longrightarrow> set ys \<subseteq> range hex_encode"
  by (induction sha xs arbitrary: ys rule: hash_pairs.induct) (auto simp: result_simps)

lemma inj_on_decode_encoded: "inj_on hex_decode (range hex_encode)"
  by (auto intro!: inj_onI dest: hex_decode_encode_eqD)

lemma encoded_list_eqI:
  "set xs \<subseteq> range hex_encode \<Longrightarrow> set ys \<subseteq> range hex_encode \<Longrightarrow>
   map hex_decode xs = map hex_decode ys \<Longrightarrow> xs = ys"
  by (rule map_inj_on [where f = hex_decode]) (auto intro: inj_on_subset [OF inj_on_decode_encoded])

lemma merkle_loop_inj:
  "merkle_loop sha xs = Inr r \<Longrightarrow> merkle_loop sha xs' = Inr r \<Longrightarrow> length xs' = length xs \<Longrightarrow>
   xs \<noteq> [] \<Longrightarrow> inj_on sha M \<Longrightarrow> set (tree_messages sha xs) \<subseteq> M \<Longrightarrow>
   set (tree_messages sha xs') \<subseteq> M \<Longrightarrow> map hex_decode xs = map hex_decode xs'"
proof (induction sha xs arbitrary: xs' rule: merkle_loop.induct)
  case (1 sha xs)
  show ?case
  proof (cases "length xs > 1")
    case False
    with "1.prems" show ?thesis
      by (cases xs; cases xs') (auto simp: merkle_loop.simps)
  next
    case True
    with "1.prems" obtain nxt nxt' where
      nxt: "next_level sha xs = Inr nxt" "next_level sha xs' = Inr nxt'"
      and loop: "merkle_loop sha nxt = Inr r" "merkle_loop sha nxt' = Inr r"
      by (auto simp: merkle_loop.simps [of sha xs] merkle_loop.simps [of sha xs'] split: sum.splits)
    have len: "length nxt' = length nxt" "nxt \<noteq> []"
      using nxt "1.prems"(3) True by (auto dest!: length_next_level)
    have M: "set (pair_messages (pad_level xs)) \<subseteq> M" "set (pair_messages (pad_level xs')) \<subseteq> M"
      "set (tree_messages sha nxt) \<subseteq> M" "set (tree_messages sha nxt') \<subseteq> M"
      using "1.prems"(3,6,7) True nxt
      by (auto simp: tree_messages.simps [of sha xs] tree_messages.simps [of sha xs'])
    have "map hex_decode nxt = map hex_decode nxt'"
      by (rule "1.IH" [OF True nxt(1) loop len "1.prems"(5) M(3,4)])
    then have "nxt = nxt'"
      using nxt by (intro encoded_list_eqI) (auto simp: next_level_def dest!: hash_pairs_encoded)
    then have "map hex_decode (pad_level xs) = map hex_decode (pad_level xs')"
      using nxt "1.prems"(3,5) M(1,2) unfolding next_level_def
      by (intro hash_pairs_inj [of sha _ nxt]) (auto simp: length_pad_level)
    then show ?thesis using "1.prems"(3) by (auto simp: pad_level_def split: if_splits)
  qed
qed

text \<open>A path of full length that reaches the root starts at the leaf of its index.\<close>

lemma climb_sound:
  "merkle_loop sha level = Inr r \<Longrightarrow> climb sha leaf p i = Inr r \<Longrightarrow> i < length level \<Longrightarrow>
   length p = merkle_depth (length level) \<Longrightarrow> inj_on sha M \<Longrightarrow>
   set (tree_messages sha level) \<subseteq> M \<Longrightarrow> set (climb_messages sha leaf p i) \<subseteq> M \<Longrightarrow>
   hex_decode leaf = hex_decode (level ! i)"
proof (induction sha level arbitrary: leaf p i rule: merkle_loop.induct)
  case (1 sha level)
  show ?case
  proof (cases "length level > 1")
    case False
    with "1.prems"(1-4) show ?thesis by (cases level) (auto simp: merkle_loop.simps)
  next
    case True
    with "1.prems"(1) obtain nxt where nxt: "next_level sha level = Inr nxt"
      and loop: "merkle_loop sha nxt = Inr r"
      by (auto simp: merkle_loop.simps [of sha level] split: sum.splits)
    from True "1.prems"(4) obtain st steps where p: "p = st # steps"
      "length steps = merkle_depth (length nxt)"
      by (cases p) (auto simp: merkle_depth_step length_next_level [OF nxt])
    define l where "l = (if even i then leaf else sibling st)"
    define r' where "r' = (if even i then sibling st else leaf)"
    from "1.prems"(2) p obtain h where h: "pair_hash sha l r' = Inr h"
      and climb: "climb sha h steps (i div 2) = Inr r"
      by (auto simp: l_def r'_def result_simps simp del: pair_hash_Inr_iff split: if_splits)
    have M: "set (tree_messages sha nxt) \<subseteq> M" "set (climb_messages sha h steps (i div 2)) \<subseteq> M"
      "set (pair_message l r') \<subseteq> M" "set (pair_messages (pad_level level)) \<subseteq> M"
      using "1.prems"(6,7) True nxt p h
      by (auto simp: tree_messages.simps [of sha level] l_def r'_def Let_def split: if_splits)
    note node = next_level_nth [OF nxt "1.prems"(3)]
    have "hex_decode h = hex_decode (nxt ! (i div 2))"
      by (rule "1.IH" [OF True nxt loop climb node(2) p(2) "1.prems"(5) M(1,2)])
    moreover obtain bs where "h = hex_encode bs" using h by (auto simp: result_simps)
    moreover obtain bs' where "nxt ! (i div 2) = hex_encode bs'"
      using node(1) by (auto simp: result_simps)
    ultimately have eq: "nxt ! (i div 2) = h" by (auto dest!: hex_decode_encode_eqD)
    let ?a = "pad_level level ! (2 * (i div 2))" and ?b = "pad_level level ! (2 * (i div 2) + 1)"
    have "set (pair_message ?a ?b) \<subseteq> M"
      using M(4) node(2) length_next_level [OF nxt]
      by (intro order_trans [OF pair_message_subset]) (auto simp: length_pad_level)
    then have "hex_decode l = hex_decode ?a \<and> hex_decode r' = hex_decode ?b"
      using node(1) h "1.prems"(5) M(3) by (intro pair_hash_inj [of sha _ _ h]) (simp_all add: eq)
    then show ?thesis using "1.prems"(3)
      by (auto simp: l_def r'_def split: if_splits elim!: evenE oddE)
  qed
qed

section \<open>Working papers and bundles\<close>

text \<open>
  The ISA 230 models. A timestamp (\<^verbatim>\<open>chrono::DateTime\<close>) is only carried, so its type is the
  parameter \<open>'ts\<close>. Field names that recur in several structs carry the struct as a prefix.
\<close>

datatype Jurisdiction = Iaasb | UsPcaob | UkFrc | EuCsrd | SwissFer

record Preparer =
  preparer_verifier_id :: int
  preparer_name :: string
  preparer_role :: string

record Reviewer =
  reviewer_verifier_id :: int
  reviewer_name :: string
  reviewer_role :: string

record 'ts Signoff =
  signoff_verifier_id :: int
  signoff_name :: string
  signoff_role :: string
  signed_at :: 'ts
  attestation :: string

record 'ts WorkingPaper =
  wp_id :: string
  title :: string
  payload_hash :: string
  preparer :: Preparer
  prepared_at :: 'ts
  reviewer :: "Reviewer option"
  signoff :: "'ts Signoff option"
  retention_years :: u8
  wp_description :: string

record 'ts EngagementBundle =
  engagement_id :: string
  jurisdiction :: Jurisdiction
  period_end :: 'ts
  report_date :: 'ts
  working_papers :: "'ts WorkingPaper list"
  bundle_description :: string

datatype BundleError =
    BadPayloadHash string string
  | RetentionOutOfRange string u8
  | MerkleErr MerkleError

definition EMPTY_BUNDLE_ROOT :: string where
  "EMPTY_BUNDLE_ROOT = replicate 64 CHR ''0''"

fun validate_papers :: "'ts WorkingPaper list \<Rightarrow> (BundleError, unit) result" where
  "validate_papers [] = Inr ()"
| "validate_papers (wp # wps) =
     (if length (payload_hash wp) \<noteq> 64 \<or> \<not> list_all is_ascii_hexdigit (payload_hash wp)
      then Inl (BadPayloadHash (wp_id wp) (payload_hash wp))
      else if \<not> (5 \<le> retention_years wp \<and> retention_years wp \<le> 10)
      then Inl (RetentionOutOfRange (wp_id wp) (retention_years wp))
      else validate_papers wps)"

definition validate :: "'ts EngagementBundle \<Rightarrow> (BundleError, unit) result" where
  "validate bundle = validate_papers (working_papers bundle)"

text \<open>The leaves of a bundle: the papers in the order of their ids, hashes in lower case.\<close>

definition bundle_leaves :: "'ts EngagementBundle \<Rightarrow> string list" where
  "bundle_leaves bundle =
     map (\<lambda>w. map ascii_lower (payload_hash w)) (sort_key wp_id (working_papers bundle))"

definition bundle_root ::
    "(u8 list \<Rightarrow> u8 list) \<Rightarrow> 'ts EngagementBundle \<Rightarrow> (BundleError, string) result" where
  "bundle_root sha bundle =
     try_bind (validate bundle) (\<lambda>_.
       if working_papers bundle = [] then Inr EMPTY_BUNDLE_ROOT
       else (case merkle_root sha (bundle_leaves bundle) of
               Inl e \<Rightarrow> Inl (MerkleErr e)
             | Inr root \<Rightarrow> Inr root))"

definition verify_bundle_integrity ::
    "(u8 list \<Rightarrow> u8 list) \<Rightarrow> 'ts EngagementBundle \<Rightarrow> string \<Rightarrow> (BundleError, bool) result" where
  "verify_bundle_integrity sha bundle claimed_root =
     try_bind (bundle_root sha bundle) (\<lambda>r. Inr (r = claimed_root))"

lemma of_char_ascii_lower:
  "(of_char (ascii_lower c) :: nat) =
     (let n = of_char c in if 65 \<le> n \<and> n \<le> 90 then n + 32 else n)"
  by (auto simp: ascii_lower_def Let_def)

lemma hex_digit_nibble:
  assumes "is_ascii_hexdigit c" and "ascii_hex_to_nibble (of_char c) = Inr n"
  shows "hex_digit n = ascii_lower c" and "n < 16"
proof -
  have u: "unat n = (let k = (of_char c :: nat) in
      if k \<le> 57 then k - 48 else if 97 \<le> k then k - 87 else k - 55)"
  proof -
    have "unat ((of_char c :: u8) - 48) = of_char c - 48" if "48 \<le> (of_char c :: nat)"
      using that by (simp add: unat_sub_if' unat_of_char)
    moreover have "unat ((of_char c :: u8) - 97 + 10) = of_char c - 87"
      if "97 \<le> (of_char c :: nat)" "(of_char c :: nat) \<le> 102"
      using that by (simp add: unat_sub_if' unat_of_char unat_plus_if' )
    moreover have "unat ((of_char c :: u8) - 65 + 10) = of_char c - 55"
      if "65 \<le> (of_char c :: nat)" "(of_char c :: nat) \<le> 70"
      using that by (simp add: unat_sub_if' unat_of_char unat_plus_if' )
    ultimately show ?thesis using assms
      by (auto simp: ascii_hex_to_nibble_def is_ascii_hexdigit_def word_le_nat_alt unat_of_char Let_def split: if_splits)
  qed
  show "n < 16" using u assms(1)
    by (auto simp: word_less_nat_alt is_ascii_hexdigit_def Let_def split: if_splits)
  have "(of_char (hex_digit n) :: nat) = of_char (ascii_lower c)"
    using u assms(1)
    by (auto simp: hex_digit_def of_char_ascii_lower word_less_nat_alt is_ascii_hexdigit_def Let_def split: if_splits)
  then show "hex_digit n = ascii_lower c" by simp
qed

lemma byte_of_nibbles:
  assumes "h < (16 :: u8)" and "l < 16"
  shows "drop_bit 4 (push_bit 4 h OR l) = h" and "(push_bit 4 h OR l) AND 15 = l"
proof -
  have *: "take_bit 4 n = n" if "n < 16" for n :: u8
  proof -
    have "unat (take_bit 4 n) = unat n"
      using that by (simp add: take_bit_eq_mod word_less_nat_alt unat_mod)
    then show ?thesis by (simp only: word_unat_eq_iff)
  qed
  have "drop_bit 4 (push_bit 4 (take_bit 4 h) OR take_bit 4 l) = take_bit 4 h"
    by (rule bit_eqI) (auto simp: bit_simps)
  then show "drop_bit 4 (push_bit 4 h OR l) = h" using assms by (simp add: *)
  have m: "(15 :: u8) = mask 4" by (simp add: mask_eq_exp_minus_1)
  have "(push_bit 4 h OR take_bit 4 l) AND mask 4 = take_bit 4 l"
    by (rule bit_eqI) (auto simp: bit_simps)
  then show "(push_bit 4 h OR l) AND 15 = l" using assms by (simp add: * m)
qed

lemma hex_encode_decode_pairs:
  "list_all is_ascii_hexdigit cs \<Longrightarrow> even (length cs) \<Longrightarrow> hex_decode_pairs (map of_char cs) = Inr bs \<Longrightarrow>
   hex_encode bs = map ascii_lower cs"
  by (induction cs arbitrary: bs rule: induct_list012)
     (auto simp: result_simps byte_of_nibbles hex_digit_nibble simp del: drop_bit_or)

lemma hex_encode_hex_decode: "hex_decode s = Inr bs \<Longrightarrow> hex_encode bs = map ascii_lower s"
  by (auto simp: hex_decode_def intro!: hex_encode_decode_pairs split: if_splits)
lemma ascii_lower_idem [simp]: "ascii_lower (ascii_lower c) = ascii_lower c"
  by (simp add: ascii_lower_def Let_def)
lemma hexdigit_lower [simp]: "is_ascii_hexdigit c \<Longrightarrow> is_ascii_hexdigit (ascii_lower c)"
  by (auto simp: is_ascii_hexdigit_def of_char_ascii_lower Let_def)
lemma validate_papers_ok_iff:
  "is_ok (validate_papers wps) \<longleftrightarrow>
     (\<forall>wp\<in>set wps. length (payload_hash wp) = 64 \<and> list_all is_ascii_hexdigit (payload_hash wp)
        \<and> 5 \<le> retention_years wp \<and> retention_years wp \<le> 10)"
  by (induction wps) auto

lemma bundle_leaves_valid:
  assumes "validate b = Inr u"
  shows "list_all (\<lambda>s. is_ok (hex_decode s)) (bundle_leaves b)"
proof -
  have "is_ok (validate_papers (working_papers b))" using assms by (simp add: validate_def is_ok_iff)
  then show ?thesis
    by (auto simp: validate_papers_ok_iff bundle_leaves_def list_all_iff hex_decode_ok_iff)
qed

lemma bundle_leaves_lower: "x \<in> set (bundle_leaves b) \<Longrightarrow> map ascii_lower x = x"
  by (auto simp: bundle_leaves_def)

lemma length_bundle_leaves [simp]: "length (bundle_leaves b) = length (working_papers b)"
  by (simp add: bundle_leaves_def)

text \<open>Lower-case hexadecimal text is determined by the bytes it decodes to.\<close>

lemma lower_decode_eqI:
  assumes "map hex_decode xs = map hex_decode ys"
    and "\<forall>x\<in>set xs. is_ok (hex_decode x) \<and> map ascii_lower x = x"
    and "\<forall>y\<in>set ys. map ascii_lower y = y"
  shows "xs = ys"
proof (rule map_inj_on [OF assms(1)], rule inj_onI)
  fix x y assume xy: "x \<in> set xs \<union> set ys" "y \<in> set xs \<union> set ys" and eq: "hex_decode x = hex_decode y"
  have "hex_decode ` set xs = hex_decode ` set ys" using assms(1) by (metis set_map)
  then have "hex_decode x \<in> hex_decode ` set xs" using xy(1) by auto
  then have "is_ok (hex_decode x)" using assms(2) by auto
  then obtain bs where "hex_decode x = Inr bs" "hex_decode y = Inr bs" using eq by (auto simp: is_ok_iff)
  then have "map ascii_lower x = map ascii_lower y"
    by (simp only: hex_encode_hex_decode [symmetric])
  moreover have "map ascii_lower x = x" "map ascii_lower y = y" using xy assms(2,3) by auto
  ultimately show "x = y" by simp
qed

section \<open>Properties\<close>

text \<open>C2. An inclusion proof verifies: whenever the root of a list of leaves is computed,
  \<^verbatim>\<open>merkle_proof\<close> succeeds for every index in range and the proof it returns, one step a
  level, is accepted by \<^verbatim>\<open>verify_merkle_proof\<close> for that leaf, that index and that root.\<close>

theorem merkle_proof_complete:
  assumes "merkle_root sha leaves = Inr root" and "index < length leaves"
  shows "\<exists>proof. merkle_proof sha leaves index = Inr proof
    \<and> length proof = merkle_depth (length leaves)
    \<and> verify_merkle_proof sha (leaves ! index) proof index root = Inr True"
proof -
  have "merkle_loop sha leaves = Inr root" using assms(1) by (simp add: merkle_root_def split: if_splits)
  from merkle_proof_loop_climb [OF this assms(2)] assms(2) show ?thesis
    by (auto simp: merkle_proof_def verify_merkle_proof_def)
qed

text \<open>C32. An accepted proof of full length proves membership: if the digest function is
  injective on the messages hashed for the tree and for the proof, and a proof with as many
  steps as the tree has levels is accepted at an index in range, then the leaf it was accepted
  for is the leaf at that index (as bytes).\<close>

theorem verify_merkle_proof_sound:
  assumes "merkle_root sha leaves = Inr root"
    and "verify_merkle_proof sha leaf proof index root = Inr True"
    and "index < length leaves" and "length proof = merkle_depth (length leaves)"
    and "inj_on sha (set (tree_messages sha leaves) \<union> set (climb_messages sha leaf proof index))"
  shows "hex_decode leaf = hex_decode (leaves ! index)"
proof (rule climb_sound [OF _ _ assms(3,4,5)])
  show "merkle_loop sha leaves = Inr root" using assms(1) by (simp add: merkle_root_def split: if_splits)
  show "climb sha leaf proof index = Inr root"
    using assms(2) by (auto simp: verify_merkle_proof_def result_simps)
qed auto

text \<open>C33. Tamper evidence: two bundles with the same number of working papers and the same
  root carry the same payload hashes in the order of their paper ids, if the digest function is
  injective on the messages hashed for the two trees.\<close>

theorem bundle_root_tamper_evident:
  assumes "bundle_root sha b = Inr root" and "bundle_root sha b' = Inr root"
    and "length (working_papers b') = length (working_papers b)"
    and "inj_on sha (set (tree_messages sha (bundle_leaves b)) \<union> set (tree_messages sha (bundle_leaves b')))"
  shows "bundle_leaves b = bundle_leaves b'"
proof (cases "working_papers b = []")
  case True
  with assms(3) show ?thesis by (simp add: bundle_leaves_def)
next
  case False
  then have ne: "bundle_leaves b \<noteq> []" by (metis length_0_conv length_bundle_leaves)
  obtain u where v: "validate b = Inr u" using assms(1) by (auto simp: bundle_root_def result_simps)
  have "merkle_loop sha (bundle_leaves b) = Inr root" "merkle_loop sha (bundle_leaves b') = Inr root"
    using assms(1-3) False
    by (auto simp: bundle_root_def merkle_root_def result_simps bundle_leaves_def split: sum.splits if_splits)
  from merkle_loop_inj [OF this _ ne assms(4)] assms(3)
  have "map hex_decode (bundle_leaves b) = map hex_decode (bundle_leaves b')" by simp
  then show ?thesis
    by (rule lower_decode_eqI)
       (use bundle_leaves_valid [OF v] in \<open>auto simp: list_all_iff bundle_leaves_lower\<close>)
qed

text \<open>The bundle root is canonical and total: for papers with distinct ids it does not
  depend on the order in which the bundle lists them, and a bundle that passes validation
  always has a root when digests are 32 bytes long.\<close>

theorem bundle_root_canonical:
  assumes "distinct (map wp_id (working_papers b))"
    and "mset (working_papers b') = mset (working_papers b)"
    and "validate b = Inr ()" and "\<forall>x. length (sha x) = 32"
  shows "bundle_root sha b' = bundle_root sha b \<and> is_ok (bundle_root sha b)"
proof -
  have set: "set (working_papers b') = set (working_papers b)" using assms(2) by (metis set_mset_mset)
  have d': "distinct (map wp_id (working_papers b'))"
    using assms(1,2) by (metis mset_eq_imp_distinct_iff mset_map)
  have "sort_key wp_id (working_papers b') = sort_key wp_id (working_papers b)"
    by (rule map_sorted_distinct_set_unique [where f = wp_id])
       (use assms(1) d' set in \<open>auto simp: distinct_map\<close>)
  then have leaves: "bundle_leaves b' = bundle_leaves b" by (simp add: bundle_leaves_def)
  have "is_ok (validate_papers (working_papers b'))"
    using assms(3) set validate_papers_ok_iff [of "working_papers b"]
    by (simp add: validate_def validate_papers_ok_iff)
  then have v': "validate b' = Inr ()" by (auto simp: validate_def is_ok_iff)
  have "is_ok (bundle_root sha b)"
  proof (cases "working_papers b = []")
    case False
    then have "bundle_leaves b \<noteq> []" by (metis length_0_conv length_bundle_leaves)
    with merkle_loop_ok [OF assms(4) this bundle_leaves_valid [OF assms(3)]] show ?thesis
      using assms(3) False by (auto simp: bundle_root_def merkle_root_def)
  qed (simp add: bundle_root_def assms(3))
  moreover have "working_papers b' = [] \<longleftrightarrow> working_papers b = []" using set by auto
  ultimately show ?thesis using v' assms(3) leaves by (simp add: bundle_root_def)
qed

text \<open>The odd-level rule leaves the length of the leaf list open: appending a copy of the
  last leaf to an odd list of more than one leaf gives the same root, so adding a paper whose
  hash repeats the last one is not visible in the bundle root.\<close>

theorem merkle_root_duplicate_last:
  assumes "odd (length leaves)" and "1 < length leaves"
  shows "merkle_root sha (leaves @ [last leaves]) = merkle_root sha leaves"
proof -
  have "next_level sha (leaves @ [last leaves]) = next_level sha leaves"
    using assms by (simp add: next_level_def pad_level_def)
  then show ?thesis using assms(2)
    by (auto simp: merkle_root_def merkle_loop.simps [of sha leaves]
        merkle_loop.simps [of sha "leaves @ [last leaves]"])
qed

text \<open>Verification reads the index only modulo two to the number of proof steps: a proof
  accepted at an index is accepted at every index congruent to it, also beyond the leaf list.\<close>

theorem verify_merkle_proof_index_mod:
  "verify_merkle_proof sha leaf pf (index + 2 ^ length pf * k) root
     = verify_merkle_proof sha leaf pf index root"
proof -
  have "climb sha current pf (index + 2 ^ length pf * k) = climb sha current pf index" for current
  proof (induction pf arbitrary: current index)
    case (Cons step steps)
    have "(index + 2 ^ length (step # steps) * k) div 2 = index div 2 + 2 ^ length steps * k"
      by simp
    moreover have "even (index + 2 ^ length (step # steps) * k) \<longleftrightarrow> even index" by simp
    ultimately show ?case by (simp add: Cons.IH)
  qed simp
  then show ?thesis by (simp add: verify_merkle_proof_def)
qed

section \<open>Concrete instances\<close>

text \<open>Concrete data for the examples: digests and leaves of one repeated byte.\<close>

definition leaf_of :: "u8 \<Rightarrow> string" where
  "leaf_of b = hex_encode (replicate 32 b)"

definition sample_paper :: "string \<Rightarrow> u8 \<Rightarrow> nat WorkingPaper" where
  "sample_paper i b =
     \<lparr>wp_id = i, title = ''Cash'', payload_hash = leaf_of b,
      preparer = \<lparr>preparer_verifier_id = 1, preparer_name = ''P'', preparer_role = ''Senior''\<rparr>,
      prepared_at = 0, reviewer = None, signoff = None, retention_years = 7, wp_description = ''''\<rparr>"

definition sample_bundle :: "string \<Rightarrow> nat WorkingPaper list \<Rightarrow> nat EngagementBundle" where
  "sample_bundle e wps =
     \<lparr>engagement_id = e, jurisdiction = Iaasb, period_end = 0, report_date = 0,
      working_papers = wps, bundle_description = ''''\<rparr>"

lemma decode_leaf_of [simp]: "hex_decode (leaf_of b) = Inr (replicate 32 b)"
  by (simp add: leaf_of_def hex_decode_hex_encode)

lemma sample_pair: "pair_hash (take 32) (leaf_of a) (leaf_of b) = Inr (leaf_of a)"
  by (simp add: pair_hash_def leaf_of_def[of a, symmetric])

lemma sample_level: "next_level (take 32) [leaf_of a, leaf_of b] = Inr [leaf_of a]"
  by (simp add: next_level_def pad_level_def sample_pair)

lemma sample_root: "merkle_root (take 32) [leaf_of a, leaf_of b] = Inr (leaf_of a)"
  by (simp add: merkle_root_def merkle_loop.simps sample_level)

lemma sample_messages:
  "tree_messages (take 32) [leaf_of a, leaf_of b] = [replicate 32 a @ replicate 32 b]"
  by (simp add: tree_messages.simps sample_level pad_level_def pair_message_def)

lemma leaf_of_valid: "length (leaf_of b) = 64" "list_all is_ascii_hexdigit (leaf_of b)"
  using decode_leaf_of[of b] by (auto simp: hex_decode_def split: if_splits)

theorem merkle_proof_complete_witness:
  "\<exists>pf. merkle_proof (take 32) [leaf_of 0, leaf_of 1] 1 = Inr pf
    \<and> verify_merkle_proof (take 32) (leaf_of 1) pf 1 (leaf_of 0) = Inr True"
  using merkle_proof_complete[OF sample_root[of 0 1], of 1] by auto

theorem verify_merkle_proof_sound_witness:
  "hex_decode (leaf_of 0) = hex_decode ([leaf_of 0, leaf_of 1] ! 0)"
  by (rule verify_merkle_proof_sound[of "take 32" _ "leaf_of 0" _ "[\<lparr>sibling = leaf_of 1, direction = Right\<rparr>]"])
    (simp_all add: sample_root sample_messages verify_merkle_proof_def sample_pair pair_message_def merkle_depth.simps)

lemma sample_validate: "validate (sample_bundle e [sample_paper i a, sample_paper j b]) = Inr ()"
  by (simp add: validate_def sample_bundle_def sample_paper_def leaf_of_valid)

lemma lower_leaf_of: "map ascii_lower (leaf_of b) = leaf_of b"
  using hex_encode_hex_decode[OF decode_leaf_of[of b]] by (simp add: leaf_of_def)

lemma sample_leaves:
  "bundle_leaves (sample_bundle e [sample_paper ''a'' a, sample_paper ''b'' b]) = [leaf_of a, leaf_of b]"
  by (simp add: bundle_leaves_def sample_bundle_def sample_paper_def lower_leaf_of less_eq_char_def)

lemma sample_bundle_root:
  "bundle_root (take 32) (sample_bundle e [sample_paper ''a'' a, sample_paper ''b'' b]) = Inr (leaf_of a)"
  using sample_validate[of e "''a''" a "''b''" b] sample_leaves[of e a b]
  by (simp add: bundle_root_def sample_root) (simp add: sample_bundle_def)

theorem bundle_root_tamper_evident_witness:
  "bundle_leaves (sample_bundle ''E1'' [sample_paper ''a'' 0, sample_paper ''b'' 1])
     = bundle_leaves (sample_bundle ''E2'' [sample_paper ''a'' 0, sample_paper ''b'' 1])"
  by (rule bundle_root_tamper_evident[OF sample_bundle_root sample_bundle_root])
     (simp add: sample_bundle_def, simp add: sample_leaves sample_messages)

theorem bundle_root_canonical_witness:
  "is_ok (bundle_root (\<lambda>_. replicate 32 0) (sample_bundle ''E'' [sample_paper ''a'' 0, sample_paper ''b'' 1]))"
  using bundle_root_canonical[of "sample_bundle ''E'' [sample_paper ''a'' 0, sample_paper ''b'' 1]"
      "sample_bundle ''E'' [sample_paper ''b'' 1, sample_paper ''a'' 0]" "\<lambda>_. replicate 32 0"]
    sample_validate[of "''E''" "''a''" 0 "''b''" 1]
  by (simp add: sample_bundle_def sample_paper_def)

theorem merkle_root_duplicate_last_witness:
  "\<forall>sha. merkle_root sha [leaf_of 0, leaf_of 1, leaf_of 2, leaf_of 2] =
         merkle_root sha [leaf_of 0, leaf_of 1, leaf_of 2]"
  using merkle_root_duplicate_last[of "[leaf_of 0, leaf_of 1, leaf_of 2]"] by simp

end
