(* ===== verification/Uuid_Factory.thy ===== *)
theory Uuid_Factory
  imports Prelude
begin

unbundle bit_operations_syntax

text \<open>
  Model of \<^verbatim>\<open>crates/datasynth-core/src/uuid_factory.rs\<close>: the deterministic UUID factory, its
  FNV-1a style digest on 64-bit words with wrap-around, and the registry of factories.
  \<^verbatim>\<open>Uuid::from_bytes\<close> only wraps the sixteen bytes, so a UUID is its byte list. An
  \<^verbatim>\<open>AtomicU64\<close> counter is a 64-bit word; one \<^verbatim>\<open>fetch_add\<close> is one step, so calls from several
  threads are some sequence of \<open>factory_next\<close> steps.
\<close>

section \<open>Generator types\<close>

datatype (plugins only: code size) GeneratorType =
    JournalEntry | DocumentFlow | Vendor | Customer | Material | Asset | Employee |
  ARSubledger | APSubledger | FASubledger | InventorySubledger | Intercompany | Anomaly |
  PeriodClose | FxRate | Accrual | Depreciation | Control | OpeningBalance | TrialBalance |
  PurchaseOrder | GoodsReceipt | VendorInvoice | Payment | SalesOrder | Delivery |
  CustomerInvoice | CustomerReceipt | SourcingProject | RfxEvent | SupplierBid |
  ProcurementContract | CatalogItem | BankReconciliation | FinancialStatement | PayrollRun |
  TimeEntry | ExpenseReport | ProductionOrder | CycleCount | QualityInspection | SalesQuote
  | BudgetLine | RevenueRecognition | ImpairmentTest | Kpi | Tax | ProjectAccounting | Esg |
  SupplierQualification | SupplierScorecard | BomComponent | InventoryMovement |
  BenefitEnrollment | Disruption | BusinessCombination | SegmentReport | ExpectedCreditLoss
  | Pension | Provision | StockCompensation | IndustryBenchmark | Governance |
  OrganizationalProfile | ItControls | ManagementReport | PriorYear | LegalDocument

text \<open>The \<^verbatim>\<open>repr(u8)\<close> discriminants.\<close>

fun discriminant :: "GeneratorType \<Rightarrow> u8" where
  "discriminant JournalEntry = 1"
| "discriminant DocumentFlow = 2"
| "discriminant Vendor = 3"
| "discriminant Customer = 4"
| "discriminant Material = 5"
| "discriminant Asset = 6"
| "discriminant Employee = 7"
| "discriminant ARSubledger = 8"
| "discriminant APSubledger = 9"
| "discriminant FASubledger = 10"
| "discriminant InventorySubledger = 11"
| "discriminant Intercompany = 12"
| "discriminant Anomaly = 13"
| "discriminant PeriodClose = 14"
| "discriminant FxRate = 15"
| "discriminant Accrual = 16"
| "discriminant Depreciation = 17"
| "discriminant Control = 18"
| "discriminant OpeningBalance = 19"
| "discriminant TrialBalance = 20"
| "discriminant PurchaseOrder = 32"
| "discriminant GoodsReceipt = 33"
| "discriminant VendorInvoice = 34"
| "discriminant Payment = 35"
| "discriminant SalesOrder = 36"
| "discriminant Delivery = 37"
| "discriminant CustomerInvoice = 38"
| "discriminant CustomerReceipt = 39"
| "discriminant SourcingProject = 40"
| "discriminant RfxEvent = 41"
| "discriminant SupplierBid = 42"
| "discriminant ProcurementContract = 43"
| "discriminant CatalogItem = 44"
| "discriminant BankReconciliation = 45"
| "discriminant FinancialStatement = 46"
| "discriminant PayrollRun = 47"
| "discriminant TimeEntry = 48"
| "discriminant ExpenseReport = 49"
| "discriminant ProductionOrder = 50"
| "discriminant CycleCount = 51"
| "discriminant QualityInspection = 52"
| "discriminant SalesQuote = 53"
| "discriminant BudgetLine = 54"
| "discriminant RevenueRecognition = 55"
| "discriminant ImpairmentTest = 56"
| "discriminant Kpi = 57"
| "discriminant Tax = 58"
| "discriminant ProjectAccounting = 59"
| "discriminant Esg = 60"
| "discriminant SupplierQualification = 61"
| "discriminant SupplierScorecard = 62"
| "discriminant BomComponent = 63"
| "discriminant InventoryMovement = 64"
| "discriminant BenefitEnrollment = 65"
| "discriminant Disruption = 66"
| "discriminant BusinessCombination = 67"
| "discriminant SegmentReport = 68"
| "discriminant ExpectedCreditLoss = 69"
| "discriminant Pension = 70"
| "discriminant Provision = 71"
| "discriminant StockCompensation = 72"
| "discriminant IndustryBenchmark = 73"
| "discriminant Governance = 74"
| "discriminant OrganizationalProfile = 75"
| "discriminant ItControls = 76"
| "discriminant ManagementReport = 77"
| "discriminant PriorYear = 78"
| "discriminant LegalDocument = 79"

definition all_generator_types :: "GeneratorType list" where
  "all_generator_types =
     [JournalEntry, DocumentFlow, Vendor, Customer, Material, Asset, Employee, ARSubledger,
      APSubledger, FASubledger, InventorySubledger, Intercompany, Anomaly, PeriodClose,
      FxRate, Accrual, Depreciation, Control, OpeningBalance, TrialBalance, PurchaseOrder,
      GoodsReceipt, VendorInvoice, Payment, SalesOrder, Delivery, CustomerInvoice,
      CustomerReceipt, SourcingProject, RfxEvent, SupplierBid, ProcurementContract,
      CatalogItem, BankReconciliation, FinancialStatement, PayrollRun, TimeEntry,
      ExpenseReport, ProductionOrder, CycleCount, QualityInspection, SalesQuote, BudgetLine,
      RevenueRecognition, ImpairmentTest, Kpi, Tax, ProjectAccounting, Esg,
      SupplierQualification, SupplierScorecard, BomComponent, InventoryMovement,
      BenefitEnrollment, Disruption, BusinessCombination, SegmentReport, ExpectedCreditLoss,
      Pension, Provision, StockCompensation, IndustryBenchmark, Governance,
      OrganizationalProfile, ItControls, ManagementReport, PriorYear, LegalDocument]"

lemma all_generator_types: "set all_generator_types = UNIV"
proof -
  have "g \<in> set all_generator_types" for g
    by (cases g) (simp_all add: all_generator_types_def)
  then show ?thesis by auto
qed

lemma distinct_discriminants: "distinct (map discriminant all_generator_types)"
  by (simp add: all_generator_types_def)

lemma discriminant_inject [simp]: "discriminant g = discriminant g' \<longleftrightarrow> g = g'"
  using distinct_discriminants all_generator_types by (auto simp: distinct_map dest: inj_onD)

text \<open>Generator types are ordered by their discriminants.\<close>

instantiation GeneratorType :: linorder
begin

definition less_eq_GeneratorType :: "GeneratorType \<Rightarrow> GeneratorType \<Rightarrow> bool" where
  "less_eq_GeneratorType a b \<longleftrightarrow> discriminant a \<le> discriminant b"

definition less_GeneratorType :: "GeneratorType \<Rightarrow> GeneratorType \<Rightarrow> bool" where
  "less_GeneratorType a b \<longleftrightarrow> discriminant a < discriminant b"

instance
  by standard (auto simp: less_eq_GeneratorType_def less_GeneratorType_def dest: order_antisym)

end

section \<open>The digest\<close>

definition FNV_OFFSET :: u64 where "FNV_OFFSET = 14695981039346656037"
definition FNV_PRIME :: u64 where "FNV_PRIME = 1099511628211"

text \<open>\<^verbatim>\<open>hash ^= b; hash = hash.wrapping_mul(FNV_PRIME)\<close>.\<close>

definition fnv_step :: "u64 \<Rightarrow> u64 \<Rightarrow> u64" where
  "fnv_step hash b = (hash XOR b) * FNV_PRIME"

definition to_le_bytes :: "u64 \<Rightarrow> u8 list" where
  "to_le_bytes w = map (\<lambda>i. ucast (drop_bit (8 * i) w)) [0..<8]"

definition fnv_bytes :: "u64 \<Rightarrow> u8 list \<Rightarrow> u64" where
  "fnv_bytes hash bs = foldl (\<lambda>h b. fnv_step h (ucast b)) hash bs"

record DeterministicUuidFactory =
  seed :: u64
  generator_type :: GeneratorType
  counter :: u64
  sub_discriminator :: u8

definition new_factory :: "u64 \<Rightarrow> GeneratorType \<Rightarrow> DeterministicUuidFactory" where
  "new_factory sd gt = \<lparr>seed = sd, generator_type = gt, counter = 0, sub_discriminator = 0\<rparr>"

definition with_sub_discriminator ::
    "u64 \<Rightarrow> GeneratorType \<Rightarrow> u8 \<Rightarrow> DeterministicUuidFactory" where
  "with_sub_discriminator sd gt sub =
     \<lparr>seed = sd, generator_type = gt, counter = 0, sub_discriminator = sub\<rparr>"

definition with_counter :: "u64 \<Rightarrow> GeneratorType \<Rightarrow> u64 \<Rightarrow> DeterministicUuidFactory" where
  "with_counter sd gt start =
     \<lparr>seed = sd, generator_type = gt, counter = start, sub_discriminator = 0\<rparr>"

definition for_partition :: "u64 \<Rightarrow> GeneratorType \<Rightarrow> u8 \<Rightarrow> DeterministicUuidFactory" where
  "for_partition sd gt partition_index =
     \<lparr>seed = sd, generator_type = gt, counter = 0, sub_discriminator = partition_index\<rparr>"

text \<open>The two words of \<^verbatim>\<open>generate_uuid\<close> before the version and variant bits are set.\<close>

definition first_hash :: "DeterministicUuidFactory \<Rightarrow> u64 \<Rightarrow> u64" where
  "first_hash f c =
     (let h1 = fnv_bytes FNV_OFFSET (to_le_bytes (seed f));
          h2 = fnv_step h1 (ucast (discriminant (generator_type f)));
          h3 = fnv_step h2 (ucast (sub_discriminator f))
      in fnv_bytes h3 (to_le_bytes c))"

definition second_hash :: "DeterministicUuidFactory \<Rightarrow> u64 \<Rightarrow> u64" where
  "second_hash f c =
     fnv_step (fnv_step (first_hash f c) (word_rotl 32 (seed f))) (word_rotl 32 c)"

definition set_version :: "u8 \<Rightarrow> u8" where
  "set_version b = (b AND 0x0f) OR 0x40"

definition set_variant :: "u8 \<Rightarrow> u8" where
  "set_variant b = (b AND 0x3f) OR 0x80"

definition generate_uuid :: "DeterministicUuidFactory \<Rightarrow> u64 \<Rightarrow> u8 list" where
  "generate_uuid f c =
     (let bytes = to_le_bytes (first_hash f c) @ to_le_bytes (second_hash f c);
          bytes = bytes[6 := set_version (bytes ! 6)]
      in bytes[8 := set_variant (bytes ! 8)])"

section \<open>Operations of a factory\<close>

definition factory_next ::
    "DeterministicUuidFactory \<Rightarrow> u8 list \<times> DeterministicUuidFactory" where
  "factory_next f = (generate_uuid f (counter f), f\<lparr>counter := counter f + 1\<rparr>)"

definition generate_at :: "DeterministicUuidFactory \<Rightarrow> u64 \<Rightarrow> u8 list" where
  "generate_at f c = generate_uuid f c"

definition current_counter :: "DeterministicUuidFactory \<Rightarrow> u64" where
  "current_counter f = counter f"

definition reset_factory :: "DeterministicUuidFactory \<Rightarrow> DeterministicUuidFactory" where
  "reset_factory f = f\<lparr>counter := 0\<rparr>"

definition set_counter :: "DeterministicUuidFactory \<Rightarrow> u64 \<Rightarrow> DeterministicUuidFactory" where
  "set_counter f v = f\<lparr>counter := v\<rparr>"

definition clone_factory :: "DeterministicUuidFactory \<Rightarrow> DeterministicUuidFactory" where
  "clone_factory f = \<lparr>seed = seed f, generator_type = generator_type f,
     counter = counter f, sub_discriminator = sub_discriminator f\<rparr>"

text \<open>A run of \<open>n\<close> calls of \<^verbatim>\<open>next\<close>.\<close>

fun take_uuids :: "nat \<Rightarrow> DeterministicUuidFactory \<Rightarrow> u8 list list \<times> DeterministicUuidFactory" where
  "take_uuids 0 f = ([], f)"
| "take_uuids (Suc n) f =
     (let (u, f') = factory_next f; (us, f'') = take_uuids n f' in (u # us, f''))"

section \<open>The registry\<close>

record UuidFactoryRegistry =
  registry_seed :: u64
  factories :: "GeneratorType \<rightharpoonup> DeterministicUuidFactory"

definition new_registry :: "u64 \<Rightarrow> UuidFactoryRegistry" where
  "new_registry sd = \<lparr>registry_seed = sd, factories = Map.empty\<rparr>"

definition get_factory ::
    "UuidFactoryRegistry \<Rightarrow> GeneratorType \<Rightarrow> DeterministicUuidFactory \<times> UuidFactoryRegistry" where
  "get_factory r gt =
     (case factories r gt of
        Some f \<Rightarrow> (f, r)
      | None \<Rightarrow> (let f = new_factory (registry_seed r) gt
                 in (f, r\<lparr>factories := (factories r)(gt \<mapsto> f)\<rparr>)))"

definition next_uuid ::
    "UuidFactoryRegistry \<Rightarrow> GeneratorType \<Rightarrow> u8 list \<times> UuidFactoryRegistry" where
  "next_uuid r gt =
     (let (f, r') = get_factory r gt; (u, f') = factory_next f
      in (u, r'\<lparr>factories := (factories r')(gt \<mapsto> f')\<rparr>))"

definition reset_all :: "UuidFactoryRegistry \<Rightarrow> UuidFactoryRegistry" where
  "reset_all r = r\<lparr>factories := (\<lambda>gt. map_option reset_factory (factories r gt))\<rparr>"

definition get_counter :: "UuidFactoryRegistry \<Rightarrow> GeneratorType \<Rightarrow> u64 option" where
  "get_counter r gt = map_option current_counter (factories r gt)"

text \<open>The UUIDs a registry hands out for a sequence of requests.\<close>

fun serve :: "UuidFactoryRegistry \<Rightarrow> GeneratorType list \<Rightarrow> u8 list list \<times> UuidFactoryRegistry" where
  "serve r [] = ([], r)"
| "serve r (gt # gts) =
     (let (u, r') = next_uuid r gt; (us, r'') = serve r' gts in (u # us, r''))"

section \<open>Facts about the digest and about runs\<close>

lemma FNV_PRIME_inverse: "FNV_PRIME * 14886173955864302971 = 1"
  by (simp add: FNV_PRIME_def)

lemma xor_word_cancel [simp]: "(a XOR b) XOR b = (a :: u64)" "b XOR (b XOR a) = (a :: u64)"
  by (rule bit_eqI; auto simp: bit_simps)+

lemma times_FNV_PRIME_inject: "x * FNV_PRIME = y * FNV_PRIME \<longleftrightarrow> x = y"
proof
  assume "x * FNV_PRIME = y * FNV_PRIME"
  then have "x * (FNV_PRIME * 14886173955864302971) = y * (FNV_PRIME * 14886173955864302971)"
    by (simp only: mult.assoc [symmetric])
  then show "x = y" by (simp only: FNV_PRIME_inverse mult_1_right)
qed simp

lemma fnv_step_inject [simp]:
  "fnv_step h b = fnv_step h' b \<longleftrightarrow> h = h'" "fnv_step h b = fnv_step h b' \<longleftrightarrow> b = b'"
  by (metis fnv_step_def times_FNV_PRIME_inject xor_word_cancel)+

lemma fnv_bytes_inject [simp]: "fnv_bytes h bs = fnv_bytes h' bs \<longleftrightarrow> h = h'"
  by (induction bs arbitrary: h h') (simp_all add: fnv_bytes_def)

lemma word_rotl_32_inject [simp]: "word_rotl 32 c = word_rotl 32 c' \<longleftrightarrow> c = (c' :: u64)"
  by (metis word_rot_lr word_rot_rl)

lemma ucast_u8_inject [simp]: "(ucast a :: u64) = ucast b \<longleftrightarrow> a = (b :: u8)"
proof
  assume eq: "(ucast a :: u64) = ucast b"
  show "a = b"
  proof (rule bit_eqI)
    fix n
    assume "possible_bit TYPE(u8) n"
    moreover have "bit (ucast a :: u64) n = bit (ucast b :: u64) n" using eq by simp
    ultimately show "bit a n = bit b n" by (simp add: bit_simps)
  qed
qed simp


lemma length_to_le_bytes [simp]: "length (to_le_bytes w) = 8"
  by (simp add: to_le_bytes_def)

lemma length_generate_uuid: "length (generate_uuid f c) = 16"
  by (simp add: generate_uuid_def Let_def)

lemma set_version_bits: "drop_bit 4 (set_version b) = 4"
  by (simp add: set_version_def)

lemma set_variant_bits: "drop_bit 6 (set_variant b) = 2"
  by (simp add: set_variant_def)

text \<open>What a run of calls does, in closed form.\<close>

lemma generate_uuid_counter [simp]: "generate_uuid (f\<lparr>counter := v\<rparr>) c = generate_uuid f c"
  by (simp add: generate_uuid_def first_hash_def second_hash_def)

lemma take_uuids_eq:
  "take_uuids n f =
     (map (\<lambda>k. generate_at f (counter f + word_of_nat k)) [0..<n],
      f\<lparr>counter := counter f + word_of_nat n\<rparr>)"
proof (induction n arbitrary: f)
  case (Suc n)
  have "map (\<lambda>k. generate_uuid f (counter f + word_of_nat k)) [0..<Suc n]
     = generate_uuid f (counter f) #
        map (\<lambda>k. generate_uuid f (counter f + 1 + word_of_nat k)) [0..<n]"
    by (simp del: upt_Suc add: upt_conv_Cons flip: map_Suc_upt) (simp add: comp_def add.assoc)
  then show ?case
    by (simp add: Suc.IH factory_next_def generate_at_def algebra_simps del: upt_Suc)
qed simp

text \<open>A registry whose factories have handed out \<open>cnt gt\<close> UUIDs of type \<open>gt\<close>.\<close>

definition registry_at :: "UuidFactoryRegistry \<Rightarrow> u64 \<Rightarrow> (GeneratorType \<Rightarrow> u64) \<Rightarrow> bool" where
  "registry_at r sd cnt \<longleftrightarrow> registry_seed r = sd \<and>
     (\<forall>gt. case factories r gt of
        None \<Rightarrow> cnt gt = 0
      | Some f \<Rightarrow> f = (new_factory sd gt)\<lparr>counter := cnt gt\<rparr>)"

lemma counter_new_factory [simp]:
  "counter (new_factory sd gt) = 0" "(new_factory sd gt)\<lparr>counter := 0\<rparr> = new_factory sd gt"
  by (simp_all add: new_factory_def)

lemma registry_at_new: "registry_at (new_registry sd) sd (\<lambda>_. 0)"
  by (simp add: registry_at_def new_registry_def)

lemma registry_at_reset: "registry_at r sd cnt \<Longrightarrow> registry_at (reset_all r) sd (\<lambda>_. 0)"
  by (fastforce simp: registry_at_def reset_all_def reset_factory_def split: option.splits)

lemma registry_at_next:
  assumes "registry_at r sd cnt"
  shows "fst (next_uuid r gt) = generate_uuid (new_factory sd gt) (cnt gt)"
    and "registry_at (snd (next_uuid r gt)) sd (cnt(gt := cnt gt + 1))"
    and "factories (snd (next_uuid r gt)) = (factories r)(gt \<mapsto> (new_factory sd gt)\<lparr>counter := cnt gt + 1\<rparr>)"
proof -
  have g: "(case factories r gt of None \<Rightarrow> cnt gt = 0
      | Some f \<Rightarrow> f = (new_factory sd gt)\<lparr>counter := cnt gt\<rparr>)" "registry_seed r = sd"
    using assms by (auto simp: registry_at_def)
  then have n: "next_uuid r gt = (generate_uuid (new_factory sd gt) (cnt gt),
     r\<lparr>factories := (factories r)(gt \<mapsto> (new_factory sd gt)\<lparr>counter := cnt gt + 1\<rparr>)\<rparr>)"
    by (cases "factories r gt")
       (auto simp: next_uuid_def get_factory_def factory_next_def Let_def)
  then show "fst (next_uuid r gt) = generate_uuid (new_factory sd gt) (cnt gt)"
    "factories (snd (next_uuid r gt)) = (factories r)(gt \<mapsto> (new_factory sd gt)\<lparr>counter := cnt gt + 1\<rparr>)"
    by simp_all
  show "registry_at (snd (next_uuid r gt)) sd (cnt(gt := cnt gt + 1))"
    unfolding registry_at_def n snd_conv
  proof (intro conjI allI)
    fix g
    have "case factories r g of None \<Rightarrow> cnt g = 0 | Some f \<Rightarrow> f = (new_factory sd g)\<lparr>counter := cnt g\<rparr>"
      using assms by (auto simp: registry_at_def)
    then show "case factories (r\<lparr>factories := (factories r)(gt \<mapsto>
          (new_factory sd gt)\<lparr>counter := cnt gt + 1\<rparr>)\<rparr>) g of
        None \<Rightarrow> (cnt(gt := cnt gt + 1)) g = 0
      | Some f \<Rightarrow> f = (new_factory sd g)\<lparr>counter := (cnt(gt := cnt gt + 1)) g\<rparr>"
      by (cases "g = gt") (auto split: option.splits)
  qed (simp add: g(2))
qed

lemma serve_eq:
  assumes "registry_at r sd cnt"
  shows "fst (serve r gts) = map (\<lambda>i. generate_uuid (new_factory sd (gts ! i))
            (cnt (gts ! i) + word_of_nat (count_list (take i gts) (gts ! i)))) [0..<length gts]"
    and "registry_at (snd (serve r gts)) sd (\<lambda>gt. cnt gt + word_of_nat (count_list gts gt))"
    and "dom (factories (snd (serve r gts))) = dom (factories r) \<union> set gts"
proof -
  have "fst (serve r gts) = map (\<lambda>i. generate_uuid (new_factory sd (gts ! i))
            (cnt (gts ! i) + word_of_nat (count_list (take i gts) (gts ! i)))) [0..<length gts]
    \<and> registry_at (snd (serve r gts)) sd (\<lambda>gt. cnt gt + word_of_nat (count_list gts gt))
    \<and> dom (factories (snd (serve r gts))) = dom (factories r) \<union> set gts"
    using assms
  proof (induction gts arbitrary: r cnt)
    case Nil
    then show ?case by simp
  next
    case (Cons gt gts)
    obtain u r' where n: "next_uuid r gt = (u, r')" by (cases "next_uuid r gt")
    note at = registry_at_next [OF Cons.prems, of gt, unfolded n]
    have cnt: "(cnt(gt := cnt gt + 1)) g + word_of_nat (count_list xs g)
        = cnt g + word_of_nat (count_list (gt # xs) g)" for g xs by simp
    obtain us r'' where sv: "serve r' gts = (us, r'')" by (cases "serve r' gts")
    have s: "serve r (gt # gts) = (u # us, r'')" by (simp add: n sv)
    note IH = Cons.IH [OF at(2)[unfolded snd_conv], unfolded cnt sv fst_conv snd_conv]
    have "map (\<lambda>i. generate_uuid (new_factory sd ((gt # gts) ! i))
            (cnt ((gt # gts) ! i) + word_of_nat (count_list (take i (gt # gts)) ((gt # gts) ! i))))
          [0..<length (gt # gts)]
       = u # us"
      using at(1) IH
      by (simp del: upt_Suc add: upt_conv_Cons comp_def flip: map_Suc_upt)
    moreover have "dom (factories r'') = dom (factories r) \<union> set (gt # gts)"
      using IH at(3) by auto
    ultimately show ?case using IH by (simp only: s fst_conv snd_conv)
  qed
  then show "fst (serve r gts) = map (\<lambda>i. generate_uuid (new_factory sd (gts ! i))
            (cnt (gts ! i) + word_of_nat (count_list (take i gts) (gts ! i)))) [0..<length gts]"
    and "registry_at (snd (serve r gts)) sd (\<lambda>gt. cnt gt + word_of_nat (count_list gts gt))"
    and "dom (factories (snd (serve r gts))) = dom (factories r) \<union> set gts"
    by simp_all
qed

section \<open>Properties\<close>

lemmas uuid_defs = generate_uuid_def set_version_bits set_variant_bits Let_def nth_list_update


lemma generate_uuid_byte6:
  "drop_bit 4 (discriminant g) \<noteq> 4 \<Longrightarrow> generate_uuid f c ! 6 \<noteq> discriminant g"
  by (auto simp: uuid_defs) (metis set_version_bits)

lemma generate_uuid_byte6_JournalEntry: "generate_uuid f c ! 6 \<noteq> discriminant JournalEntry"
  by (rule generate_uuid_byte6) simp

text \<open>The 128-bit digest behind an identifier separates the counters of a factory: two
  counters give the same pair of hash words only if they are equal, before the six version and
  variant bits overwrite digest bits.\<close>

theorem uuid_digest_injective:
  "(first_hash f c = first_hash f c' \<and> second_hash f c = second_hash f c') \<longleftrightarrow> c = c'"
  by (auto simp: second_hash_def)

text \<open>Separation of streams: with one seed and one counter, factories of different generator
  types, or of one type in different partitions, have different first hash words.\<close>

theorem first_hash_separates:
  "(first_hash (for_partition sd g part) c = first_hash (for_partition sd g' part) c \<longleftrightarrow> g = g')
   \<and> (first_hash (for_partition sd g part) c = first_hash (for_partition sd g part') c
        \<longleftrightarrow> part = part')"
  by (simp add: first_hash_def for_partition_def Let_def)

text \<open>Resuming from a checkpoint: the first \<open>m + n\<close> identifiers of a new factory are its
  first \<open>m\<close> followed by the first \<open>n\<close> of a factory started at counter \<open>m\<close>, and each of them
  is what \<^verbatim>\<open>generate_at\<close> gives for its position.\<close>

theorem take_uuids_resume:
  "fst (take_uuids (m + n) (new_factory sd gt)) =
     fst (take_uuids m (new_factory sd gt)) @ fst (take_uuids n (with_counter sd gt (word_of_nat m)))
   \<and> fst (take_uuids m (new_factory sd gt))
       = map (\<lambda>k. generate_at (new_factory sd gt) (word_of_nat k)) [0..<m]"
proof -
  have gen: "generate_at (with_counter sd gt (word_of_nat m)) c = generate_at (new_factory sd gt) c" for c
    by (simp add: generate_at_def with_counter_def new_factory_def generate_uuid_def first_hash_def
        second_hash_def)
  have "[0..<m + n] = [0..<m] @ map (\<lambda>k. k + m) [0..<n]"
    using upt_add_eq_append [of 0 m n] by (simp add: map_add_upt add.commute)
  moreover have "counter (with_counter sd gt (word_of_nat m)) = word_of_nat m"
    by (simp add: with_counter_def)
  ultimately show ?thesis
    by (simp add: take_uuids_eq gen comp_def ac_simps)
qed

text \<open>The registry keeps one stream for each generator type: serving a list of requests,
  the request at position \<open>i\<close> receives the identifier whose counter is the number of earlier
  requests of its type, whatever other types were served in between, and afterwards the counter
  of a type is its number of requests, unknown for types never requested.\<close>

theorem registry_streams:
  "fst (serve (new_registry sd) gts) =
     map (\<lambda>i. generate_uuid (new_factory sd (gts ! i))
                (word_of_nat (count_list (take i gts) (gts ! i)))) [0..<length gts]
   \<and> get_counter (snd (serve (new_registry sd) gts)) gt =
       (if gt \<in> set gts then Some (word_of_nat (count_list gts gt)) else None)"
proof -
  note at = serve_eq [OF registry_at_new [of sd], of gts]
  have "gt \<in> dom (factories (snd (serve (new_registry sd) gts))) \<longleftrightarrow> gt \<in> set gts"
    using at(3) by (simp add: new_registry_def)
  with at(2) have "get_counter (snd (serve (new_registry sd) gts)) gt =
       (if gt \<in> set gts then Some (word_of_nat (count_list gts gt)) else None)"
    by (auto simp: registry_at_def get_counter_def current_counter_def dom_def
        split: option.splits dest!: spec [of _ gt])
  then show ?thesis using at(1) by simp
qed

text \<open>Resetting replays: after any requests, a registry whose factories have all been reset
  serves every further list of requests exactly as a new registry with the same seed does.\<close>

theorem registry_reset_replays:
  "fst (serve (reset_all (snd (serve (new_registry sd) gts))) gts') = fst (serve (new_registry sd) gts')"
proof -
  have "registry_at (reset_all (snd (serve (new_registry sd) gts))) sd (\<lambda>_. 0)"
    by (rule registry_at_reset [OF serve_eq(2) [OF registry_at_new]])
  from serve_eq(1) [OF this, of gts'] serve_eq(1) [OF registry_at_new, of sd gts'] show ?thesis
    by (simp only:)
qed

end
