(* ===== verification/Group_Plan.thy ===== *)
theory Group_Plan
  imports Complex_Main Journal Merkle Uuid_Factory Decimal_Text
begin

text \<open>
  Model of the manifest side of group consolidation in \<^verbatim>\<open>crates/datasynth-group/src\<close>: the
  intercompany part of \<^verbatim>\<open>config.rs\<close>, the expansion of relationships (\<^verbatim>\<open>manifest/ic_expansion.rs\<close>),
  the identifiers of \<^verbatim>\<open>manifest/seeds.rs\<close> and \<^verbatim>\<open>ic_pair.rs\<close>, the pair plans of
  \<^verbatim>\<open>shard/ic_plan.rs\<close> and the journal entries that \<^verbatim>\<open>shard/ic_je_injector.rs\<close> makes of them.
  A date is a day number; \<^verbatim>\<open>blake3\<close> and the division and rounding of \<^verbatim>\<open>Decimal\<close> are fields of
  \<open>group_env\<close>. An incremental hash is the hash of the concatenated input. An error carries the
  values that its message names instead of the text. Of the manifest, the plans that nothing
  modelled here reads (chart of accounts, exchange rates, audit, tax, shards, output) are one
  field of type \<open>'x\<close>.
\<close>

section \<open>Parameters and errors\<close>

type_synonym naive_date = int

record 'd group_env =
  blake3 :: "u8 list \<Rightarrow> u8 list"
  dec_div :: "'d \<Rightarrow> 'd \<Rightarrow> 'd"
  round_to_u64 :: "'d \<Rightarrow> u64 option"

datatype 'm GroupError =
    ConfigError 'm | ManifestError 'm | ShardError 'm | AggregateError 'm | IoError 'm | SerdeError 'm

section \<open>Configuration\<close>

datatype ConsolidationMethod = Parent | Full | EquityMethod | Proportional | FairValue

datatype IcTransactionType =
    GoodsSale | ServiceProvided | ManagementFee | Royalty | CostSharing | LoanInterest | Dividend
  | ExpenseRecharge

datatype TransferPricingMethod =
    CostPlus | ComparableUncontrolled | ResalePrice | TransactionalNetMargin | ProfitSplit

datatype IcMatchingStrategy = ManifestDriven | EmergentFuzzy

record ('f, 'd) IcMatchingConfig =
  mc_strategy :: IcMatchingStrategy
  mc_coverage_target :: 'f
  mc_tolerance_percent :: 'd

definition default_matching :: "('f::linordered_field, 'd::linordered_field) IcMatchingConfig" where
  "default_matching =
     \<lparr>mc_strategy = ManifestDriven, mc_coverage_target = 98 / 100, mc_tolerance_percent = 0\<rparr>"

record IcPattern =
  pt_seller_scoping_profile :: "string option"
  pt_buyer_scoping_profile :: "string option"
  pt_seller :: "string option"
  pt_buyer :: "string option"

record 'd IcRelationshipExplicit =
  ex_seller :: string
  ex_buyer :: string
  ex_types :: "IcTransactionType list"
  ex_annual_volume :: 'd
  ex_transfer_pricing :: "TransferPricingMethod option"
  ex_markup_percent :: "'d option"

record 'd IcRelationshipPattern =
  pr_pattern :: IcPattern
  pr_types :: "IcTransactionType list"
  pr_per_pair_volume :: 'd
  pr_transfer_pricing :: "TransferPricingMethod option"

datatype 'd IcRelationshipConfig =
    Explicit "'d IcRelationshipExplicit" | Pattern "'d IcRelationshipPattern"

record ('f, 'd) IntercompanyConfig =
  ic_relationships :: "'d IcRelationshipConfig list"
  ic_matching :: "('f, 'd) IcMatchingConfig"

section \<open>Entities\<close>

datatype HyperinflationStatus = NotHyperinflationary | Hyperinflationary

datatype OwnershipChangeType = ControlGained | ControlIncreased | ControlDecreased | ControlLost

datatype NciMeasurementMethod = Proportionate | FullGoodwill

record 'd OwnershipChangeEvent =
  oc_entity_code :: string
  oc_parent_entity_code :: string
  oc_event_type :: OwnershipChangeType
  oc_effective_date :: naive_date
  oc_ownership_percent_before :: 'd
  oc_ownership_percent_after :: 'd
  oc_previously_held_interest_carrying :: "'d option"
  oc_previously_held_interest_fair_value :: "'d option"
  oc_consideration_paid_or_received :: 'd
  oc_acquisition_date_nci_fair_value :: "'d option"
  oc_nci_measurement_method :: NciMeasurementMethod
  oc_currency :: string

definition p_and_l_gain_or_loss :: "'d::linordered_field OwnershipChangeEvent \<Rightarrow> 'd option" where
  "p_and_l_gain_or_loss ev =
     (if oc_event_type ev \<in> {ControlGained, ControlLost}
      then Option.bind (oc_previously_held_interest_carrying ev) (\<lambda>carrying.
             Option.bind (oc_previously_held_interest_fair_value ev) (\<lambda>fv. Some (fv - carrying)))
      else None)"

definition triggers_pl_remeasurement :: "'d OwnershipChangeEvent \<Rightarrow> bool" where
  "triggers_pl_remeasurement ev \<longleftrightarrow> oc_event_type ev \<in> {ControlGained, ControlLost}"

definition triggers_method_transition :: "'d OwnershipChangeEvent \<Rightarrow> bool" where
  "triggers_method_transition ev \<longleftrightarrow> oc_event_type ev \<in> {ControlGained, ControlLost}"

datatype EntitySource = ExplicitEntity | GeneratedEntity

record 'd ExpandedEntity =
  xe_code :: string
  xe_name :: "string option"
  xe_country :: string
  xe_functional_currency :: string
  xe_scoping_profile :: string
  xe_consolidation_method :: ConsolidationMethod
  xe_ownership_percent :: "'d option"
  xe_parent_code :: "string option"
  xe_accounting_framework :: "string option"
  xe_industry :: "string option"
  xe_hyperinflation_status :: HyperinflationStatus
  xe_ownership_changes :: "'d OwnershipChangeEvent list"
  xe_source :: EntitySource
  xe_generated_block_index :: "nat option"
  xe_rows :: "u64 option"

record 'd ManifestEntity =
  me_code :: string
  me_name :: "string option"
  me_country :: string
  me_functional_currency :: string
  me_scoping_profile :: string
  me_consolidation_method :: ConsolidationMethod
  me_ownership_percent :: "'d option"
  me_parent_code :: "string option"
  me_accounting_framework :: "string option"
  me_industry :: "string option"
  me_hyperinflation_status :: HyperinflationStatus
  me_ownership_changes :: "'d OwnershipChangeEvent list"
  me_entity_seed :: string
  me_shard_id :: string

section \<open>Relationships\<close>

datatype IcSource = ExplicitSource | PatternSource

record 'd ResolvedIcRelationship =
  rel_id :: string
  rel_seller :: string
  rel_buyer :: string
  rel_types :: "IcTransactionType list"
  rel_annual_volume :: 'd
  rel_transfer_pricing :: "TransferPricingMethod option"
  rel_markup_percent :: "'d option"
  rel_source :: IcSource
  rel_pattern_index :: "nat option"

fun transaction_type_name :: "IcTransactionType \<Rightarrow> string" where
  "transaction_type_name GoodsSale = ''goods_sale''"
| "transaction_type_name ServiceProvided = ''service_provided''"
| "transaction_type_name ManagementFee = ''management_fee''"
| "transaction_type_name Royalty = ''royalty''"
| "transaction_type_name CostSharing = ''cost_sharing''"
| "transaction_type_name LoanInterest = ''loan_interest''"
| "transaction_type_name Dividend = ''dividend''"
| "transaction_type_name ExpenseRecharge = ''expense_recharge''"

definition relationship_message :: "u64 \<Rightarrow> string \<Rightarrow> string \<Rightarrow> IcTransactionType \<Rightarrow> u8 list" where
  "relationship_message group_seed seller buyer ty =
     as_bytes ''icr'' @ to_le_bytes group_seed @ as_bytes seller @ as_bytes ''|''
       @ as_bytes buyer @ as_bytes ''|'' @ as_bytes (transaction_type_name ty)"

definition hash_id ::
    "(u8 list \<Rightarrow> u8 list) \<Rightarrow> u64 \<Rightarrow> string \<Rightarrow> string \<Rightarrow> IcTransactionType \<Rightarrow> string" where
  "hash_id blake group_seed seller buyer ty =
     ''ICR_'' @ hex_encode (take 8 (blake (relationship_message group_seed seller buyer ty)))"

text \<open>Both constructors take the first type, which the callers have checked to exist.\<close>

definition resolve_explicit ::
    "(u8 list \<Rightarrow> u8 list) \<Rightarrow> u64 \<Rightarrow> 'd IcRelationshipExplicit \<Rightarrow> IcTransactionType
     \<Rightarrow> 'd ResolvedIcRelationship" where
  "resolve_explicit blake group_seed e first_type =
     \<lparr>rel_id = hash_id blake group_seed (ex_seller e) (ex_buyer e) first_type,
      rel_seller = ex_seller e, rel_buyer = ex_buyer e, rel_types = ex_types e,
      rel_annual_volume = ex_annual_volume e, rel_transfer_pricing = ex_transfer_pricing e,
      rel_markup_percent = ex_markup_percent e, rel_source = ExplicitSource,
      rel_pattern_index = None\<rparr>"

definition resolve_pattern ::
    "(u8 list \<Rightarrow> u8 list) \<Rightarrow> u64 \<Rightarrow> 'd IcRelationshipPattern \<Rightarrow> string \<Rightarrow> string \<Rightarrow> nat
     \<Rightarrow> IcTransactionType \<Rightarrow> 'd ResolvedIcRelationship" where
  "resolve_pattern blake group_seed p seller buyer pattern_idx first_type =
     \<lparr>rel_id = hash_id blake group_seed seller buyer first_type,
      rel_seller = seller, rel_buyer = buyer, rel_types = pr_types p,
      rel_annual_volume = pr_per_pair_volume p, rel_transfer_pricing = pr_transfer_pricing p,
      rel_markup_percent = None, rel_source = PatternSource,
      rel_pattern_index = Some pattern_idx\<rparr>"

text \<open>\<^verbatim>\<open>eq_ignore_ascii_case\<close> compares after lowering both sides.\<close>

definition side_matches :: "string option \<Rightarrow> string option \<Rightarrow> 'd ExpandedEntity \<Rightarrow> bool" where
  "side_matches fixed profile e \<longleftrightarrow>
     (case fixed of
        Some code \<Rightarrow> xe_code e = code
      | None \<Rightarrow>
          (case profile of
             None \<Rightarrow> True
           | Some p \<Rightarrow> map ascii_lower p = ''any'' \<or> p = xe_scoping_profile e))"

definition filter_by_pattern_side ::
    "'d ExpandedEntity list \<Rightarrow> string option \<Rightarrow> string option \<Rightarrow> 'd ExpandedEntity list" where
  "filter_by_pattern_side entities fixed profile = filter (side_matches fixed profile) entities"

datatype ExpansionMessage =
    RelationshipHasEmptyTypes
  | RelationshipSelfPair string
  | UnknownSeller string
  | UnknownBuyer string
  | PatternHasEmptyTypes

type_synonym triple = "string \<times> string \<times> IcTransactionType"

text \<open>The first pass: the explicit relationships, with the triples they occupy.\<close>

fun expand_explicit ::
    "(u8 list \<Rightarrow> u8 list) \<Rightarrow> u64 \<Rightarrow> string list \<Rightarrow> 'd IcRelationshipConfig list
     \<Rightarrow> triple list \<Rightarrow> 'd ResolvedIcRelationship list
     \<Rightarrow> (ExpansionMessage GroupError, triple list \<times> 'd ResolvedIcRelationship list) result" where
  "expand_explicit blake sd codes [] seen out = Inr (seen, out)"
| "expand_explicit blake sd codes (Pattern p # rels) seen out =
     expand_explicit blake sd codes rels seen out"
| "expand_explicit blake sd codes (Explicit e # rels) seen out =
     (case ex_types e of
        [] \<Rightarrow> Inl (ConfigError RelationshipHasEmptyTypes)
      | first_type # _ \<Rightarrow>
          if ex_seller e = ex_buyer e then Inl (ConfigError (RelationshipSelfPair (ex_seller e)))
          else if ex_seller e \<notin> set codes then Inl (ConfigError (UnknownSeller (ex_seller e)))
          else if ex_buyer e \<notin> set codes then Inl (ConfigError (UnknownBuyer (ex_buyer e)))
          else expand_explicit blake sd codes rels
                 ((ex_seller e, ex_buyer e, first_type) # seen)
                 (out @ [resolve_explicit blake sd e first_type]))"

text \<open>The body of the two inner loops of the second pass, for one seller and one buyer.\<close>

definition expand_pair ::
    "(u8 list \<Rightarrow> u8 list) \<Rightarrow> u64 \<Rightarrow> nat \<Rightarrow> 'd IcRelationshipPattern \<Rightarrow> IcTransactionType
     \<Rightarrow> triple list \<times> 'd ResolvedIcRelationship list \<Rightarrow> 'd ExpandedEntity \<times> 'd ExpandedEntity
     \<Rightarrow> triple list \<times> 'd ResolvedIcRelationship list" where
  "expand_pair blake sd idx p first_type st sb =
     (case (st, sb) of ((seen, out), (seller, buyer)) \<Rightarrow>
        if xe_code seller = xe_code buyer then (seen, out)
        else if xe_consolidation_method buyer = FairValue then (seen, out)
        else let t = (xe_code seller, xe_code buyer, first_type) in
          if t \<in> set seen then (seen, out)
          else (t # seen,
                out @ [resolve_pattern blake sd p (xe_code seller) (xe_code buyer) idx first_type]))"

definition pattern_pairs ::
    "'d ExpandedEntity list \<Rightarrow> IcPattern \<Rightarrow> ('d ExpandedEntity \<times> 'd ExpandedEntity) list" where
  "pattern_pairs entities pt =
     List.product (filter_by_pattern_side entities (pt_seller pt) (pt_seller_scoping_profile pt))
                  (filter_by_pattern_side entities (pt_buyer pt) (pt_buyer_scoping_profile pt))"

fun expand_patterns ::
    "(u8 list \<Rightarrow> u8 list) \<Rightarrow> u64 \<Rightarrow> 'd ExpandedEntity list \<Rightarrow> nat \<Rightarrow> 'd IcRelationshipConfig list
     \<Rightarrow> triple list \<times> 'd ResolvedIcRelationship list
     \<Rightarrow> (ExpansionMessage GroupError, 'd ResolvedIcRelationship list) result" where
  "expand_patterns blake sd entities idx [] st = Inr (snd st)"
| "expand_patterns blake sd entities idx (Explicit e # rels) st =
     expand_patterns blake sd entities (idx + 1) rels st"
| "expand_patterns blake sd entities idx (Pattern p # rels) st =
     (case pr_types p of
        [] \<Rightarrow> Inl (ConfigError PatternHasEmptyTypes)
      | first_type # _ \<Rightarrow>
          expand_patterns blake sd entities (idx + 1) rels
            (foldl (expand_pair blake sd idx p first_type) st
               (pattern_pairs entities (pr_pattern p))))"

definition expand_ic_relationships ::
    "(u8 list \<Rightarrow> u8 list) \<Rightarrow> ('f, 'd) IntercompanyConfig \<Rightarrow> 'd ExpandedEntity list \<Rightarrow> u64
     \<Rightarrow> (ExpansionMessage GroupError, 'd ResolvedIcRelationship list) result" where
  "expand_ic_relationships blake ic entities sd =
     try_bind (expand_explicit blake sd (map xe_code entities) (ic_relationships ic) [] [])
       (\<lambda>st. expand_patterns blake sd entities 0 (ic_relationships ic) st)"

section \<open>The manifest\<close>

record ManifestPeriod =
  mp_start :: naive_date
  mp_end :: naive_date

record 'd OwnershipGraphSection =
  og_parent_entity_code :: string
  og_entities :: "'d ManifestEntity list"

record ('f, 'd, 'x) GroupManifest =
  gm_schema_version :: string
  gm_group_id :: string
  gm_group_seed :: u64
  gm_presentation_currency :: string
  gm_period :: ManifestPeriod
  gm_manifest_seed :: string
  gm_aggregate_seed :: string
  gm_ownership_graph :: "'d OwnershipGraphSection"
  gm_ic_relationships :: "'d ResolvedIcRelationship list"
  gm_matching :: "('f, 'd) IcMatchingConfig"
  gm_other_plans :: 'x

section \<open>Identifiers\<close>

definition ic_pair_message :: "u64 \<Rightarrow> string \<Rightarrow> u64 \<Rightarrow> u8 list" where
  "ic_pair_message group_seed relationship_id pair_index =
     as_bytes ''ic_pair'' @ to_le_bytes group_seed @ as_bytes relationship_id
       @ to_le_bytes pair_index"

definition derive_ic_pair_id :: "(u8 list \<Rightarrow> u8 list) \<Rightarrow> u64 \<Rightarrow> string \<Rightarrow> u64 \<Rightarrow> u8 list" where
  "derive_ic_pair_id blake group_seed relationship_id pair_index =
     blake (ic_pair_message group_seed relationship_id pair_index)"

text \<open>The other seeds of the tree; \<open>show_date\<close> is the text form of a date.\<close>

definition derive_manifest_seed ::
    "(u8 list \<Rightarrow> u8 list) \<Rightarrow> (naive_date \<Rightarrow> string) \<Rightarrow> u64 \<Rightarrow> naive_date \<Rightarrow> u8 list" where
  "derive_manifest_seed blake show_date group_seed start =
     blake (as_bytes ''manifest'' @ to_le_bytes group_seed @ as_bytes (show_date start))"

definition derive_entity_seed :: "(u8 list \<Rightarrow> u8 list) \<Rightarrow> u64 \<Rightarrow> string \<Rightarrow> u8 list" where
  "derive_entity_seed blake group_seed entity_code =
     blake (as_bytes ''entity'' @ to_le_bytes group_seed @ as_bytes entity_code)"

definition derive_aggregate_seed ::
    "(u8 list \<Rightarrow> u8 list) \<Rightarrow> (naive_date \<Rightarrow> string) \<Rightarrow> u64 \<Rightarrow> naive_date \<Rightarrow> u8 list" where
  "derive_aggregate_seed blake show_date group_seed start =
     blake (as_bytes ''aggregate'' @ to_le_bytes group_seed @ as_bytes (show_date start))"

fun pair_id_bytes :: "IcPairId \<Rightarrow> u8 list" where
  "pair_id_bytes (IcPairId bs) = bs"

definition pair_id_to_hex :: "IcPairId \<Rightarrow> string" where
  "pair_id_to_hex i = hex_encode (pair_id_bytes i)"

text \<open>\<^verbatim>\<open>IcPairId\<close> derives its order from the byte array.\<close>

instantiation IcPairId :: linorder
begin

definition less_eq_IcPairId :: "IcPairId \<Rightarrow> IcPairId \<Rightarrow> bool" where
  "less_eq_IcPairId i j \<longleftrightarrow> pair_id_bytes i \<le> pair_id_bytes j"

definition less_IcPairId :: "IcPairId \<Rightarrow> IcPairId \<Rightarrow> bool" where
  "less_IcPairId i j \<longleftrightarrow> pair_id_bytes i < pair_id_bytes j"

instance
proof
  fix i j :: IcPairId
  show "i \<le> j \<Longrightarrow> j \<le> i \<Longrightarrow> i = j"
    by (cases i; cases j) (simp add: less_eq_IcPairId_def)
qed (auto simp: less_eq_IcPairId_def less_IcPairId_def)

end

datatype PairIdParseError = WrongLength nat | InvalidDigit char

definition pair_hex_digit :: "u8 \<Rightarrow> (PairIdParseError, u8) result" where
  "pair_hex_digit c =
     (if 48 \<le> c \<and> c \<le> 57 then Inr (c - 48)
      else if 97 \<le> c \<and> c \<le> 102 then Inr (c - 97 + 10)
      else if 65 \<le> c \<and> c \<le> 70 then Inr (c - 65 + 10)
      else Inl (InvalidDigit (char_of (unat c))))"

fun pair_hex_loop :: "u8 list \<Rightarrow> (PairIdParseError, u8 list) result" where
  "pair_hex_loop (h # l # rest) =
     try_bind (pair_hex_digit h) (\<lambda>high.
     try_bind (pair_hex_digit l) (\<lambda>low.
     try_bind (pair_hex_loop rest) (\<lambda>out. Inr ((push_bit 4 high OR low) # out))))"
| "pair_hex_loop _ = Inr []"

definition pair_id_from_hex :: "string \<Rightarrow> (PairIdParseError, IcPairId) result" where
  "pair_id_from_hex s =
     (if length s \<noteq> 64 then Inl (WrongLength (length s))
      else try_bind (pair_hex_loop (as_bytes s)) (\<lambda>bs. Inr (IcPairId bs)))"

section \<open>Pair plans\<close>

datatype IcRole = Seller | Buyer

record 'd IcPairPlan =
  pl_pair_id :: IcPairId
  pl_ic_relationship_id :: string
  pl_role :: IcRole
  pl_partner_entity :: string
  pl_transaction_type :: IcTransactionType
  pl_amount :: 'd
  pl_date :: naive_date
  pl_index :: u64

fun avg_amount :: "IcTransactionType \<Rightarrow> 'd::linordered_field" where
  "avg_amount GoodsSale = 50000"
| "avg_amount ServiceProvided = 30000"
| "avg_amount ManagementFee = 25000"
| "avg_amount Royalty = 100000"
| "avg_amount CostSharing = 30000"
| "avg_amount LoanInterest = 10000"
| "avg_amount Dividend = 75000"
| "avg_amount ExpenseRecharge = 20000"

definition compute_pair_count :: "'d::linordered_field group_env \<Rightarrow> 'd \<Rightarrow> 'd \<Rightarrow> u64 option" where
  "compute_pair_count env annual_volume avg =
     (if avg = 0 then None else round_to_u64 env (dec_div env annual_volume avg))"

text \<open>The product saturates at the largest 64-bit value.\<close>

definition spread_date :: "naive_date \<Rightarrow> naive_date \<Rightarrow> u64 \<Rightarrow> u64 \<Rightarrow> naive_date" where
  "spread_date start last_day i n =
     (let period_days = nat (last_day - start) in
      if n \<le> 1 \<or> period_days = 0 then start
      else start + int (min (period_days * unat i) (2 ^ 64 - 1) div unat (n - 1)))"

text \<open>The body of the loop over the relationships.\<close>

definition plans_of_relationship ::
    "'d::linordered_field group_env \<Rightarrow> ('f, 'd, 'x) GroupManifest \<Rightarrow> string
     \<Rightarrow> 'd ResolvedIcRelationship \<Rightarrow> 'd IcPairPlan list" where
  "plans_of_relationship env m entity_code rel =
     (let is_seller = (rel_seller rel = entity_code); is_buyer = (rel_buyer rel = entity_code) in
      if \<not> is_seller \<and> \<not> is_buyer then []
      else (case rel_types rel of
              [] \<Rightarrow> []
            | tx_type # _ \<Rightarrow>
                (let avg = avg_amount tx_type in
                 if avg = 0 then []
                 else (case compute_pair_count env (rel_annual_volume rel) avg of
                         None \<Rightarrow> []
                       | Some n0 \<Rightarrow>
                           (let n = max n0 1 in
                            map (\<lambda>k. let i = word_of_nat k in
                                  \<lparr>pl_pair_id = IcPairId (derive_ic_pair_id (blake3 env)
                                       (gm_group_seed m) (rel_id rel) i),
                                   pl_ic_relationship_id = rel_id rel,
                                   pl_role = (if is_seller then Seller else Buyer),
                                   pl_partner_entity =
                                     (if is_seller then rel_buyer rel else rel_seller rel),
                                   pl_transaction_type = tx_type, pl_amount = avg,
                                   pl_date = spread_date (mp_start (gm_period m))
                                       (mp_end (gm_period m)) i n,
                                   pl_index = i\<rparr>)
                              [0..<unat n])))))"

definition derive_ic_pair_plans ::
    "'d::linordered_field group_env \<Rightarrow> ('f, 'd, 'x) GroupManifest \<Rightarrow> string \<Rightarrow> 'd IcPairPlan list" where
  "derive_ic_pair_plans env m entity_code =
     concat (map (plans_of_relationship env m entity_code) (gm_ic_relationships m))"

section \<open>Injected entries\<close>

fun seller_accounts :: "IcTransactionType \<Rightarrow> string \<times> string" where
  "seller_accounts LoanInterest = (''1150'', ''7000'')"
| "seller_accounts Dividend = (''1000'', ''4900'')"
| "seller_accounts _ = (''1150'', ''4500'')"

fun buyer_accounts :: "IcTransactionType \<Rightarrow> string \<times> string" where
  "buyer_accounts GoodsSale = (''5000'', ''2050'')"
| "buyer_accounts LoanInterest = (''7100'', ''2050'')"
| "buyer_accounts Dividend = (''1000'', ''2050'')"
| "buyer_accounts _ = (''6800'', ''2050'')"

text \<open>The calendar, and the clock and \<^verbatim>\<open>Uuid::now_v7\<close> at the call with a given number.\<close>

record 'ts je_env =
  cal_year :: "naive_date \<Rightarrow> int"
  cal_month :: "naive_date \<Rightarrow> nat"
  now_at :: "nat \<Rightarrow> 'ts"
  uuid_at :: "nat \<Rightarrow> uuid"

fun debug_transaction_type :: "IcTransactionType \<Rightarrow> string" where
  "debug_transaction_type GoodsSale = ''GoodsSale''"
| "debug_transaction_type ServiceProvided = ''ServiceProvided''"
| "debug_transaction_type ManagementFee = ''ManagementFee''"
| "debug_transaction_type Royalty = ''Royalty''"
| "debug_transaction_type CostSharing = ''CostSharing''"
| "debug_transaction_type LoanInterest = ''LoanInterest''"
| "debug_transaction_type Dividend = ''Dividend''"
| "debug_transaction_type ExpenseRecharge = ''ExpenseRecharge''"

text \<open>The text of the header has an arrow, U+2192, between the two entities.\<close>

definition ic_header_text :: "'d IcPairPlan \<Rightarrow> string \<Rightarrow> string" where
  "ic_header_text plan entity_code =
     (let (from, to) = (case pl_role plan of
                          Seller \<Rightarrow> (entity_code, pl_partner_entity plan)
                        | Buyer \<Rightarrow> (pl_partner_entity plan, entity_code))
      in ''IC '' @ debug_transaction_type (pl_transaction_type plan) @ '': '' @ from @ '' ''
           @ [CHR 0xE2, CHR 0x86, CHR 0x92] @ '' '' @ to @ '' (pair ''
           @ show_nat (unat (pl_index plan)) @ '')'')"

definition build_je_for_plan ::
    "'ts je_env \<Rightarrow> nat \<Rightarrow> 'd::linordered_field IcPairPlan \<Rightarrow> string
     \<Rightarrow> (naive_date, 'ts, 'd, 'wf) JournalEntry" where
  "build_je_for_plan je k plan entity_code =
     (let (dr_acct, cr_acct) = (case pl_role plan of
                                  Seller \<Rightarrow> seller_accounts (pl_transaction_type plan)
                                | Buyer \<Rightarrow> buyer_accounts (pl_transaction_type plan));
          h = (new_header (cal_year je) (cal_month je) (now_at je k) (uuid_at je k) entity_code
                 (pl_date plan))
                \<lparr>ic_pair_id := Some (pl_pair_id plan),
                 ic_partner_entity := Some (pl_partner_entity plan),
                 header_text := Some (ic_header_text plan entity_code)\<rparr>;
          e = new_entry h;
          doc_id = document_id (header e)
      in add_line (add_line e (debit_line doc_id 1 dr_acct (pl_amount plan)))
           (credit_line doc_id 2 cr_acct (pl_amount plan)))"

definition inject_ic_journal_entries ::
    "'ts je_env \<Rightarrow> 'd::linordered_field IcPairPlan list \<Rightarrow> string
     \<Rightarrow> (naive_date, 'ts, 'd, 'wf) JournalEntry list" where
  "inject_ic_journal_entries je plans entity_code =
     map (\<lambda>(k, plan). build_je_for_plan je k plan entity_code) (enumerate 0 plans)"

section \<open>Identifiers are injective\<close>

lemma to_le_bytes_inj: "to_le_bytes v = to_le_bytes w \<Longrightarrow> v = w"
proof -
  assume eq: "to_le_bytes v = to_le_bytes w"
  have byte: "(ucast (drop_bit (8 * i) v) :: u8) = ucast (drop_bit (8 * i) w)" if "i < 8" for i
    using arg_cong[OF eq, of "\<lambda>bs. bs ! i"] that by (simp add: to_le_bytes_def del: upt_rec_numeral)
  show "v = w"
  proof (rule bit_word_eqI)
    fix n assume "n < LENGTH(64)"
    then have "n div 8 < 8" by simp
    from arg_cong[OF byte[OF this], of "\<lambda>b. bit b (n mod 8)"]
    show "bit v n \<longleftrightarrow> bit w n"
      by (simp add: bit_ucast_iff bit_drop_bit_eq)
  qed
qed

lemma as_bytes_inj: "as_bytes s = as_bytes t \<Longrightarrow> s = t"
proof (rule map_injective)
  show "inj (of_char :: char \<Rightarrow> u8)"
    by (rule injI) (metis unat_of_char char_of_char)
qed

lemma ic_pair_message_inj:
  "ic_pair_message sd i k = ic_pair_message sd' i' k' \<longleftrightarrow> sd = sd' \<and> i = i' \<and> k = k'"
proof
  assume eq: "ic_pair_message sd i k = ic_pair_message sd' i' k'"
  then have "to_le_bytes sd = to_le_bytes sd'"
    by (simp add: ic_pair_message_def)
  moreover have tail: "as_bytes i @ to_le_bytes k = as_bytes i' @ to_le_bytes k'"
    using eq by (simp add: ic_pair_message_def)
  then have "to_le_bytes k = to_le_bytes k'" "as_bytes i = as_bytes i'"
    by (simp_all add: append_eq_append_conv)
  ultimately show "sd = sd' \<and> i = i' \<and> k = k'"
    using to_le_bytes_inj as_bytes_inj by blast
qed simp

text \<open>The inputs of the four kinds of seeds never coincide.\<close>

lemma seed_inputs_separate:
  "ic_pair_message sd i k \<noteq> as_bytes ''entity'' @ bs" "ic_pair_message sd i k \<noteq> as_bytes ''manifest'' @ bs"
  "ic_pair_message sd i k \<noteq> as_bytes ''aggregate'' @ bs" "as_bytes ''entity'' @ bs \<noteq> as_bytes ''manifest'' @ cs"
  "as_bytes ''entity'' @ bs \<noteq> as_bytes ''aggregate'' @ cs"
  "as_bytes ''manifest'' @ bs \<noteq> as_bytes ''aggregate'' @ cs"
  by (simp_all add: ic_pair_message_def)

text \<open>The hexadecimal text of a pair identifier reads back.\<close>

lemma pair_hex_digit_eq:
  "pair_hex_digit c = (case ascii_hex_to_nibble c of Inl _ \<Rightarrow> Inl (InvalidDigit (char_of (unat c))) | Inr n \<Rightarrow> Inr n)"
  by (simp add: pair_hex_digit_def ascii_hex_to_nibble_def)

lemma pair_hex_loop_encode: "pair_hex_loop (as_bytes (hex_encode bs)) = Inr bs"
  by (induction bs) (auto simp: pair_hex_digit_eq hex_digit_ok nibble_less join_nibbles)

lemma pair_id_hex_roundtrip:
  "length bs = 32 \<Longrightarrow> pair_id_from_hex (pair_id_to_hex (IcPairId bs)) = Inr (IcPairId bs)"
  by (simp add: pair_id_from_hex_def pair_id_to_hex_def pair_hex_loop_encode)

section \<open>Plans\<close>

text \<open>The number of pairs of a relationship, and the plan of one side of one pair.\<close>

definition pair_count :: "'d::linordered_field group_env \<Rightarrow> 'd ResolvedIcRelationship \<Rightarrow> u64" where
  "pair_count env rel =
     (case rel_types rel of
        [] \<Rightarrow> 0
      | tx # _ \<Rightarrow> (case compute_pair_count env (rel_annual_volume rel) (avg_amount tx) of
                   None \<Rightarrow> 0 | Some n0 \<Rightarrow> max n0 1))"

definition side_plan ::
    "'d::linordered_field group_env \<Rightarrow> ('f, 'd, 'x) GroupManifest \<Rightarrow> 'd ResolvedIcRelationship
     \<Rightarrow> IcRole \<Rightarrow> nat \<Rightarrow> 'd IcPairPlan" where
  "side_plan env m rel role k =
     \<lparr>pl_pair_id = IcPairId (derive_ic_pair_id (blake3 env) (gm_group_seed m) (rel_id rel) (word_of_nat k)),
      pl_ic_relationship_id = rel_id rel, pl_role = role,
      pl_partner_entity = (case role of Seller \<Rightarrow> rel_buyer rel | Buyer \<Rightarrow> rel_seller rel),
      pl_transaction_type = hd (rel_types rel), pl_amount = avg_amount (hd (rel_types rel)),
      pl_date = spread_date (mp_start (gm_period m)) (mp_end (gm_period m)) (word_of_nat k)
                  (pair_count env rel),
      pl_index = word_of_nat k\<rparr>"

definition side_plans ::
    "'d::linordered_field group_env \<Rightarrow> ('f, 'd, 'x) GroupManifest \<Rightarrow> 'd ResolvedIcRelationship
     \<Rightarrow> IcRole \<Rightarrow> 'd IcPairPlan list" where
  "side_plans env m rel role = map (side_plan env m rel role) [0..<unat (pair_count env rel)]"

lemma avg_amount_pos [simp]: "0 < (avg_amount t :: 'd::linordered_field)"
  by (cases t) simp_all

lemma avg_amount_neq_0 [simp]: "(avg_amount t :: 'd::linordered_field) \<noteq> 0"
  by (cases t) simp_all

lemma plans_of_relationship_eq:
  "plans_of_relationship env m e rel =
     (if rel_seller rel = e then side_plans env m rel Seller
      else if rel_buyer rel = e then side_plans env m rel Buyer else [])"
  by (auto simp: plans_of_relationship_def side_plans_def side_plan_def pair_count_def Let_def
      split: list.split option.split)

lemma side_plan_simps [simp]:
  "pl_role (side_plan env m rel role k) = role"
  "pl_partner_entity (side_plan env m rel Seller k) = rel_buyer rel"
  "pl_partner_entity (side_plan env m rel Buyer k) = rel_seller rel"
  "pl_transaction_type (side_plan env m rel role k) = hd (rel_types rel)"
  "pl_amount (side_plan env m rel role k) = avg_amount (hd (rel_types rel))"
  "pl_ic_relationship_id (side_plan env m rel role k) = rel_id rel"
  "pl_pair_id (side_plan env m rel role k) =
     IcPairId (derive_ic_pair_id (blake3 env) (gm_group_seed m) (rel_id rel) (word_of_nat k))"
  by (simp_all add: side_plan_def)

lemma in_side_plans:
  "p \<in> set (side_plans env m rel role) \<longleftrightarrow>
     (\<exists>k < unat (pair_count env rel). p = side_plan env m rel role k)"
  by (auto simp: side_plans_def)

lemma in_derived_plans:
  "p \<in> set (derive_ic_pair_plans env m e) \<longleftrightarrow>
     (\<exists>rel \<in> set (gm_ic_relationships m). \<exists>k < unat (pair_count env rel).
        rel_seller rel = e \<and> p = side_plan env m rel Seller k
        \<or> rel_seller rel \<noteq> e \<and> rel_buyer rel = e \<and> p = side_plan env m rel Buyer k)"
  by (auto simp: derive_ic_pair_plans_def plans_of_relationship_eq in_side_plans split: if_splits)

text \<open>The messages that the pairs of a manifest hash.\<close>

definition ic_pair_messages ::
    "'d::linordered_field group_env \<Rightarrow> ('f, 'd, 'x) GroupManifest \<Rightarrow> u8 list set" where
  "ic_pair_messages env m =
     (\<Union>rel \<in> set (gm_ic_relationships m).
        (\<lambda>k. ic_pair_message (gm_group_seed m) (rel_id rel) (word_of_nat k))
          ` {..<unat (pair_count env rel)})"

lemma unat_less_2p64: "unat (w :: u64) < 18446744073709551616"
  using unsigned_less[of w, where 'a = nat] by simp

lemma word_of_nat_index_inj:
  assumes "k < unat (n :: u64)" "k' < unat (n' :: u64)"
  shows "(word_of_nat k :: u64) = word_of_nat k' \<longleftrightarrow> k = k'"
proof -
  have "k < 18446744073709551616" "k' < 18446744073709551616"
    using assms unat_less_2p64[of n] unat_less_2p64[of n'] by linarith+
  then show ?thesis by (simp add: word_of_nat_eq_iff take_bit_nat_eq_self)
qed

lemma pair_id_eq_iff:
  assumes "inj_on (blake3 env) (ic_pair_messages env m)"
    and "rel \<in> set (gm_ic_relationships m)" "k < unat (pair_count env rel)"
    and "rel' \<in> set (gm_ic_relationships m)" "k' < unat (pair_count env rel')"
  shows "pl_pair_id (side_plan env m rel role k) = pl_pair_id (side_plan env m rel' role' k')
           \<longleftrightarrow> rel_id rel = rel_id rel' \<and> k = k'"
proof -
  have "ic_pair_message (gm_group_seed m) (rel_id rel) (word_of_nat k) \<in> ic_pair_messages env m"
    "ic_pair_message (gm_group_seed m) (rel_id rel') (word_of_nat k') \<in> ic_pair_messages env m"
    using assms(2-5) unfolding ic_pair_messages_def by blast+
  then show ?thesis
    using inj_on_eq_iff[OF assms(1)] word_of_nat_index_inj[OF assms(3,5)]
    by (auto simp: derive_ic_pair_id_def ic_pair_message_inj)
qed

section \<open>Dates\<close>

lemma spread_date_offset:
  assumes "k < unat (n :: u64)"
  shows "min (d * unat (word_of_nat k :: u64)) (2 ^ 64 - 1) div unat (n - 1) \<le> d"
proof -
  have k: "unat (word_of_nat k :: u64) = k"
    using assms unat_less_2p64[of n] by (simp add: unat_of_nat take_bit_nat_eq_self)
  have "n \<noteq> 0" using assms by auto
  then have n: "unat (n - 1) = unat n - 1" by (simp add: unat_minus_one)
  have "d * k \<le> d * (unat n - 1)"
    using assms by (intro mult_le_mono2) simp
  then have "min (d * k) (2 ^ 64 - 1) div (unat n - 1) \<le> (d * (unat n - 1)) div (unat n - 1)"
    by (intro div_le_mono min.coboundedI1)
  also have "\<dots> \<le> d" by simp
  finally show ?thesis by (simp add: k n)
qed

text \<open>A date of the plan lies in the period, the first is its start, and later pairs are not
  earlier.\<close>

lemma spread_date_in_period:
  assumes "k < unat n" "start \<le> last_day"
  shows "start \<le> spread_date start last_day (word_of_nat k) n"
    and "spread_date start last_day (word_of_nat k) n \<le> last_day"
  using spread_date_offset[OF assms(1), of "nat (last_day - start)"] assms(2)
  by (auto simp: spread_date_def Let_def)

lemma spread_date_first [simp]: "spread_date start last_day 0 n = start"
  by (simp add: spread_date_def Let_def)

lemma spread_date_mono:
  assumes "i \<le> j"
  shows "spread_date start last_day i n \<le> spread_date start last_day j n"
proof -
  have "unat i \<le> unat j" using assms by (simp add: word_le_nat_alt)
  then have "min (d * unat i) (2 ^ 64 - 1) div c \<le> min (d * unat j) (2 ^ 64 - 1) div c" for c d :: nat
    by (intro div_le_mono min.mono mult_le_mono2) simp_all
  then show ?thesis by (simp add: spread_date_def Let_def)
qed

text \<open>Without saturation the last pair falls on the last day.\<close>

lemma spread_date_last:
  assumes "1 < n" "start \<le> last_day" "nat (last_day - start) * unat (n - 1) < 2 ^ 64"
  shows "spread_date start last_day (n - 1) n = last_day"
proof -
  have "n - 1 \<noteq> 0" using assms(1) by auto
  then have "0 < unat (n - 1)" by (simp add: unat_gt_0)
  then show ?thesis
    using assms by (auto simp: spread_date_def Let_def min_def not_le not_less)
qed

section \<open>Injected entries\<close>

lemma build_je_fields [simp]:
  "ic_pair_id (header (build_je_for_plan je k plan e)) = Some (pl_pair_id plan)"
  "ic_partner_entity (header (build_je_for_plan je k plan e)) = Some (pl_partner_entity plan)"
  "company_code (header (build_je_for_plan je k plan e)) = e"
  "posting_date (header (build_je_for_plan je k plan e)) = pl_date plan"
  "is_elimination (header (build_je_for_plan je k plan e)) = False"
  by (simp_all add: build_je_for_plan_def new_entry_def add_line_def new_header_def Let_def
      split: prod.split)

definition plan_accounts :: "'d IcPairPlan \<Rightarrow> string \<times> string" where
  "plan_accounts plan =
     (case pl_role plan of Seller \<Rightarrow> seller_accounts (pl_transaction_type plan)
                         | Buyer \<Rightarrow> buyer_accounts (pl_transaction_type plan))"

lemma build_je_lines:
  "map (\<lambda>l. (gl_account l, debit_amount l, credit_amount l)) (lines (build_je_for_plan je k plan e)) =
     [(fst (plan_accounts plan), pl_amount plan, 0), (snd (plan_accounts plan), 0, pl_amount plan)]"
  by (simp add: build_je_for_plan_def plan_accounts_def new_entry_def add_line_def Let_def
      debit_line_def credit_line_def split: prod.split)

lemma build_je_totals [simp]:
  "total_debit (build_je_for_plan je k plan e) = pl_amount plan"
  "total_credit (build_je_for_plan je k plan e) = pl_amount plan"
  by (simp_all add: build_je_for_plan_def total_debit_def total_credit_def new_entry_def
      add_line_def Let_def debit_line_def credit_line_def split: prod.split)

lemma length_inject [simp]: "length (inject_ic_journal_entries je plans e) = length plans"
  by (simp add: inject_ic_journal_entries_def)

lemma inject_nth:
  "k < length plans \<Longrightarrow>
     inject_ic_journal_entries je plans e ! k = build_je_for_plan je k (plans ! k) e"
  by (simp add: inject_ic_journal_entries_def nth_enumerate_eq)

lemma injected_is_balanced: "x \<in> set (inject_ic_journal_entries je plans e) \<Longrightarrow> is_balanced x"
  by (auto simp: inject_ic_journal_entries_def is_balanced_def)

section \<open>Expansion of relationships\<close>

definition rel_triple :: "'d ResolvedIcRelationship \<Rightarrow> triple" where
  "rel_triple r = (rel_seller r, rel_buyer r, hd (rel_types r))"

text \<open>What the configuration asks for: the triples of the explicit relationships in order, and
  the triples of a list of entity pairs under a pattern.\<close>

fun explicit_triples :: "'d IcRelationshipConfig list \<Rightarrow> triple list" where
  "explicit_triples [] = []"
| "explicit_triples (Explicit e # rels) =
     (ex_seller e, ex_buyer e, hd (ex_types e)) # explicit_triples rels"
| "explicit_triples (Pattern p # rels) = explicit_triples rels"

definition eligible :: "'d ExpandedEntity \<times> 'd ExpandedEntity \<Rightarrow> bool" where
  "eligible sb \<longleftrightarrow> xe_code (fst sb) \<noteq> xe_code (snd sb)
                  \<and> xe_consolidation_method (snd sb) \<noteq> FairValue"

definition wanted_triples ::
    "IcTransactionType \<Rightarrow> ('d ExpandedEntity \<times> 'd ExpandedEntity) list \<Rightarrow> triple set" where
  "wanted_triples ty sbs =
     (\<lambda>sb. (xe_code (fst sb), xe_code (snd sb), ty)) ` {sb \<in> set sbs. eligible sb}"

fun pattern_triples :: "'d ExpandedEntity list \<Rightarrow> 'd IcRelationshipConfig list \<Rightarrow> triple set" where
  "pattern_triples entities [] = {}"
| "pattern_triples entities (Explicit e # rels) = pattern_triples entities rels"
| "pattern_triples entities (Pattern p # rels) =
     wanted_triples (hd (pr_types p)) (pattern_pairs entities (pr_pattern p))
       \<union> pattern_triples entities rels"

definition rel_ok :: "(u8 list \<Rightarrow> u8 list) \<Rightarrow> u64 \<Rightarrow> string set \<Rightarrow> 'd ResolvedIcRelationship \<Rightarrow> bool" where
  "rel_ok blake sd codes r \<longleftrightarrow>
     rel_types r \<noteq> [] \<and> rel_seller r \<noteq> rel_buyer r \<and> rel_seller r \<in> codes \<and> rel_buyer r \<in> codes
     \<and> rel_id r = hash_id blake sd (rel_seller r) (rel_buyer r) (hd (rel_types r))"

lemma expand_explicit_spec:
  assumes "expand_explicit blake sd codes rels seen out = Inr (seen', out')"
  shows "\<exists>new. out' = out @ new \<and> map rel_triple new = explicit_triples rels
           \<and> set seen' = set seen \<union> set (explicit_triples rels)
           \<and> (\<forall>r \<in> set new. rel_source r = ExplicitSource \<and> rel_ok blake sd (set codes) r)"
  using assms
proof (induction blake sd codes rels seen out rule: expand_explicit.induct)
  case (3 blake sd codes e rels seen out)
  obtain ty tys where t: "ex_types e = ty # tys"
    using "3.prems" by (cases "ex_types e") auto
  then have ok: "ex_seller e \<noteq> ex_buyer e" "ex_seller e \<in> set codes" "ex_buyer e \<in> set codes"
    using "3.prems" by (auto split: if_splits)
  obtain new where new: "out' = (out @ [resolve_explicit blake sd e ty]) @ new"
      "map rel_triple new = explicit_triples rels"
      "set seen' = set ((ex_seller e, ex_buyer e, ty) # seen) \<union> set (explicit_triples rels)"
      "\<forall>r \<in> set new. rel_source r = ExplicitSource \<and> rel_ok blake sd (set codes) r"
    using "3.IH"[OF t] "3.prems" t ok by auto
  have "rel_triple (resolve_explicit blake sd e ty) = (ex_seller e, ex_buyer e, ty)"
    "rel_source (resolve_explicit blake sd e ty) = ExplicitSource"
    "rel_ok blake sd (set codes) (resolve_explicit blake sd e ty)"
    using t ok by (simp_all add: rel_triple_def resolve_explicit_def rel_ok_def)
  then show ?case
    using new t by (intro exI[of _ "resolve_explicit blake sd e ty # new"]) auto
qed auto

lemma expand_pair_cases:
  "expand_pair blake sd idx p ty (seen, out) sb =
     (if eligible sb \<and> (xe_code (fst sb), xe_code (snd sb), ty) \<notin> set seen
      then ((xe_code (fst sb), xe_code (snd sb), ty) # seen,
            out @ [resolve_pattern blake sd p (xe_code (fst sb)) (xe_code (snd sb)) idx ty])
      else (seen, out))"
  by (cases sb) (simp add: expand_pair_def eligible_def Let_def)

lemma expand_pair_fold:
  assumes "foldl (expand_pair blake sd idx p ty) (seen, out) sbs = (seen', out')"
    and "pr_types p = ty # tys"
  shows "\<exists>new. out' = out @ new \<and> set seen' = set seen \<union> wanted_triples ty sbs
           \<and> distinct (map rel_triple new)
           \<and> set (map rel_triple new) = wanted_triples ty sbs - set seen
           \<and> (\<forall>r \<in> set new. rel_source r = PatternSource
                \<and> rel_ok blake sd (xe_code ` (fst ` set sbs \<union> snd ` set sbs)) r)"
  using assms(1)
proof (induction sbs arbitrary: seen out)
  case (Cons sb sbs)
  let ?t = "(xe_code (fst sb), xe_code (snd sb), ty)"
  show ?case
  proof (cases "eligible sb \<and> ?t \<notin> set seen")
    case True
    let ?r = "resolve_pattern blake sd p (xe_code (fst sb)) (xe_code (snd sb)) idx ty"
    obtain new where new: "out' = (out @ [?r]) @ new"
        "set seen' = set (?t # seen) \<union> wanted_triples ty sbs" "distinct (map rel_triple new)"
        "set (map rel_triple new) = wanted_triples ty sbs - set (?t # seen)"
        "\<forall>r \<in> set new. rel_source r = PatternSource
           \<and> rel_ok blake sd (xe_code ` (fst ` set sbs \<union> snd ` set sbs)) r"
      using Cons.IH[of "?t # seen" "out @ [?r]"] Cons.prems True by (auto simp: expand_pair_cases)
    have r: "rel_triple ?r = ?t" "rel_source ?r = PatternSource"
      using assms(2) by (simp_all add: rel_triple_def resolve_pattern_def)
    have "rel_ok blake sd (xe_code ` (fst ` set (sb # sbs) \<union> snd ` set (sb # sbs))) ?r"
      using assms(2) True by (auto simp: rel_ok_def resolve_pattern_def eligible_def)
    moreover have "\<forall>r \<in> set new. rel_ok blake sd (xe_code ` (fst ` set (sb # sbs) \<union> snd ` set (sb # sbs))) r"
      using new(5) by (auto simp: rel_ok_def)
    moreover have "wanted_triples ty (sb # sbs) = insert ?t (wanted_triples ty sbs)"
      using True by (auto simp: wanted_triples_def)
    ultimately show ?thesis
      using new r True by (intro exI[of _ "?r # new"]) auto
  next
    case False
    then have step: "expand_pair blake sd idx p ty (seen, out) sb = (seen, out)"
      by (simp add: expand_pair_cases)
    have w: "wanted_triples ty (sb # sbs) =
        (if eligible sb then insert ?t (wanted_triples ty sbs) else wanted_triples ty sbs)"
      by (auto simp: wanted_triples_def)
    have "rel_ok blake sd (xe_code ` (fst ` set sbs \<union> snd ` set sbs)) r \<Longrightarrow>
        rel_ok blake sd (xe_code ` (fst ` set (sb # sbs) \<union> snd ` set (sb # sbs))) r" for r
      by (auto simp: rel_ok_def)
    then show ?thesis
      using Cons.IH[of seen out] Cons.prems step False w by (auto split: if_splits)
  qed
qed (auto simp: wanted_triples_def)

lemma pattern_pairs_subset:
  "fst ` set (pattern_pairs entities pt) \<union> snd ` set (pattern_pairs entities pt) \<subseteq> set entities"
  by (auto simp: pattern_pairs_def filter_by_pattern_side_def)

lemma rel_ok_mono: "rel_ok blake sd C r \<Longrightarrow> C \<subseteq> D \<Longrightarrow> rel_ok blake sd D r"
  by (auto simp: rel_ok_def)

lemma expand_patterns_spec:
  assumes "expand_patterns blake sd entities idx rels (seen, out) = Inr out'"
  shows "\<exists>new. out' = out @ new \<and> distinct (map rel_triple new)
           \<and> set (map rel_triple new) = pattern_triples entities rels - set seen
           \<and> (\<forall>r \<in> set new. rel_source r = PatternSource
                \<and> rel_ok blake sd (xe_code ` set entities) r)"
  using assms
proof (induction rels arbitrary: idx seen out)
  case (Cons c rels)
  show ?case
  proof (cases c)
    case (Pattern p)
    obtain ty tys where t: "pr_types p = ty # tys"
      using Cons.prems Pattern by (cases "pr_types p") auto
    let ?sbs = "pattern_pairs entities (pr_pattern p)"
    obtain seen1 out1 where f: "foldl (expand_pair blake sd idx p ty) (seen, out) ?sbs = (seen1, out1)"
      by force
    obtain new1 where new1: "out1 = out @ new1" "set seen1 = set seen \<union> wanted_triples ty ?sbs"
        "distinct (map rel_triple new1)" "set (map rel_triple new1) = wanted_triples ty ?sbs - set seen"
        "\<forall>r \<in> set new1. rel_source r = PatternSource
           \<and> rel_ok blake sd (xe_code ` (fst ` set ?sbs \<union> snd ` set ?sbs)) r"
      using expand_pair_fold[OF f t] by blast
    obtain new2 where new2: "out' = out1 @ new2" "distinct (map rel_triple new2)"
        "set (map rel_triple new2) = pattern_triples entities rels - set seen1"
        "\<forall>r \<in> set new2. rel_source r = PatternSource \<and> rel_ok blake sd (xe_code ` set entities) r"
      using Cons.IH[of "idx + 1" seen1 out1] Cons.prems Pattern t f by auto
    have ok1: "\<forall>r \<in> set new1. rel_source r = PatternSource \<and> rel_ok blake sd (xe_code ` set entities) r"
      using new1(5) rel_ok_mono[OF _ image_mono[OF pattern_pairs_subset]] by blast
    have "distinct (map rel_triple (new1 @ new2))"
      using new1(2-4) new2(2,3) by auto
    moreover have "set (map rel_triple (new1 @ new2)) = pattern_triples entities (c # rels) - set seen"
      unfolding map_append set_append new1(4) new2(3) new1(2) using Pattern t by auto
    ultimately show ?thesis
      using ok1 new2(4) new1(1) new2(1) by (intro exI[of _ "new1 @ new2"]) auto
  qed (use Cons in auto)
qed auto

section \<open>Properties\<close>

text \<open>When the expansion succeeds, it returns the explicit relationships in order, followed by
  pattern relationships whose triples of seller, buyer and first type are exactly the triples
  that some pattern asks for and no explicit relationship occupies, each once. Every
  relationship has two different known entities, at least one type, and the hash of its triple
  as its id.\<close>

theorem ic_expansion_exact:
  assumes "expand_ic_relationships blake ic entities sd = Inr rels"
  shows "\<exists>ex pat. rels = ex @ pat
      \<and> map rel_triple ex = explicit_triples (ic_relationships ic)
      \<and> distinct (map rel_triple pat)
      \<and> set (map rel_triple pat) =
          pattern_triples entities (ic_relationships ic) - set (explicit_triples (ic_relationships ic))
      \<and> (\<forall>r \<in> set rels. rel_ok blake sd (xe_code ` set entities) r)
      \<and> (\<forall>r \<in> set ex. rel_source r = ExplicitSource) \<and> (\<forall>r \<in> set pat. rel_source r = PatternSource)"
proof -
  let ?cs = "ic_relationships ic"
  obtain seen out where e: "expand_explicit blake sd (map xe_code entities) ?cs [] [] = Inr (seen, out)"
      and p: "expand_patterns blake sd entities 0 ?cs (seen, out) = Inr rels"
    using assms by (auto simp: expand_ic_relationships_def result_simps)
  obtain ex where ex: "out = ex" "map rel_triple ex = explicit_triples ?cs"
      "set seen = set (explicit_triples ?cs)"
      "\<forall>r \<in> set ex. rel_source r = ExplicitSource \<and> rel_ok blake sd (xe_code ` set entities) r"
    using expand_explicit_spec[OF e] by auto
  obtain pat where "rels = out @ pat" "distinct (map rel_triple pat)"
      "set (map rel_triple pat) = pattern_triples entities ?cs - set seen"
      "\<forall>r \<in> set pat. rel_source r = PatternSource \<and> rel_ok blake sd (xe_code ` set entities) r"
    using expand_patterns_spec[OF p] by blast
  then show ?thesis
    using ex by (intro exI[of _ ex] exI[of _ pat]) auto
qed

text \<open>The first pass does not look into the occupied triples: two explicit relationships with
  the same triple are both kept, and have the same id.\<close>

lemma duplicate_explicit_kept:
  fixes e :: "'d IcRelationshipExplicit"
  assumes "ex_types e = ty # tys" "ex_seller e \<noteq> ex_buyer e" "ex_seller e \<in> xe_code ` set entities"
    and "ex_buyer e \<in> xe_code ` set entities" "ic_relationships ic = [Explicit e, Explicit e]"
  shows "expand_ic_relationships blake ic entities sd =
           Inr [resolve_explicit blake sd e ty, resolve_explicit blake sd e ty]"
  using assms by (simp add: expand_ic_relationships_def)

text \<open>C39. The shard of the seller and the shard of the buyer derive the same pairs: the buyer's
  plans with the seller are the seller's plans with the buyer, in the same order and with the
  same identifiers, amounts, types and dates, only role and partner swapped.\<close>

theorem ic_plans_mirror:
  assumes "a \<noteq> b"
  shows "map (\<lambda>p. p\<lparr>pl_role := Buyer, pl_partner_entity := a\<rparr>)
           (filter (\<lambda>p. pl_role p = Seller \<and> pl_partner_entity p = b) (derive_ic_pair_plans env m a))
         = filter (\<lambda>p. pl_role p = Buyer \<and> pl_partner_entity p = a) (derive_ic_pair_plans env m b)"
proof -
  have side: "map (\<lambda>p. p\<lparr>pl_role := Buyer, pl_partner_entity := rel_seller rel\<rparr>)
                (side_plans env m rel Seller) = side_plans env m rel Buyer" for rel
    by (simp add: side_plans_def side_plan_def comp_def)
  have all: "filter (\<lambda>p. pl_role p = Seller \<and> pl_partner_entity p = b) (side_plans env m rel Seller)
      = (if rel_buyer rel = b then side_plans env m rel Seller else [])"
    "filter (\<lambda>p. pl_role p = Buyer \<and> pl_partner_entity p = a) (side_plans env m rel Buyer)
      = (if rel_seller rel = a then side_plans env m rel Buyer else [])"
    "filter (\<lambda>p. pl_role p = Seller \<and> pl_partner_entity p = b) (side_plans env m rel Buyer) = []"
    "filter (\<lambda>p. pl_role p = Buyer \<and> pl_partner_entity p = a) (side_plans env m rel Seller) = []"
    for rel by (auto simp: side_plans_def filter_empty_conv)
  have "map (\<lambda>p. p\<lparr>pl_role := Buyer, pl_partner_entity := a\<rparr>)
          (filter (\<lambda>p. pl_role p = Seller \<and> pl_partner_entity p = b) (plans_of_relationship env m a rel))
        = filter (\<lambda>p. pl_role p = Buyer \<and> pl_partner_entity p = a) (plans_of_relationship env m b rel)"
    for rel
    using assms side[of rel] by (auto simp: plans_of_relationship_eq all)
  then show ?thesis
    by (induction "gm_ic_relationships m") (simp_all add: derive_ic_pair_plans_def filter_concat map_concat comp_def)
qed

section \<open>Concrete instances\<close>

text \<open>A group of two entities with one relationship of two pairs; the identity stands for a
  digest without collisions.\<close>

definition sample_group_env :: "rat group_env" where
  "sample_group_env =
     \<lparr>blake3 = (\<lambda>bs. bs), dec_div = (/),
      round_to_u64 = (\<lambda>x. if x < 0 then None else Some (word_of_int \<lfloor>x + 1 / 2\<rfloor>))\<rparr>"

definition sample_entity :: "string \<Rightarrow> rat ExpandedEntity" where
  "sample_entity code =
     \<lparr>xe_code = code, xe_name = None, xe_country = ''CH'', xe_functional_currency = ''CHF'',
      xe_scoping_profile = ''significant'', xe_consolidation_method = Full,
      xe_ownership_percent = Some (4 / 5), xe_parent_code = None, xe_accounting_framework = None,
      xe_industry = None, xe_hyperinflation_status = NotHyperinflationary,
      xe_ownership_changes = [], xe_source = ExplicitEntity, xe_generated_block_index = None,
      xe_rows = None\<rparr>"

definition sample_ic_config :: "(rat, rat) IntercompanyConfig" where
  "sample_ic_config =
     \<lparr>ic_relationships =
        [Pattern \<lparr>pr_pattern = \<lparr>pt_seller_scoping_profile = Some ''ANY'',
                    pt_buyer_scoping_profile = Some ''significant'', pt_seller = None, pt_buyer = None\<rparr>,
                  pr_types = [GoodsSale], pr_per_pair_volume = 100000, pr_transfer_pricing = None\<rparr>,
         Explicit \<lparr>ex_seller = ''A'', ex_buyer = ''B'', ex_types = [GoodsSale],
                   ex_annual_volume = 100000, ex_transfer_pricing = None, ex_markup_percent = None\<rparr>],
      ic_matching = default_matching\<rparr>"

lemma any_profile:
  "ascii_lower CHR ''A'' = CHR ''a''" "ascii_lower CHR ''N'' = CHR ''n''" "ascii_lower CHR ''Y'' = CHR ''y''"
  by code_simp+

lemma sample_entity_simps:
  "xe_code (sample_entity c) = c" "xe_scoping_profile (sample_entity c) = ''significant''"
  "xe_consolidation_method (sample_entity c) = Full"
  by (simp_all add: sample_entity_def)

lemma wanted_triples_code:
  "wanted_triples ty sbs = set (map (\<lambda>sb. (xe_code (fst sb), xe_code (snd sb), ty)) (filter eligible sbs))"
  by (auto simp: wanted_triples_def)

lemma ic_expansion_exact_witness:
  "\<exists>rels ex pat. expand_ic_relationships (\<lambda>bs. bs) sample_ic_config
        [sample_entity ''A'', sample_entity ''B''] 7 = Inr rels
     \<and> rels = ex @ pat \<and> map rel_triple ex = [(''A'', ''B'', GoodsSale)]
     \<and> set (map rel_triple pat) = {(''B'', ''A'', GoodsSale)}"
proof -
  let ?es = "[sample_entity ''A'', sample_entity ''B'']"
  obtain rels where r: "expand_ic_relationships (\<lambda>bs. bs) sample_ic_config ?es 7 = Inr rels"
    by (simp add: expand_ic_relationships_def sample_ic_config_def sample_entity_simps)
  have p: "pattern_triples ?es (ic_relationships sample_ic_config)
      = {(''A'', ''B'', GoodsSale), (''B'', ''A'', GoodsSale)}"
    by (simp add: sample_ic_config_def sample_entity_simps wanted_triples_code eligible_def
        pattern_pairs_def filter_by_pattern_side_def side_matches_def any_profile
        del: set_map set_filter)
  have ex: "explicit_triples (ic_relationships sample_ic_config) = [(''A'', ''B'', GoodsSale)]"
    by (simp add: sample_ic_config_def)
  obtain ex pat where "rels = ex @ pat"
    "map rel_triple ex = [(''A'', ''B'', GoodsSale)]"
    "set (map rel_triple pat) = {(''A'', ''B'', GoodsSale), (''B'', ''A'', GoodsSale)} - {(''A'', ''B'', GoodsSale)}"
    using ic_expansion_exact[OF r] unfolding p ex by (elim exE conjE) (rule that, simp_all only: list.set)
  moreover have "{(''A'', ''B'', GoodsSale), (''B'', ''A'', GoodsSale)} - {(''A'', ''B'', GoodsSale)}
      = {(''B'', ''A'', GoodsSale)}"
    by auto
  ultimately show ?thesis using r by (intro exI[of _ rels] exI[of _ ex] exI[of _ pat]) (simp only: simp_thms)
qed

definition sample_relationship :: "rat ResolvedIcRelationship" where
  "sample_relationship =
     \<lparr>rel_id = ''R1'', rel_seller = ''A'', rel_buyer = ''B'', rel_types = [GoodsSale],
      rel_annual_volume = 100000, rel_transfer_pricing = None, rel_markup_percent = None,
      rel_source = ExplicitSource, rel_pattern_index = None\<rparr>"

definition sample_manifest_entity :: "string \<Rightarrow> rat ManifestEntity" where
  "sample_manifest_entity code =
     \<lparr>me_code = code, me_name = None, me_country = ''CH'', me_functional_currency = ''CHF'',
      me_scoping_profile = ''significant'', me_consolidation_method = Full,
      me_ownership_percent = Some (4 / 5), me_parent_code = Some ''A'', me_accounting_framework = None,
      me_industry = None, me_hyperinflation_status = NotHyperinflationary,
      me_ownership_changes = [], me_entity_seed = '''', me_shard_id = ''S_SIG_0001''\<rparr>"

definition sample_manifest :: "(rat, rat, unit) GroupManifest" where
  "sample_manifest =
     \<lparr>gm_schema_version = ''1.0'', gm_group_id = ''G'', gm_group_seed = 7,
      gm_presentation_currency = ''CHF'', gm_period = \<lparr>mp_start = 0, mp_end = 364\<rparr>,
      gm_manifest_seed = '''', gm_aggregate_seed = '''',
      gm_ownership_graph = \<lparr>og_parent_entity_code = ''A'',
         og_entities = [sample_manifest_entity ''A'', sample_manifest_entity ''B'']\<rparr>,
      gm_ic_relationships = [sample_relationship], gm_matching = default_matching,
      gm_other_plans = ()\<rparr>"

lemma sample_pair_count: "pair_count sample_group_env sample_relationship = 2"
proof -
  have "\<lfloor>5 / 2 :: rat\<rfloor> = 2" by (simp add: floor_eq_iff)
  then show ?thesis
    by (simp add: pair_count_def sample_relationship_def sample_group_env_def compute_pair_count_def)
qed

lemma ic_plans_mirror_witness:
  "length (derive_ic_pair_plans sample_group_env sample_manifest ''B'') = 2
   \<and> map (\<lambda>p. p\<lparr>pl_role := Buyer, pl_partner_entity := ''A''\<rparr>)
       (filter (\<lambda>p. pl_role p = Seller \<and> pl_partner_entity p = ''B'')
          (derive_ic_pair_plans sample_group_env sample_manifest ''A''))
     = filter (\<lambda>p. pl_role p = Buyer \<and> pl_partner_entity p = ''A'')
          (derive_ic_pair_plans sample_group_env sample_manifest ''B'')"
proof
  have r: "gm_ic_relationships sample_manifest = [sample_relationship]"
    "rel_seller sample_relationship = ''A''" "rel_buyer sample_relationship = ''B''"
    by (simp_all add: sample_manifest_def sample_relationship_def)
  show "length (derive_ic_pair_plans sample_group_env sample_manifest ''B'') = 2"
    by (simp add: derive_ic_pair_plans_def r plans_of_relationship_eq side_plans_def sample_pair_count)
  show "map (\<lambda>p. p\<lparr>pl_role := Buyer, pl_partner_entity := ''A''\<rparr>)
       (filter (\<lambda>p. pl_role p = Seller \<and> pl_partner_entity p = ''B'')
          (derive_ic_pair_plans sample_group_env sample_manifest ''A''))
     = filter (\<lambda>p. pl_role p = Buyer \<and> pl_partner_entity p = ''A'')
          (derive_ic_pair_plans sample_group_env sample_manifest ''B'')"
    by (rule ic_plans_mirror) simp
qed

end
