(* ===== verification/Ic_Matcher.thy ===== *)
theory Ic_Matcher
  imports Group_Plan Ordered_Map
begin

text \<open>
  Model of \<^verbatim>\<open>crates/datasynth-group/src/aggregate/ic_matcher.rs\<close> and
  \<^verbatim>\<open>aggregate/coverage_report.rs\<close>: joining the intercompany entries that the shards posted by
  their pair identifier. The cache of derived plans is threaded as state and shown to change
  nothing. \<^verbatim>\<open>BTreeMap\<close> is the ordered association list; writing the report to a file is not
  modelled.
\<close>

section \<open>Results\<close>

datatype UnmatchedReason = MissingBuyerSide | MissingSellerSide | AmountDriftAboveTolerance

fun reason_rank :: "UnmatchedReason \<Rightarrow> nat" where
  "reason_rank MissingBuyerSide = 0"
| "reason_rank MissingSellerSide = 1"
| "reason_rank AmountDriftAboveTolerance = 2"

lemma reason_rank_inj: "reason_rank c = reason_rank c' \<Longrightarrow> c = c'"
  by (cases c; cases c') simp_all

instantiation UnmatchedReason :: linorder
begin

definition less_eq_UnmatchedReason :: "UnmatchedReason \<Rightarrow> UnmatchedReason \<Rightarrow> bool" where
  "less_eq_UnmatchedReason c c' \<longleftrightarrow> reason_rank c \<le> reason_rank c'"

definition less_UnmatchedReason :: "UnmatchedReason \<Rightarrow> UnmatchedReason \<Rightarrow> bool" where
  "less_UnmatchedReason c c' \<longleftrightarrow> reason_rank c < reason_rank c'"

instance
  by standard (auto simp: less_eq_UnmatchedReason_def less_UnmatchedReason_def
      intro: reason_rank_inj)

end

record ('ts, 'd, 'wf) ObservedSide =
  os_entity_code :: string
  os_je :: "(naive_date, 'ts, 'd, 'wf) JournalEntry"

record ('ts, 'd, 'wf) IcMatchedPair =
  mt_pair_id :: IcPairId
  mt_seller_entity :: string
  mt_buyer_entity :: string
  mt_seller_je :: "(naive_date, 'ts, 'd, 'wf) JournalEntry"
  mt_buyer_je :: "(naive_date, 'ts, 'd, 'wf) JournalEntry"

record ('ts, 'd, 'wf) UnmatchedSide =
  us_pair_id :: IcPairId
  us_present_role :: IcRole
  us_present_entity :: string
  us_present_je :: "(naive_date, 'ts, 'd, 'wf) JournalEntry"
  us_reason :: UnmatchedReason

record ('ts, 'f, 'd, 'wf) IcMatchResult =
  mr_matched :: "('ts, 'd, 'wf) IcMatchedPair list"
  mr_unmatched :: "('ts, 'd, 'wf) UnmatchedSide list"
  mr_total_planned :: nat
  mr_coverage :: 'f

datatype MatchMessage =
    PlanMissing string IcPairId
  | TwoSellers IcPairId string string
  | TwoBuyers IcPairId string string
  | TooManySides IcPairId nat "string list"

section \<open>Plan lookup\<close>

type_synonym 'd plan_map = "(IcPairId \<times> 'd IcPairPlan) list"
type_synonym 'd plan_cache = "(string \<times> 'd plan_map) list"

definition plan_map ::
    "'d::linordered_field group_env \<Rightarrow> ('f, 'd, 'x) GroupManifest \<Rightarrow> string \<Rightarrow> 'd plan_map" where
  "plan_map env m entity_code =
     bt_collect (map (\<lambda>p. (pl_pair_id p, p)) (derive_ic_pair_plans env m entity_code))"

text \<open>The cached lookup of the matcher and of the elimination engine: the plan, if there is one,
  and the cache with the entity's plans in it.\<close>

definition cached_plan ::
    "'d::linordered_field group_env \<Rightarrow> ('f, 'd, 'x) GroupManifest \<Rightarrow> 'd plan_cache \<Rightarrow> string
     \<Rightarrow> IcPairId \<Rightarrow> 'd IcPairPlan option \<times> 'd plan_cache" where
  "cached_plan env m cache entity_code pid =
     (case map_of cache entity_code of
        Some plans \<Rightarrow> (map_of plans pid, cache)
      | None \<Rightarrow>
          (let plans = plan_map env m entity_code
           in (map_of plans pid, bt_insert entity_code plans cache)))"

definition lookup_plan ::
    "'d::linordered_field group_env \<Rightarrow> ('f, 'd, 'x) GroupManifest \<Rightarrow> 'd plan_cache \<Rightarrow> string
     \<Rightarrow> IcPairId \<Rightarrow> (MatchMessage GroupError, 'd IcPairPlan) result \<times> 'd plan_cache" where
  "lookup_plan env m cache entity_code pid =
     (case cached_plan env m cache entity_code pid of
        (Some p, cache') \<Rightarrow> (Inr p, cache')
      | (None, cache') \<Rightarrow> (Inl (AggregateError (PlanMissing entity_code pid)), cache'))"

section \<open>Matching\<close>

definition collect_sides ::
    "(string \<times> (naive_date, 'ts, 'd, 'wf) JournalEntry list) list
     \<Rightarrow> (IcPairId \<times> ('ts, 'd, 'wf) ObservedSide list) list" where
  "collect_sides entity_jes =
     foldl (\<lambda>m (code, jes).
         foldl (\<lambda>m je. case ic_pair_id (header je) of
                        None \<Rightarrow> m
                      | Some pid \<Rightarrow> bt_push pid \<lparr>os_entity_code = code, os_je = je\<rparr> m) m jes)
       [] entity_jes"

definition drift_violation ::
    "'d::linordered_field group_env \<Rightarrow> ('f, 'd, 'x) GroupManifest
     \<Rightarrow> ('ts, 'd, 'wf) ObservedSide \<Rightarrow> ('ts, 'd, 'wf) ObservedSide \<Rightarrow> bool" where
  "drift_violation env m seller buyer =
     (if mc_strategy (gm_matching m) = EmergentFuzzy then
        (let seller_amount = \<bar>total_debit (os_je seller)\<bar>;
             buyer_amount = \<bar>total_debit (os_je buyer)\<bar>;
             max_amount = max seller_amount buyer_amount
         in if max_amount > 0
            then dec_div env \<bar>seller_amount - buyer_amount\<bar> max_amount
                   > mc_tolerance_percent (gm_matching m)
            else False)
      else False)"

definition single_side ::
    "IcPairId \<Rightarrow> 'd IcPairPlan \<Rightarrow> ('ts, 'd, 'wf) ObservedSide \<Rightarrow> ('ts, 'd, 'wf) UnmatchedSide" where
  "single_side pid plan side =
     \<lparr>us_pair_id = pid, us_present_role = pl_role plan, us_present_entity = os_entity_code side,
      us_present_je = os_je side,
      us_reason = (case pl_role plan of Seller \<Rightarrow> MissingBuyerSide | Buyer \<Rightarrow> MissingSellerSide)\<rparr>"

definition drift_side ::
    "IcPairId \<Rightarrow> IcRole \<Rightarrow> ('ts, 'd, 'wf) ObservedSide \<Rightarrow> ('ts, 'd, 'wf) UnmatchedSide" where
  "drift_side pid role side =
     \<lparr>us_pair_id = pid, us_present_role = role, us_present_entity = os_entity_code side,
      us_present_je = os_je side, us_reason = AmountDriftAboveTolerance\<rparr>"

text \<open>Both sides are present and have opposite roles.\<close>

definition join_sides ::
    "'d::linordered_field group_env \<Rightarrow> ('f, 'd, 'x) GroupManifest \<Rightarrow> IcPairId
     \<Rightarrow> ('ts, 'd, 'wf) ObservedSide \<Rightarrow> ('ts, 'd, 'wf) ObservedSide
     \<Rightarrow> ('ts, 'd, 'wf) IcMatchedPair list \<times> ('ts, 'd, 'wf) UnmatchedSide list" where
  "join_sides env m pid seller buyer =
     (if drift_violation env m seller buyer
      then ([], [drift_side pid Seller seller, drift_side pid Buyer buyer])
      else ([\<lparr>mt_pair_id = pid, mt_seller_entity = os_entity_code seller,
              mt_buyer_entity = os_entity_code buyer, mt_seller_je = os_je seller,
              mt_buyer_je = os_je buyer\<rparr>], []))"

text \<open>The body of the loop over the grouped sides: the new matched pairs and unmatched sides,
  and the cache. A group is never empty.\<close>

definition classify_sides ::
    "'d::linordered_field group_env \<Rightarrow> ('f, 'd, 'x) GroupManifest \<Rightarrow> 'd plan_cache \<Rightarrow> IcPairId
     \<Rightarrow> ('ts, 'd, 'wf) ObservedSide list
     \<Rightarrow> (MatchMessage GroupError, ('ts, 'd, 'wf) IcMatchedPair list
          \<times> ('ts, 'd, 'wf) UnmatchedSide list) result \<times> 'd plan_cache" where
  "classify_sides env m cache pid sides =
     (case sides of
        [side] \<Rightarrow>
          (case lookup_plan env m cache (os_entity_code side) pid of
             (Inl e, cache') \<Rightarrow> (Inl e, cache')
           | (Inr plan, cache') \<Rightarrow> (Inr ([], [single_side pid plan side]), cache'))
      | [a, b] \<Rightarrow>
          (case lookup_plan env m cache (os_entity_code a) pid of
             (Inl e, cache1) \<Rightarrow> (Inl e, cache1)
           | (Inr plan_a, cache1) \<Rightarrow>
               (case lookup_plan env m cache1 (os_entity_code b) pid of
                  (Inl e, cache2) \<Rightarrow> (Inl e, cache2)
                | (Inr plan_b, cache2) \<Rightarrow>
                    ((case (pl_role plan_a, pl_role plan_b) of
                        (Seller, Buyer) \<Rightarrow> Inr (join_sides env m pid a b)
                      | (Buyer, Seller) \<Rightarrow> Inr (join_sides env m pid b a)
                      | (Seller, Seller) \<Rightarrow>
                          Inl (AggregateError (TwoSellers pid (os_entity_code a) (os_entity_code b)))
                      | (Buyer, Buyer) \<Rightarrow>
                          Inl (AggregateError (TwoBuyers pid (os_entity_code a) (os_entity_code b)))),
                     cache2)))
      | _ \<Rightarrow> (Inl (AggregateError (TooManySides pid (length sides) (map os_entity_code sides))), cache))"

fun match_loop ::
    "'d::linordered_field group_env \<Rightarrow> ('f, 'd, 'x) GroupManifest \<Rightarrow> 'd plan_cache
     \<Rightarrow> (IcPairId \<times> ('ts, 'd, 'wf) ObservedSide list) list
     \<Rightarrow> ('ts, 'd, 'wf) IcMatchedPair list \<Rightarrow> ('ts, 'd, 'wf) UnmatchedSide list
     \<Rightarrow> (MatchMessage GroupError, ('ts, 'd, 'wf) IcMatchedPair list
          \<times> ('ts, 'd, 'wf) UnmatchedSide list) result" where
  "match_loop env m cache [] matched unmatched = Inr (matched, unmatched)"
| "match_loop env m cache ((pid, sides) # by_pair) matched unmatched =
     (case classify_sides env m cache pid sides of
        (Inl e, _) \<Rightarrow> Inl e
      | (Inr (mp, us), cache') \<Rightarrow> match_loop env m cache' by_pair (matched @ mp) (unmatched @ us))"

definition total_planned_pairs ::
    "'d::linordered_field group_env \<Rightarrow> ('f, 'd, 'x) GroupManifest \<Rightarrow> nat" where
  "total_planned_pairs env m =
     sum_list (map (\<lambda>e. length (filter (\<lambda>p. pl_role p = Seller)
                                  (derive_ic_pair_plans env m (me_code e))))
                (og_entities (gm_ownership_graph m)))"

definition match_ic_pairs ::
    "'d::linordered_field group_env \<Rightarrow> ('f::linordered_field, 'd, 'x) GroupManifest
     \<Rightarrow> (string \<times> (naive_date, 'ts, 'd, 'wf) JournalEntry list) list
     \<Rightarrow> (MatchMessage GroupError, ('ts, 'f, 'd, 'wf) IcMatchResult) result" where
  "match_ic_pairs env m entity_jes =
     try_bind (match_loop env m [] (collect_sides entity_jes) [] []) (\<lambda>(matched, unmatched).
       let total = total_planned_pairs env m in
       Inr \<lparr>mr_matched = sort_key mt_pair_id matched,
            mr_unmatched = sort_key us_pair_id unmatched,
            mr_total_planned = total,
            mr_coverage = (if total = 0 then 0 else of_nat (length matched) / of_nat total)\<rparr>)"

section \<open>Coverage report\<close>

record ('ts, 'f, 'd, 'wf) CoverageReport =
  cr_total_pairs_planned :: nat
  cr_matched :: nat
  cr_coverage :: 'f
  cr_unmatched_by_reason :: "(UnmatchedReason \<times> nat) list"
  cr_unmatched_sample :: "('ts, 'd, 'wf) UnmatchedSide list"

definition UNMATCHED_SAMPLE_CAP :: nat where "UNMATCHED_SAMPLE_CAP = 100"

definition build_coverage_report ::
    "('ts, 'f, 'd, 'wf) IcMatchResult \<Rightarrow> ('ts, 'f, 'd, 'wf) CoverageReport" where
  "build_coverage_report r =
     (let zeroes = bt_insert AmountDriftAboveTolerance 0
                     (bt_insert MissingSellerSide 0 (bt_insert MissingBuyerSide 0 []))
      in \<lparr>cr_total_pairs_planned = mr_total_planned r, cr_matched = length (mr_matched r),
          cr_coverage = mr_coverage r,
          cr_unmatched_by_reason =
            foldl (\<lambda>m side. bt_entry (us_reason side) 0 (\<lambda>n. n + 1) m) zeroes (mr_unmatched r),
          cr_unmatched_sample = take UNMATCHED_SAMPLE_CAP (mr_unmatched r)\<rparr>)"

section \<open>The cache changes nothing\<close>

definition plan_of ::
    "'d::linordered_field group_env \<Rightarrow> ('f, 'd, 'x) GroupManifest \<Rightarrow> string \<Rightarrow> IcPairId
     \<Rightarrow> 'd IcPairPlan option" where
  "plan_of env m entity_code pid = map_of (plan_map env m entity_code) pid"

definition cache_ok ::
    "'d::linordered_field group_env \<Rightarrow> ('f, 'd, 'x) GroupManifest \<Rightarrow> 'd plan_cache \<Rightarrow> bool" where
  "cache_ok env m cache \<longleftrightarrow> (\<forall>e plans. map_of cache e = Some plans \<longrightarrow> plans = plan_map env m e)"

lemma cache_ok_Nil [simp]: "cache_ok env m []"
  by (simp add: cache_ok_def)

lemma cached_plan_pure:
  assumes "cache_ok env m cache"
  shows "fst (cached_plan env m cache e pid) = plan_of env m e pid"
    and "cache_ok env m (snd (cached_plan env m cache e pid))"
  using assms by (auto simp: cached_plan_def cache_ok_def plan_of_def Let_def split: option.split)

definition plan_result ::
    "'d::linordered_field group_env \<Rightarrow> ('f, 'd, 'x) GroupManifest \<Rightarrow> string \<Rightarrow> IcPairId
     \<Rightarrow> (MatchMessage GroupError, 'd IcPairPlan) result" where
  "plan_result env m e pid =
     (case plan_of env m e pid of
        Some p \<Rightarrow> Inr p | None \<Rightarrow> Inl (AggregateError (PlanMissing e pid)))"

lemma lookup_plan_pure:
  assumes "cache_ok env m cache"
  shows "fst (lookup_plan env m cache e pid) = plan_result env m e pid"
    and "cache_ok env m (snd (lookup_plan env m cache e pid))"
  using cached_plan_pure[OF assms, of e pid]
  by (auto simp: lookup_plan_def plan_result_def split: prod.split option.split)

text \<open>The classification without a cache.\<close>

definition classify_pair ::
    "'d::linordered_field group_env \<Rightarrow> ('f, 'd, 'x) GroupManifest \<Rightarrow> IcPairId
     \<Rightarrow> ('ts, 'd, 'wf) ObservedSide list
     \<Rightarrow> (MatchMessage GroupError, ('ts, 'd, 'wf) IcMatchedPair list
          \<times> ('ts, 'd, 'wf) UnmatchedSide list) result" where
  "classify_pair env m pid sides =
     (case sides of
        [side] \<Rightarrow>
          try_bind (plan_result env m (os_entity_code side) pid)
            (\<lambda>plan. Inr ([], [single_side pid plan side]))
      | [a, b] \<Rightarrow>
          try_bind (plan_result env m (os_entity_code a) pid) (\<lambda>plan_a.
          try_bind (plan_result env m (os_entity_code b) pid) (\<lambda>plan_b.
            case (pl_role plan_a, pl_role plan_b) of
              (Seller, Buyer) \<Rightarrow> Inr (join_sides env m pid a b)
            | (Buyer, Seller) \<Rightarrow> Inr (join_sides env m pid b a)
            | (Seller, Seller) \<Rightarrow>
                Inl (AggregateError (TwoSellers pid (os_entity_code a) (os_entity_code b)))
            | (Buyer, Buyer) \<Rightarrow>
                Inl (AggregateError (TwoBuyers pid (os_entity_code a) (os_entity_code b)))))
      | _ \<Rightarrow> Inl (AggregateError (TooManySides pid (length sides) (map os_entity_code sides))))"

lemma classify_sides_pure:
  assumes "cache_ok env m cache"
  shows "fst (classify_sides env m cache pid sides) = classify_pair env m pid sides
         \<and> cache_ok env m (snd (classify_sides env m cache pid sides))"
proof -
  consider "sides = []" | a where "sides = [a]" | a b where "sides = [a, b]"
    | a b c r where "sides = a # b # c # r"
    by (metis list.exhaust)
  then show ?thesis
  proof cases
    case (2 a)
    obtain r c where l: "lookup_plan env m cache (os_entity_code a) pid = (r, c)" by force
    then have "r = plan_result env m (os_entity_code a) pid" "cache_ok env m c"
      using lookup_plan_pure[OF assms, of "os_entity_code a" pid] by simp_all
    then show ?thesis
      using 2 l by (auto simp: classify_sides_def classify_pair_def split: sum.split)
  next
    case (3 a b)
    obtain r c where l: "lookup_plan env m cache (os_entity_code a) pid = (r, c)" by force
    then have r: "r = plan_result env m (os_entity_code a) pid" and c: "cache_ok env m c"
      using lookup_plan_pure[OF assms, of "os_entity_code a" pid] by simp_all
    obtain r' c' where l': "lookup_plan env m c (os_entity_code b) pid = (r', c')" by force
    then have "r' = plan_result env m (os_entity_code b) pid" "cache_ok env m c'"
      using lookup_plan_pure[OF c, of "os_entity_code b" pid] by simp_all
    then show ?thesis
      using 3 l l' r c by (auto simp: classify_sides_def classify_pair_def split: sum.split)
  qed (use assms in \<open>simp_all add: classify_sides_def classify_pair_def\<close>)
qed

lemma match_loop_pure:
  assumes "cache_ok env m cache"
  shows "match_loop env m cache by_pair ma un =
     try_bind (try_map (\<lambda>(pid, sides). classify_pair env m pid sides) by_pair) (\<lambda>rs.
       Inr (ma @ concat (map fst rs), un @ concat (map snd rs)))"
  using assms
proof (induction by_pair arbitrary: cache ma un)
  case (Cons ps by_pair)
  obtain pid sides where ps: "ps = (pid, sides)" by force
  obtain r c where c: "classify_sides env m cache pid sides = (r, c)" by force
  then have r: "r = classify_pair env m pid sides" "cache_ok env m c"
    using classify_sides_pure[OF Cons.prems, of pid sides] by simp_all
  show ?case
  proof (cases r)
    case (Inr ab)
    then show ?thesis
      using Cons.IH[OF r(2)] r(1) c
      by (cases ab; cases "try_map (\<lambda>(pid, sides). classify_pair env m pid sides) by_pair") (simp_all add: ps)
  qed (use r(1) c in \<open>simp add: ps\<close>)
qed simp

section \<open>The grouped sides\<close>

text \<open>The intercompany sides of the input in the order of the loops, with their identifiers.\<close>

definition observed_sides ::
    "(string \<times> (naive_date, 'ts, 'd, 'wf) JournalEntry list) list
     \<Rightarrow> (IcPairId \<times> ('ts, 'd, 'wf) ObservedSide) list" where
  "observed_sides entity_jes =
     concat (map (\<lambda>(code, jes).
         List.map_filter (\<lambda>je. map_option (\<lambda>pid. (pid, \<lparr>os_entity_code = code, os_je = je\<rparr>))
                                (ic_pair_id (header je))) jes) entity_jes)"

lemma collect_sides_eq:
  "collect_sides entity_jes = foldl (\<lambda>m (k, v). bt_push k v m) [] (observed_sides entity_jes)"
proof -
  have inner: "foldl (\<lambda>m je. case ic_pair_id (header je) of None \<Rightarrow> m
                     | Some pid \<Rightarrow> bt_push pid \<lparr>os_entity_code = code, os_je = je\<rparr> m) m jes
      = foldl (\<lambda>m (k, v). bt_push k v m) m
          (List.map_filter (\<lambda>je. map_option (\<lambda>pid. (pid, \<lparr>os_entity_code = code, os_je = je\<rparr>))
                                 (ic_pair_id (header je))) jes)" for code m jes
    by (induction jes arbitrary: m) (auto simp: List.map_filter_def split: option.splits)
  have "foldl (\<lambda>m (code, jes).
         foldl (\<lambda>m je. case ic_pair_id (header je) of None \<Rightarrow> m
                     | Some pid \<Rightarrow> bt_push pid \<lparr>os_entity_code = code, os_je = je\<rparr> m) m jes) m entity_jes
      = foldl (\<lambda>m (k, v). bt_push k v m) m (observed_sides entity_jes)" for m
    by (induction entity_jes arbitrary: m) (auto simp: observed_sides_def inner)
  then show ?thesis by (simp add: collect_sides_def)
qed

lemma observed_side_pair_id:
  "(pid, side) \<in> set (observed_sides entity_jes) \<Longrightarrow> ic_pair_id (header (os_je side)) = Some pid"
  by (auto simp: observed_sides_def List.map_filter_def)

lemma wf_collect_sides: "bt_wf (collect_sides entity_jes)"
  by (simp add: collect_sides_eq pushes_wf)

section \<open>What a match returns\<close>

definition sides_of_pair :: "('ts, 'd, 'wf) IcMatchedPair \<Rightarrow> ('ts, 'd, 'wf) ObservedSide list" where
  "sides_of_pair p = [\<lparr>os_entity_code = mt_seller_entity p, os_je = mt_seller_je p\<rparr>,
                      \<lparr>os_entity_code = mt_buyer_entity p, os_je = mt_buyer_je p\<rparr>]"

definition side_of_unmatched :: "('ts, 'd, 'wf) UnmatchedSide \<Rightarrow> ('ts, 'd, 'wf) ObservedSide" where
  "side_of_unmatched u = \<lparr>os_entity_code = us_present_entity u, os_je = us_present_je u\<rparr>"

definition pair_faithful ::
    "'d::linordered_field group_env \<Rightarrow> ('f, 'd, 'x) GroupManifest \<Rightarrow> ('ts, 'd, 'wf) IcMatchedPair \<Rightarrow> bool" where
  "pair_faithful env m p \<longleftrightarrow>
     (\<exists>ps pb. plan_of env m (mt_seller_entity p) (mt_pair_id p) = Some ps \<and> pl_role ps = Seller
            \<and> plan_of env m (mt_buyer_entity p) (mt_pair_id p) = Some pb \<and> pl_role pb = Buyer)"

lemma observed_side_eta [simp]: "\<lparr>os_entity_code = os_entity_code s, os_je = os_je s\<rparr> = (s :: ('ts, 'd, 'wf) ObservedSide)"
  by simp

lemma plan_result_Inr: "plan_result env m e pid = Inr p \<longleftrightarrow> plan_of env m e pid = Some p"
  by (auto simp: plan_result_def split: option.split)

lemma classify_Inr:
  assumes "classify_pair env m pid sides = Inr (mp, us)"
  shows "mset (concat (map sides_of_pair mp) @ map side_of_unmatched us) = mset sides"
    and "\<forall>p \<in> set mp. mt_pair_id p = pid \<and> pair_faithful env m p"
    and "\<forall>u \<in> set us. us_pair_id u = pid" and "length mp \<le> 1" and "mp = [] \<or> us = []"
proof -
  consider "sides = []" | a where "sides = [a]" | a b where "sides = [a, b]"
    | a b c r where "sides = a # b # c # r"
    by (metis list.exhaust)
  then have "mset (concat (map sides_of_pair mp) @ map side_of_unmatched us) = mset sides
    \<and> (\<forall>p \<in> set mp. mt_pair_id p = pid \<and> pair_faithful env m p)
    \<and> (\<forall>u \<in> set us. us_pair_id u = pid) \<and> length mp \<le> 1 \<and> (mp = [] \<or> us = [])"
  proof cases
    case (3 a b)
    then obtain pa pb where pl: "plan_of env m (os_entity_code a) pid = Some pa"
        "plan_of env m (os_entity_code b) pid = Some pb"
      using assms by (auto simp: classify_pair_def result_simps plan_result_Inr)
    then show ?thesis
      using assms 3
      by (cases "pl_role pa"; cases "pl_role pb")
         (auto simp: classify_pair_def join_sides_def drift_side_def sides_of_pair_def
           side_of_unmatched_def plan_result_def pair_faithful_def split: if_splits)
  qed (use assms in \<open>auto simp: classify_pair_def result_simps single_side_def side_of_unmatched_def\<close>)
  then show "mset (concat (map sides_of_pair mp) @ map side_of_unmatched us) = mset sides"
    "\<forall>p \<in> set mp. mt_pair_id p = pid \<and> pair_faithful env m p"
    "\<forall>u \<in> set us. us_pair_id u = pid" "length mp \<le> 1" "mp = [] \<or> us = []"
    by simp_all
qed

text \<open>The loop over the whole grouped map.\<close>

definition classified ::
    "'d::linordered_field group_env \<Rightarrow> ('f, 'd, 'x) GroupManifest
     \<Rightarrow> (string \<times> (naive_date, 'ts, 'd, 'wf) JournalEntry list) list
     \<Rightarrow> (MatchMessage GroupError, (('ts, 'd, 'wf) IcMatchedPair list
          \<times> ('ts, 'd, 'wf) UnmatchedSide list) list) result" where
  "classified env m entity_jes =
     try_map (\<lambda>(pid, sides). classify_pair env m pid sides) (collect_sides entity_jes)"

lemma match_ic_pairs_classified:
  "match_ic_pairs env m entity_jes = Inr r \<longleftrightarrow>
     (\<exists>rs. classified env m entity_jes = Inr rs
       \<and> r = \<lparr>mr_matched = sort_key mt_pair_id (concat (map fst rs)),
              mr_unmatched = sort_key us_pair_id (concat (map snd rs)),
              mr_total_planned = total_planned_pairs env m,
              mr_coverage = (if total_planned_pairs env m = 0 then 0
                 else of_nat (length (concat (map fst rs))) / of_nat (total_planned_pairs env m))\<rparr>)"
  by (cases "classified env m entity_jes")
     (auto simp: match_ic_pairs_def classified_def match_loop_pure result_simps Let_def)

definition parts_ok ::
    "'d::linordered_field group_env \<Rightarrow> ('f, 'd, 'x) GroupManifest
     \<Rightarrow> (IcPairId \<times> ('ts, 'd, 'wf) ObservedSide list) list
     \<Rightarrow> ('ts, 'd, 'wf) IcMatchedPair list \<Rightarrow> ('ts, 'd, 'wf) UnmatchedSide list \<Rightarrow> bool" where
  "parts_ok env m by_pair mp us \<longleftrightarrow>
     mset (concat (map sides_of_pair mp) @ map side_of_unmatched us) = mset (concat (map snd by_pair))
     \<and> (\<forall>p \<in> set mp. pair_faithful env m p \<and> mt_pair_id p \<in> fst ` set by_pair)
     \<and> (\<forall>u \<in> set us. us_pair_id u \<in> fst ` set by_pair)
     \<and> (\<forall>p \<in> set mp. \<exists>sides. (mt_pair_id p, sides) \<in> set by_pair
                            \<and> set (sides_of_pair p) \<subseteq> set sides)
     \<and> sorted_wrt (<) (map mt_pair_id mp) \<and> sorted (map us_pair_id us)
     \<and> mt_pair_id ` set mp \<inter> us_pair_id ` set us = {}"

lemma parts_ok_sides:
  assumes "parts_ok env m by_pair mp us"
  shows "\<forall>p \<in> set mp. \<exists>sides. (mt_pair_id p, sides) \<in> set by_pair
                          \<and> set (sides_of_pair p) \<subseteq> set sides"
  using assms unfolding parts_ok_def by (elim conjE)

lemma parts_ok_Cons:
  assumes c: "classify_pair env m pid sides = Inr (mp, us)"
    and below: "\<forall>x \<in> fst ` set by_pair. pid < x" and rest: "parts_ok env m by_pair mps uss"
  shows "parts_ok env m ((pid, sides) # by_pair) (mp @ mps) (us @ uss)"
proof -
  note C = classify_Inr[OF c]
  have later: "pid < mt_pair_id q" if "q \<in> set mps" for q
  proof -
    have "mt_pair_id q \<in> fst ` set by_pair" using that rest by (simp add: parts_ok_def)
    then show ?thesis using below by blast
  qed
  have later': "pid < us_pair_id u" if "u \<in> set uss" for u
  proof -
    have "us_pair_id u \<in> fst ` set by_pair" using that rest by (simp add: parts_ok_def)
    then show ?thesis using below by blast
  qed
  have "sorted_wrt (<) (map mt_pair_id mp)" using C(4) by (cases mp) auto
  then have "sorted_wrt (<) (map mt_pair_id (mp @ mps))"
    using C(2) later rest by (auto simp: parts_ok_def sorted_wrt_append)
  moreover have "sorted (map us_pair_id us)"
    using C(3) by (induction us) auto
  then have "sorted (map us_pair_id (us @ uss))"
    using C(3) later' rest by (auto simp: parts_ok_def sorted_append less_imp_le)
  moreover have "mt_pair_id ` set (mp @ mps) \<inter> us_pair_id ` set (us @ uss) = {}"
  proof -
    have "mt_pair_id p \<noteq> us_pair_id u" if "p \<in> set (mp @ mps)" "u \<in> set (us @ uss)" for p u
    proof -
      have "mt_pair_id p \<noteq> us_pair_id u" if "p \<in> set mps" "u \<in> set uss"
        using that rest unfolding parts_ok_def by blast
      then show ?thesis using that C(2,3,5) later later' by fastforce
    qed
    then show ?thesis by blast
  qed
  moreover have "set (sides_of_pair p) \<subseteq> set sides" if "p \<in> set mp" for p
  proof -
    have "set (concat (map sides_of_pair mp)) \<subseteq> set sides"
      using mset_eq_setD[OF C(1)] by auto
    then show ?thesis using that by auto
  qed
  then have "\<forall>p \<in> set (mp @ mps). \<exists>ss. (mt_pair_id p, ss) \<in> set ((pid, sides) # by_pair)
               \<and> set (sides_of_pair p) \<subseteq> set ss"
    using C(2) rest unfolding parts_ok_def by (metis Un_iff list.set_intros set_append)
  moreover have "mset (concat (map sides_of_pair (mp @ mps)) @ map side_of_unmatched (us @ uss))
      = mset (concat (map snd ((pid, sides) # by_pair)))"
  proof -
    have "mset (concat (map sides_of_pair mps) @ map side_of_unmatched uss) = mset (concat (map snd by_pair))"
      using rest unfolding parts_ok_def by blast
    then show ?thesis using C(1)[symmetric] by (simp add: ac_simps)
  qed
  ultimately show ?thesis
    using C(2,3) rest unfolding parts_ok_def by auto
qed

lemma classified_parts:
  assumes "list_all2 (\<lambda>x r. (case x of (pid, sides) \<Rightarrow> classify_pair env m pid sides) = Inr r) by_pair rs"
    and "sorted_wrt (<) (map fst by_pair)"
  shows "parts_ok env m by_pair (concat (map fst rs)) (concat (map snd rs))"
  using assms
proof (induction by_pair arbitrary: rs)
  case (Cons ps by_pair)
  obtain pid sides where ps: "ps = (pid, sides)" by force
  obtain mp us rs' where rs: "rs = (mp, us) # rs'" "classify_pair env m pid sides = Inr (mp, us)"
      "list_all2 (\<lambda>x r. (case x of (pid, sides) \<Rightarrow> classify_pair env m pid sides) = Inr r) by_pair rs'"
    using Cons.prems(1) by (auto simp: ps list_all2_Cons1)
  show ?case
    using parts_ok_Cons[OF rs(2) _ Cons.IH[OF rs(3)]] Cons.prems(2) by (simp add: ps rs(1))
qed (simp add: parts_ok_def)

lemma match_parts:
  assumes "match_ic_pairs env m entity_jes = Inr r"
  shows "parts_ok env m (collect_sides entity_jes) (mr_matched r) (mr_unmatched r)"
proof -
  let ?g = "collect_sides entity_jes"
  obtain rs where rs: "classified env m entity_jes = Inr rs"
    and r: "mr_matched r = sort_key mt_pair_id (concat (map fst rs))"
      "mr_unmatched r = sort_key us_pair_id (concat (map snd rs))"
    using assms by (auto simp: match_ic_pairs_classified)
  have ok: "parts_ok env m ?g (concat (map fst rs)) (concat (map snd rs))"
    using rs wf_collect_sides[of entity_jes]
    by (intro classified_parts) (auto simp: classified_def try_map_Inr_iff bt_wf_def)
  then have "mr_matched r = concat (map fst rs)" "mr_unmatched r = concat (map snd rs)"
    by (auto simp: r parts_ok_def strict_sorted_iff sort_key_id_if_sorted)
  with ok show ?thesis by simp
qed

lemma match_sides:
  assumes "match_ic_pairs env m entity_jes = Inr r"
  shows "mset (concat (map sides_of_pair (mr_matched r)) @ map side_of_unmatched (mr_unmatched r))
           = mset (map snd (observed_sides entity_jes))"
proof -
  have "mset (concat (map snd (collect_sides entity_jes))) = mset (map snd (observed_sides entity_jes))"
    by (simp add: collect_sides_eq mset_concat_pushes del: mset_concat map_map)
  then show ?thesis using match_parts[OF assms] unfolding parts_ok_def by metis
qed

lemma matched_side_observed:
  assumes "match_ic_pairs env m entity_jes = Inr r" "p \<in> set (mr_matched r)"
    and "s \<in> set (sides_of_pair p)"
  shows "(mt_pair_id p, s) \<in> set (observed_sides entity_jes)"
proof -
  let ?g = "collect_sides entity_jes"
  have "\<exists>sides. (mt_pair_id p, sides) \<in> set ?g \<and> set (sides_of_pair p) \<subseteq> set sides"
    using parts_ok_sides[OF match_parts[OF assms(1)]] assms(2) by blast
  then obtain sides where "(mt_pair_id p, sides) \<in> set ?g" "s \<in> set sides"
    using assms(3) by blast
  moreover from this(1) have "sides = map snd (filter (\<lambda>kv. fst kv = mt_pair_id p) (observed_sides entity_jes))"
    unfolding collect_sides_eq by (rule grouped_entry(1))
  ultimately show ?thesis by auto
qed

section \<open>Properties\<close>

text \<open>C12. A match that succeeds loses nothing and invents nothing: the sides of the matched pairs
  together with the unmatched sides are the observed intercompany entries, each as often as it
  was observed; every matched pair joins the seller and the buyer of one planned pair; pairs and
  sides come in ascending order of the identifier, no identifier is matched twice, and none is
  both matched and unmatched.\<close>

theorem match_partitions_observed:
  assumes "match_ic_pairs env m entity_jes = Inr r"
  shows "mset (concat (map sides_of_pair (mr_matched r)) @ map side_of_unmatched (mr_unmatched r))
           = mset (map snd (observed_sides entity_jes))
         \<and> (\<forall>p \<in> set (mr_matched r). pair_faithful env m p
              \<and> ic_pair_id (header (mt_seller_je p)) = Some (mt_pair_id p)
              \<and> ic_pair_id (header (mt_buyer_je p)) = Some (mt_pair_id p))
         \<and> sorted_wrt (<) (map mt_pair_id (mr_matched r))
         \<and> sorted (map us_pair_id (mr_unmatched r))
         \<and> mt_pair_id ` set (mr_matched r) \<inter> us_pair_id ` set (mr_unmatched r) = {}"
proof -
  note ok = match_parts[OF assms]
  have tags: "ic_pair_id (header (mt_seller_je p)) = Some (mt_pair_id p)"
    "ic_pair_id (header (mt_buyer_je p)) = Some (mt_pair_id p)" if "p \<in> set (mr_matched r)" for p
    using matched_side_observed[OF assms that, THEN observed_side_pair_id]
    by (force simp: sides_of_pair_def)+
  moreover have "\<forall>p \<in> set (mr_matched r). pair_faithful env m p"
    "sorted_wrt (<) (map mt_pair_id (mr_matched r))" "sorted (map us_pair_id (mr_unmatched r))"
    "mt_pair_id ` set (mr_matched r) \<inter> us_pair_id ` set (mr_unmatched r) = {}"
    using ok unfolding parts_ok_def by blast+
  ultimately show ?thesis using match_sides[OF assms] by simp
qed

section \<open>Complete shards\<close>

text \<open>A manifest as the builder makes it: entity codes and relationship ids are distinct, every
  relationship joins two different entities of the graph, and the digest does not collide on
  the messages of the pairs.\<close>

definition manifest_ok ::
    "'d::linordered_field group_env \<Rightarrow> ('f, 'd, 'x) GroupManifest \<Rightarrow> bool" where
  "manifest_ok env m \<longleftrightarrow>
     distinct (map me_code (og_entities (gm_ownership_graph m)))
     \<and> distinct (map rel_id (gm_ic_relationships m))
     \<and> (\<forall>rel \<in> set (gm_ic_relationships m). rel_seller rel \<noteq> rel_buyer rel
          \<and> rel_seller rel \<in> me_code ` set (og_entities (gm_ownership_graph m))
          \<and> rel_buyer rel \<in> me_code ` set (og_entities (gm_ownership_graph m)))
     \<and> inj_on (blake3 env) (ic_pair_messages env m)"

text \<open>What the shards hand over: every entity with a list of entries of which those with a pair
  identifier are the injected ones.\<close>

definition shards_complete ::
    "'d::linordered_field group_env \<Rightarrow> ('f, 'd, 'x) GroupManifest \<Rightarrow> (string \<Rightarrow> 'ts je_env)
     \<Rightarrow> (string \<times> (naive_date, 'ts, 'd, 'wf) JournalEntry list) list \<Rightarrow> bool" where
  "shards_complete env m je entity_jes \<longleftrightarrow>
     map fst entity_jes = map me_code (og_entities (gm_ownership_graph m))
     \<and> (\<forall>(e, jes) \<in> set entity_jes.
          filter (\<lambda>x. ic_pair_id (header x) \<noteq> None) jes
            = inject_ic_journal_entries (je e) (derive_ic_pair_plans env m e) e)"

lemma distinct_plan_ids_aux:
  assumes inj: "inj_on (blake3 env) (ic_pair_messages env m)"
    and "distinct (map rel_id rels)" "set rels \<subseteq> set (gm_ic_relationships m)"
  shows "distinct (map pl_pair_id (concat (map (plans_of_relationship env m e) rels)))"
  using assms(2,3)
proof (induction rels)
  case (Cons rel rels)
  note eq = pair_id_eq_iff[OF inj]
  have "distinct (map pl_pair_id (side_plans env m rel role))" for role
    using Cons.prems(2) by (auto simp: side_plans_def distinct_map inj_on_def comp_def
        simp del: side_plan_simps intro!: iffD1[OF eq[of rel _ rel _ role role], THEN conjunct2])
  then have "distinct (map pl_pair_id (plans_of_relationship env m e rel))"
    by (simp add: plans_of_relationship_eq)
  moreover have "pl_pair_id p \<noteq> pl_pair_id q"
    if p: "p \<in> set (plans_of_relationship env m e rel)" and r: "rel' \<in> set rels"
      and q: "q \<in> set (plans_of_relationship env m e rel')" for p q rel'
  proof -
    obtain role k where p': "p = side_plan env m rel role k" "k < unat (pair_count env rel)"
      using p by (auto simp: plans_of_relationship_eq in_side_plans split: if_splits)
    obtain role' k' where q': "q = side_plan env m rel' role' k'" "k' < unat (pair_count env rel')"
      using q by (auto simp: plans_of_relationship_eq in_side_plans split: if_splits)
    have "rel_id rel \<noteq> rel_id rel'" using Cons.prems(1) r by auto
    then show ?thesis
      using eq[of rel k rel' k' role role'] Cons.prems(2) p' q' r by auto
  qed
  ultimately show ?case
    using Cons by (auto simp del: map_concat)
qed simp

lemma distinct_plan_ids:
  "manifest_ok env m \<Longrightarrow> distinct (map pl_pair_id (derive_ic_pair_plans env m e))"
  unfolding derive_ic_pair_plans_def manifest_ok_def by (intro distinct_plan_ids_aux) auto

lemma plan_of_eq:
  assumes "manifest_ok env m"
  shows "plan_of env m e pid = Some p \<longleftrightarrow> p \<in> set (derive_ic_pair_plans env m e) \<and> pl_pair_id p = pid"
proof -
  have "distinct (map fst (map (\<lambda>p. (pl_pair_id p, p)) (derive_ic_pair_plans env m e)))"
    using distinct_plan_ids[OF assms, of e] by (simp add: comp_def)
  then show ?thesis
    by (auto simp: plan_of_def plan_map_def map_of_bt_collect_distinct map_of_eq_Some_iff)
qed

text \<open>The plans of one pair: one at the seller, one at the buyer, none elsewhere.\<close>

lemma plans_of_pair:
  assumes ok: "manifest_ok env m" and rel: "rel \<in> set (gm_ic_relationships m)"
    and k: "k < unat (pair_count env rel)"
  defines "pid \<equiv> pl_pair_id (side_plan env m rel Seller k)"
  shows "plan_of env m (rel_seller rel) pid = Some (side_plan env m rel Seller k)"
    and "plan_of env m (rel_buyer rel) pid = Some (side_plan env m rel Buyer k)"
    and "e \<notin> {rel_seller rel, rel_buyer rel} \<Longrightarrow> plan_of env m e pid = None"
proof -
  have sb: "rel_seller rel \<noteq> rel_buyer rel" using ok rel by (auto simp: manifest_ok_def)
  show "plan_of env m (rel_seller rel) pid = Some (side_plan env m rel Seller k)"
    "plan_of env m (rel_buyer rel) pid = Some (side_plan env m rel Buyer k)"
    unfolding plan_of_eq[OF ok] in_derived_plans pid_def using rel k sb by auto
  assume e: "e \<notin> {rel_seller rel, rel_buyer rel}"
  show "plan_of env m e pid = None"
  proof (rule ccontr)
    assume "plan_of env m e pid \<noteq> None"
    then obtain p where "p \<in> set (derive_ic_pair_plans env m e)" "pl_pair_id p = pid"
      using plan_of_eq[OF ok] by blast
    then obtain rel' k' role' where r': "rel' \<in> set (gm_ic_relationships m)" "k' < unat (pair_count env rel')"
        "pl_pair_id (side_plan env m rel' role' k') = pid" "e = rel_seller rel' \<or> e = rel_buyer rel'"
      unfolding in_derived_plans by blast
    have "inj_on (blake3 env) (ic_pair_messages env m)" using ok by (simp add: manifest_ok_def)
    from pair_id_eq_iff[OF this r'(1,2) rel k] r'(3) have "rel_id rel' = rel_id rel"
      unfolding pid_def by blast
    then have "rel' = rel"
      using ok r'(1) rel by (auto simp: manifest_ok_def distinct_map inj_on_def)
    then show False using e r'(4) by simp
  qed
qed

lemma filter_two:
  assumes "distinct xs" "a \<in> set xs" "b \<in> set xs" "a \<noteq> b"
  shows "filter (\<lambda>x. x \<in> {a, b}) xs = [a, b] \<or> filter (\<lambda>x. x \<in> {a, b}) xs = [b, a]"
proof -
  let ?f = "filter (\<lambda>x. x \<in> {a, b}) xs"
  have f: "distinct ?f" "set ?f = {a, b}" using assms by auto
  then have "length ?f = 2" using assms(4) distinct_card[OF f(1)] by simp
  then obtain x y where "?f = [x, y]" by (auto simp: length_Suc_conv numeral_2_eq_2)
  then show ?thesis using f assms(4) by auto
qed

lemma map_filter_filter:
  "List.map_filter f xs = List.map_filter f (filter (\<lambda>x. f x \<noteq> None) xs)"
  by (simp add: List.map_filter_def comp_def)

lemma observed_sides_shards:
  assumes "shards_complete env m je entity_jes"
  shows "observed_sides entity_jes =
    concat (map (\<lambda>e. map (\<lambda>(k, p). (pl_pair_id p,
          \<lparr>os_entity_code = e, os_je = build_je_for_plan (je e) k p e\<rparr>))
        (enumerate 0 (derive_ic_pair_plans env m e))) (map me_code (og_entities (gm_ownership_graph m))))"
proof -
  let ?f = "\<lambda>e je. map_option (\<lambda>pid. (pid, \<lparr>os_entity_code = e, os_je = je\<rparr>)) (ic_pair_id (header je))"
  have one: "List.map_filter (?f e) jes = map (\<lambda>(k, p). (pl_pair_id p,
          \<lparr>os_entity_code = e, os_je = build_je_for_plan (je e) k p e\<rparr>))
        (enumerate 0 (derive_ic_pair_plans env m e))" if "(e, jes) \<in> set entity_jes" for e jes
  proof -
    have "List.map_filter (?f e) jes = List.map_filter (?f e) (filter (\<lambda>x. ic_pair_id (header x) \<noteq> None) jes)"
      by (subst map_filter_filter) simp
    also have "filter (\<lambda>x. ic_pair_id (header x) \<noteq> None) jes
        = inject_ic_journal_entries (je e) (derive_ic_pair_plans env m e) e"
      using assms that by (auto simp: shards_complete_def)
    finally show ?thesis
      by (simp add: inject_ic_journal_entries_def List.map_filter_def comp_def split_beta)
  qed
  have "map fst entity_jes = map me_code (og_entities (gm_ownership_graph m))"
    using assms by (simp add: shards_complete_def)
  then show ?thesis
    using one by (auto simp: observed_sides_def simp flip: \<open>map fst _ = _\<close> intro!: arg_cong[of _ _ concat])
qed

text \<open>The sides of a pair: the seller and the buyer, in the order of the entities.\<close>

lemma enumerated_hits:
  assumes "distinct (map f xs)" "\<And>k p. h (g k p) = c"
  shows "map (\<lambda>kv. h (snd kv)) (filter (\<lambda>kv. fst kv = i) (map (\<lambda>(k, p). (f p, g k p)) (enumerate n xs)))
           = (if i \<in> f ` set xs then [c] else [])"
proof -
  have none: "filter (\<lambda>kv. fst kv = i) (map (\<lambda>(k, p). (f p, g k p)) (enumerate n xs)) = []"
    if "i \<notin> f ` set xs" for xs n
    using that by (auto simp: filter_empty_conv in_set_enumerate_eq)
  show ?thesis using assms(1)
  proof (induction xs arbitrary: n)
    case (Cons x xs)
    then show ?case
      using assms(2) none[of xs "Suc n"] by (auto simp: enumerate_simps)
  qed simp
qed

lemma concat_singletons: "concat (map (\<lambda>x. if P x then [x] else []) xs) = filter P xs"
  by (induction xs) simp_all

lemma sides_of_planned_pair:
  assumes ok: "manifest_ok env m" and shards: "shards_complete env m je entity_jes"
    and rel: "rel \<in> set (gm_ic_relationships m)" and k: "k < unat (pair_count env rel)"
  defines "pid \<equiv> pl_pair_id (side_plan env m rel Seller k)"
  defines "sides \<equiv> map snd (filter (\<lambda>kv. fst kv = pid) (observed_sides entity_jes))"
  shows "map os_entity_code sides \<in> {[rel_seller rel, rel_buyer rel], [rel_buyer rel, rel_seller rel]}"
proof -
  let ?codes = "map me_code (og_entities (gm_ownership_graph m))"
  note plans = plans_of_pair[OF ok rel k, folded pid_def]
  have mem: "pid \<in> pl_pair_id ` set (derive_ic_pair_plans env m e)
      \<longleftrightarrow> e \<in> {rel_seller rel, rel_buyer rel}" for e
  proof -
    have "pid \<in> pl_pair_id ` set (derive_ic_pair_plans env m e) \<longleftrightarrow> (\<exists>p. plan_of env m e pid = Some p)"
      using plan_of_eq[OF ok, of e pid] by auto
    then show ?thesis
      using plans by (cases "e \<in> {rel_seller rel, rel_buyer rel}") auto
  qed
  have "map os_entity_code sides = concat (map (\<lambda>e. if e \<in> {rel_seller rel, rel_buyer rel} then [e] else []) ?codes)"
    unfolding sides_def observed_sides_shards[OF shards] filter_concat map_concat map_map comp_def
    by (intro arg_cong[of _ _ concat] map_cong refl, subst mem[symmetric])
       (rule enumerated_hits[OF distinct_plan_ids[OF ok]]; simp)
  then have "map os_entity_code sides = filter (\<lambda>e. e \<in> {rel_seller rel, rel_buyer rel}) ?codes"
    by (simp only: concat_singletons)
  moreover have "distinct ?codes" "rel_seller rel \<in> set ?codes" "rel_buyer rel \<in> set ?codes"
    "rel_seller rel \<noteq> rel_buyer rel"
    using ok rel by (auto simp: manifest_ok_def)
  ultimately show ?thesis
    using filter_two[of ?codes "rel_seller rel" "rel_buyer rel"] by auto
qed

lemma classify_planned_pair:
  assumes ok: "manifest_ok env m" and shards: "shards_complete env m je entity_jes"
    and strategy: "mc_strategy (gm_matching m) = ManifestDriven"
    and entry: "(pid, sides) \<in> set (collect_sides entity_jes)"
  shows "\<exists>p. classify_pair env m pid sides = Inr ([p], [])"
proof -
  have sides: "sides = map snd (filter (\<lambda>kv. fst kv = pid) (observed_sides entity_jes))" "sides \<noteq> []"
    using entry grouped_entry unfolding collect_sides_eq by blast+
  then obtain side where "(pid, side) \<in> set (observed_sides entity_jes)"
    by (auto simp: filter_empty_conv)
  then obtain e p where p: "p \<in> set (derive_ic_pair_plans env m e)" "pl_pair_id p = pid"
    unfolding observed_sides_shards[OF shards] by (auto simp: in_set_enumerate_eq) (metis nth_mem)
  then obtain rel k where rel: "rel \<in> set (gm_ic_relationships m)" "k < unat (pair_count env rel)"
      and pid: "pid = pl_pair_id (side_plan env m rel Seller k)"
    unfolding in_derived_plans by (metis side_plan_simps(7))
  note plans = plans_of_pair[OF ok rel, folded pid]
  have "map os_entity_code sides \<in> {[rel_seller rel, rel_buyer rel], [rel_buyer rel, rel_seller rel]}"
    using sides_of_planned_pair[OF ok shards rel] by (simp add: sides(1) pid)
  then obtain x y where xy: "sides = [x, y]"
      "(os_entity_code x, os_entity_code y) \<in> {(rel_seller rel, rel_buyer rel), (rel_buyer rel, rel_seller rel)}"
    by (auto simp: map_eq_Cons_conv)
  then show ?thesis
    using plans(1,2) strategy
    by (auto simp: classify_pair_def plan_result_def join_sides_def drift_violation_def)
qed

lemma sum_list_if_distinct:
  "distinct xs \<Longrightarrow> a \<in> set xs \<Longrightarrow> sum_list (map (\<lambda>x. if x = a then c else 0) xs) = (c :: nat)"
  by (induction xs) (auto simp: sum_list_eq_0_iff)

lemma sum_list_if_two:
  "distinct xs \<Longrightarrow> a \<in> set xs \<Longrightarrow> b \<in> set xs \<Longrightarrow> a \<noteq> b \<Longrightarrow>
     sum_list (map (\<lambda>x. if x = a then c else if x = b then c else 0) xs) = (2 * c :: nat)"
proof -
  assume a: "distinct xs" "a \<in> set xs" "b \<in> set xs" "a \<noteq> b"
  have "sum_list (map (\<lambda>x. if x = a then c else if x = b then c else 0) xs)
      = sum_list (map (\<lambda>x. (if x = a then c else 0) + (if x = b then c else 0)) xs)"
    using a(4) by (intro arg_cong[of _ _ sum_list] map_cong) auto
  then show ?thesis using a by (simp add: sum_list_addf sum_list_if_distinct)
qed

lemma sum_list_swap:
  fixes f :: "'x \<Rightarrow> 'y \<Rightarrow> nat"
  shows "sum_list (map (\<lambda>x. sum_list (map (f x) ys)) xs) = sum_list (map (\<lambda>y. sum_list (map (\<lambda>x. f x y) xs)) ys)"
  by (induction xs) (simp_all add: sum_list_addf)

text \<open>The number of pairs: each is planned once by its seller, and derived twice.\<close>

lemma planned_and_derived:
  assumes ok: "manifest_ok env m"
  defines "codes \<equiv> map me_code (og_entities (gm_ownership_graph m))"
  defines "n \<equiv> sum_list (map (\<lambda>rel. unat (pair_count env rel)) (gm_ic_relationships m))"
  shows "total_planned_pairs env m = n"
    and "sum_list (map (\<lambda>e. length (derive_ic_pair_plans env m e)) codes) = 2 * n"
proof -
  have d: "distinct codes" and ends: "rel_seller rel \<in> set codes" "rel_buyer rel \<in> set codes"
    "rel_seller rel \<noteq> rel_buyer rel" if "rel \<in> set (gm_ic_relationships m)" for rel
    using ok that by (auto simp: manifest_ok_def codes_def)
  have seller: "length (filter (\<lambda>p. pl_role p = Seller) (plans_of_relationship env m e rel))
      = (if e = rel_seller rel then unat (pair_count env rel) else 0)" for e rel
    by (auto simp: plans_of_relationship_eq side_plans_def comp_def)
  have both: "length (plans_of_relationship env m e rel)
      = (if e = rel_seller rel then unat (pair_count env rel)
         else if e = rel_buyer rel then unat (pair_count env rel) else 0)" for e rel
    by (auto simp: plans_of_relationship_eq side_plans_def)
  have "total_planned_pairs env m
      = sum_list (map (\<lambda>e. sum_list (map (\<lambda>rel. if e = rel_seller rel then unat (pair_count env rel) else 0)
          (gm_ic_relationships m))) codes)"
    by (simp add: total_planned_pairs_def derive_ic_pair_plans_def codes_def filter_concat
        length_concat comp_def seller)
  also have "\<dots> = sum_list (map (\<lambda>rel. sum_list (map (\<lambda>e. if e = rel_seller rel
      then unat (pair_count env rel) else 0) codes)) (gm_ic_relationships m))"
    by (rule sum_list_swap)
  also have "\<dots> = n"
    unfolding n_def using d ends by (intro arg_cong[of _ _ sum_list] map_cong refl sum_list_if_distinct) auto
  finally show "total_planned_pairs env m = n" .
  have "sum_list (map (\<lambda>e. length (derive_ic_pair_plans env m e)) codes)
      = sum_list (map (\<lambda>e. sum_list (map (\<lambda>rel. if e = rel_seller rel then unat (pair_count env rel)
          else if e = rel_buyer rel then unat (pair_count env rel) else 0) (gm_ic_relationships m))) codes)"
    by (simp add: derive_ic_pair_plans_def length_concat comp_def both)
  also have "\<dots> = sum_list (map (\<lambda>rel. sum_list (map (\<lambda>e. if e = rel_seller rel
      then unat (pair_count env rel) else if e = rel_buyer rel then unat (pair_count env rel) else 0)
      codes)) (gm_ic_relationships m))"
    by (rule sum_list_swap)
  also have "\<dots> = sum_list (map (\<lambda>rel. 2 * unat (pair_count env rel)) (gm_ic_relationships m))"
    using d ends
    by (intro arg_cong[of _ _ sum_list] map_cong refl sum_list_if_two) auto
  also have "\<dots> = 2 * n" by (simp add: n_def sum_list_const_mult)
  finally show "sum_list (map (\<lambda>e. length (derive_ic_pair_plans env m e)) codes) = 2 * n" .
qed

lemma length_observed:
  "shards_complete env m je entity_jes \<Longrightarrow> length (observed_sides entity_jes) =
     sum_list (map (\<lambda>e. length (derive_ic_pair_plans env m e))
       (map me_code (og_entities (gm_ownership_graph m))))"
  by (simp add: observed_sides_shards length_concat comp_def)

lemma complete_match:
  fixes m :: "('f::linordered_field, 'd::linordered_field, 'x) GroupManifest"
    and entity_jes :: "(string \<times> (naive_date, 'ts, 'd, 'wf) JournalEntry list) list"
  assumes ok: "manifest_ok env m" and shards: "shards_complete env m je entity_jes"
    and strategy: "mc_strategy (gm_matching m) = ManifestDriven"
  obtains r where "match_ic_pairs env m entity_jes = Inr r" "mr_unmatched r = []"
    "mr_total_planned r = total_planned_pairs env m"
    "mr_coverage r = (if total_planned_pairs env m = 0 then 0
                      else of_nat (length (mr_matched r)) / of_nat (total_planned_pairs env m))"
proof -
  let ?g = "collect_sides entity_jes"
  have "\<forall>x \<in> set ?g. \<exists>p. (\<lambda>(pid, sides). classify_pair env m pid sides) x = Inr ([p], [])"
    using classify_planned_pair[OF ok shards strategy] by auto
  then obtain f where f: "\<And>x. x \<in> set ?g \<Longrightarrow>
      (\<lambda>(pid, sides). classify_pair env m pid sides) x = Inr ([f x], [])" by metis
  then have rs: "classified env m entity_jes = Inr (map (\<lambda>x. ([f x], [])) ?g)"
    unfolding classified_def try_map_Inr_iff list_all2_map2 by (intro list.rel_refl_strong) auto
  have parts: "concat (map fst (map (\<lambda>x. ([f x], [])) ?g)) = map f ?g"
    "concat (map snd (map (\<lambda>x. ([f x], [])) ?g)) = ([] :: ('ts, 'd, 'wf) UnmatchedSide list)"
    by (simp_all add: comp_def)
  define r :: "('ts, 'f, 'd, 'wf) IcMatchResult" where "r = \<lparr>mr_matched = sort_key mt_pair_id (map f ?g), mr_unmatched = [],
      mr_total_planned = total_planned_pairs env m,
      mr_coverage = (if total_planned_pairs env m = 0 then 0
         else of_nat (length (map f ?g)) / of_nat (total_planned_pairs env m))\<rparr>"
  have match: "match_ic_pairs env m entity_jes = Inr r"
    unfolding match_ic_pairs_classified
    by (rule exI[of _ "map (\<lambda>x. ([f x], [])) ?g"]) (simp only: rs parts r_def sort_key_simps simp_thms)
  show ?thesis by (rule that[OF match]) (simp_all add: r_def)
qed

text \<open>C11. End to end from the manifest to the match: when every shard posts the entries injected
  for its plans, among any other entries, the match succeeds, leaves no side unmatched, joins
  every planned pair, and reports full coverage.\<close>

theorem complete_shards_match:
  fixes m :: "('f::linordered_field, 'd::linordered_field, 'x) GroupManifest"
    and entity_jes :: "(string \<times> (naive_date, 'ts, 'd, 'wf) JournalEntry list) list"
  assumes ok: "manifest_ok env m" and shards: "shards_complete env m je entity_jes"
    and strategy: "mc_strategy (gm_matching m) = ManifestDriven"
  shows "\<exists>r. match_ic_pairs env m entity_jes = Inr r \<and> mr_unmatched r = []
           \<and> length (mr_matched r) = total_planned_pairs env m
           \<and> mr_total_planned r = total_planned_pairs env m
           \<and> mr_coverage r = (if total_planned_pairs env m = 0 then 0 else 1)"
proof -
  obtain r where r: "match_ic_pairs env m entity_jes = Inr r" "mr_unmatched r = []"
      "mr_total_planned r = total_planned_pairs env m"
      "mr_coverage r = (if total_planned_pairs env m = 0 then 0
                        else of_nat (length (mr_matched r)) / of_nat (total_planned_pairs env m))"
    by (rule complete_match[OF ok shards strategy])
  from arg_cong[OF match_sides[OF r(1)], of size]
  have "length (concat (map sides_of_pair (mr_matched r)) @ map side_of_unmatched (mr_unmatched r))
      = length (map snd (observed_sides entity_jes))"
    by (simp only: size_mset)
  then have "2 * length (mr_matched r) = length (observed_sides entity_jes)"
    by (simp add: r(2) length_concat sides_of_pair_def comp_def sum_list_triv)
  then have "length (mr_matched r) = total_planned_pairs env m"
    using planned_and_derived[OF ok] length_observed[OF shards] by simp
  then show ?thesis using r by auto
qed

section \<open>Concrete instances\<close>

text \<open>Shards that post exactly the injected entries.\<close>

definition posted_entries ::
    "'d::linordered_field group_env \<Rightarrow> ('f, 'd, 'x) GroupManifest \<Rightarrow> (string \<Rightarrow> 'ts je_env)
     \<Rightarrow> (string \<times> (naive_date, 'ts, 'd, 'wf) JournalEntry list) list" where
  "posted_entries env m je =
     map (\<lambda>e. (me_code e, inject_ic_journal_entries (je (me_code e))
                 (derive_ic_pair_plans env m (me_code e)) (me_code e)))
       (og_entities (gm_ownership_graph m))"

lemma posted_entries_complete: "shards_complete env m je (posted_entries env m je)"
  by (auto simp: shards_complete_def posted_entries_def inject_ic_journal_entries_def filter_id_conv)

lemma sample_manifest_ok: "manifest_ok sample_group_env sample_manifest"
  by (simp add: manifest_ok_def sample_manifest_def sample_manifest_entity_def sample_relationship_def
      sample_group_env_def)

lemma sample_planned: "total_planned_pairs sample_group_env sample_manifest = 2"
  using planned_and_derived(1)[OF sample_manifest_ok]
  by (simp add: sample_manifest_def sample_pair_count)

definition sample_je_env :: "string \<Rightarrow> nat je_env" where
  "sample_je_env e = \<lparr>cal_year = (\<lambda>d. 2024), cal_month = (\<lambda>d. 1), now_at = (\<lambda>k. k),
                      uuid_at = (\<lambda>k. replicate 16 (word_of_nat k))\<rparr>"

lemma complete_shards_match_witness:
  "\<exists>r :: (nat, rat, rat, unit) IcMatchResult.
     match_ic_pairs sample_group_env sample_manifest
         (posted_entries sample_group_env sample_manifest sample_je_env) = Inr r
     \<and> length (mr_matched r) = 2 \<and> mr_unmatched r = [] \<and> mr_coverage r = 1"
proof -
  have "mc_strategy (gm_matching sample_manifest) = ManifestDriven"
    by (simp add: sample_manifest_def default_matching_def)
  from complete_shards_match[OF sample_manifest_ok posted_entries_complete this, of sample_je_env]
  show ?thesis by (auto simp: sample_planned)
qed

text \<open>A group in which only the seller posts: both sides stay unmatched.\<close>

lemma match_partitions_observed_witness:
  "\<exists>r :: (nat, rat, rat, unit) IcMatchResult.
     match_ic_pairs sample_group_env sample_manifest
       [(''A'', [build_je_for_plan (sample_je_env ''A'') 0
                   (side_plan sample_group_env sample_manifest sample_relationship Seller 0) ''A''])]
       = Inr r
     \<and> size (mset (concat (map sides_of_pair (mr_matched r)) @ map side_of_unmatched (mr_unmatched r))) = 1"
proof -
  let ?p = "side_plan sample_group_env sample_manifest sample_relationship Seller 0"
  let ?jes = "[(''A'', [build_je_for_plan (sample_je_env ''A'') 0 ?p ''A'' :: (naive_date, nat, rat, unit) JournalEntry])]"
  have "plan_of sample_group_env sample_manifest ''A'' (pl_pair_id ?p) = Some ?p"
    using plans_of_pair(1)[OF sample_manifest_ok, of sample_relationship 0] sample_pair_count
    by (simp add: sample_manifest_def sample_relationship_def)
  then have "classified sample_group_env sample_manifest ?jes
      = Inr [([], [single_side (pl_pair_id ?p) ?p \<lparr>os_entity_code = ''A'', os_je = build_je_for_plan (sample_je_env ''A'') 0 ?p ''A''\<rparr>])]"
    by (simp add: classified_def collect_sides_def bt_push_def bt_entry_def classify_pair_def plan_result_def
        del: side_plan_simps)
  then obtain r where r: "match_ic_pairs sample_group_env sample_manifest ?jes = Inr r"
    unfolding match_ic_pairs_classified by blast
  have "mset (concat (map sides_of_pair (mr_matched r)) @ map side_of_unmatched (mr_unmatched r))
      = mset (map snd (observed_sides ?jes))"
    using match_partitions_observed[OF r] by blast
  from arg_cong[OF this, of size] r show ?thesis
    by (auto simp: observed_sides_def List.map_filter_def simp del: mset_append)
qed

end
