(* ===== verification/Group_Elimination.thy ===== *)
theory Group_Elimination
  imports Elimination Ic_Matcher "HOL-Library.Product_Lexorder"
begin

text \<open>
  Model of \<^verbatim>\<open>crates/datasynth-group/src/aggregate/elimination.rs\<close>: the elimination entries of the
  matched intercompany pairs. The calendar and the midnight of a date are parameters; the
  factories' time stamp \<open>now\<close> is replaced before an entry leaves the loop. The warnings of
  \<open>elimination_amount\<close> are only logged.
\<close>

section \<open>Entries of one pair\<close>

record 'ts elim_env =
  el_year :: "naive_date \<Rightarrow> int"
  el_month :: "naive_date \<Rightarrow> nat"
  el_midnight :: "naive_date \<Rightarrow> 'ts"

type_synonym ('ts, 'd) group_elimination = "(naive_date, 'ts, 'd) EliminationEntry"

definition IC_AR_CLEARING :: string where "IC_AR_CLEARING = ''1150''"
definition IC_AP_CLEARING :: string where "IC_AP_CLEARING = ''2050''"
definition IC_REVENUE :: string where "IC_REVENUE = ''4500''"
definition COGS_ACCOUNT :: string where "COGS_ACCOUNT = ''5000''"
definition IC_EXPENSE_ACCOUNT :: string where "IC_EXPENSE_ACCOUNT = ''6800''"
definition IC_INTEREST_INCOME :: string where "IC_INTEREST_INCOME = ''7000''"
definition INTEREST_EXPENSE :: string where "INTEREST_EXPENSE = ''7100''"
definition DIVIDEND_INCOME :: string where "DIVIDEND_INCOME = ''4900''"
definition RETAINED_EARNINGS :: string where "RETAINED_EARNINGS = ''3300''"

lemmas elimination_accounts =
  IC_AR_CLEARING_def IC_AP_CLEARING_def IC_REVENUE_def COGS_ACCOUNT_def IC_EXPENSE_ACCOUNT_def
  IC_INTEREST_INCOME_def INTEREST_EXPENSE_def DIVIDEND_INCOME_def RETAINED_EARNINGS_def

definition format_fiscal_period :: "'ts elim_env \<Rightarrow> naive_date \<Rightarrow> string" where
  "format_fiscal_period el d =
     show_int_padded 4 (el_year el d) @ pad_zero 2 (show_nat (el_month el d))"

text \<open>An identifier has 64 hexadecimal digits, so the first eight always exist.\<close>

definition short_pair_id :: "IcPairId \<Rightarrow> string" where
  "short_pair_id pid = take 8 (pair_id_to_hex pid)"

definition pair_reference :: "IcPairId \<Rightarrow> string" where
  "pair_reference pid = ''ic_pair_id='' @ pair_id_to_hex pid"

definition build_balance_entry ::
    "'ts \<Rightarrow> ('ts, 'd, 'wf) IcMatchedPair \<Rightarrow> 'd::linordered_field \<Rightarrow> string \<Rightarrow> naive_date \<Rightarrow> string
     \<Rightarrow> string \<Rightarrow> string \<Rightarrow> ('ts, 'd) group_elimination" where
  "build_balance_entry now p amount period dt entity cur pair_short =
     (let e = create_ic_balance_elimination now (''ELIM-BAL-'' @ pair_short) entity period dt
                (mt_seller_entity p) (mt_buyer_entity p) IC_AR_CLEARING IC_AP_CLEARING amount cur
      in e\<lparr>ee_ic_references := ee_ic_references e @ [pair_reference (mt_pair_id p)]\<rparr>)"

definition build_revenue_expense_entry ::
    "'ts \<Rightarrow> ('ts, 'd, 'wf) IcMatchedPair \<Rightarrow> IcTransactionType \<Rightarrow> 'd::linordered_field \<Rightarrow> string
     \<Rightarrow> naive_date \<Rightarrow> string \<Rightarrow> string \<Rightarrow> string \<Rightarrow> ('ts, 'd) group_elimination" where
  "build_revenue_expense_entry now p tx amount period dt entity cur pair_short =
     (let expense_account = (case tx of GoodsSale \<Rightarrow> COGS_ACCOUNT | _ \<Rightarrow> IC_EXPENSE_ACCOUNT);
          e = create_ic_revenue_expense_elimination now (''ELIM-REV-'' @ pair_short) entity period dt
                (mt_seller_entity p) (mt_buyer_entity p) IC_REVENUE expense_account amount cur
      in e\<lparr>ee_ic_references := ee_ic_references e @ [pair_reference (mt_pair_id p)]\<rparr>)"

definition build_interest_entry ::
    "'ts \<Rightarrow> ('ts, 'd, 'wf) IcMatchedPair \<Rightarrow> 'd::linordered_field \<Rightarrow> string \<Rightarrow> naive_date \<Rightarrow> string
     \<Rightarrow> string \<Rightarrow> string \<Rightarrow> ('ts, 'd) group_elimination" where
  "build_interest_entry now p amount period dt entity cur pair_short =
     (let seller = mt_seller_entity p; buyer = mt_buyer_entity p;
          e = (new_elimination now (''ELIM-INT-'' @ pair_short) ICInterest entity period dt cur)
                \<lparr>ee_related_companies := [seller, buyer],
                 ee_description := ''Eliminate IC interest between '' @ seller @ '' and '' @ buyer,
                 ee_ic_references := [pair_reference (mt_pair_id p)]\<rparr>;
          e = elim_add_line e (elim_line 1 seller IC_INTEREST_INCOME True amount cur
                (''Eliminate IC interest income from '' @ buyer))
      in elim_add_line e (elim_line 2 buyer INTEREST_EXPENSE False amount cur
           (''Eliminate IC interest expense to '' @ seller)))"

definition build_dividend_entry ::
    "'ts \<Rightarrow> ('ts, 'd, 'wf) IcMatchedPair \<Rightarrow> 'd::linordered_field \<Rightarrow> string \<Rightarrow> naive_date \<Rightarrow> string
     \<Rightarrow> string \<Rightarrow> string \<Rightarrow> ('ts, 'd) group_elimination" where
  "build_dividend_entry now p amount period dt entity cur pair_short =
     (let seller = mt_seller_entity p; buyer = mt_buyer_entity p;
          e = (new_elimination now (''ELIM-DIV-'' @ pair_short) ICDividends entity period dt cur)
                \<lparr>ee_related_companies := [seller, buyer],
                 ee_description := ''Eliminate IC dividend from '' @ buyer @ '' to '' @ seller,
                 ee_ic_references := [pair_reference (mt_pair_id p)]\<rparr>;
          e = elim_add_line e (elim_line 1 seller DIVIDEND_INCOME True amount cur
                (''Eliminate dividend income from '' @ buyer))
      in elim_add_line e (elim_line 2 buyer RETAINED_EARNINGS False amount cur
           ''Restore retained earnings''))"

definition build_entries_for_pair ::
    "'ts \<Rightarrow> ('ts, 'd, 'wf) IcMatchedPair \<Rightarrow> 'd IcPairPlan \<Rightarrow> 'd::linordered_field \<Rightarrow> string
     \<Rightarrow> ('f, 'd, 'x) GroupManifest \<Rightarrow> ('ts, 'd) group_elimination list" where
  "build_entries_for_pair now p plan amount period m =
     (let dt = posting_date (header (mt_seller_je p)); entity = gm_group_id m;
          cur = gm_presentation_currency m; pair_short = short_pair_id (mt_pair_id p);
          tx = pl_transaction_type plan;
          balance = build_balance_entry now p amount period dt entity cur pair_short
      in case tx of
           LoanInterest \<Rightarrow> [balance, build_interest_entry now p amount period dt entity cur pair_short]
         | Dividend \<Rightarrow> [balance, build_dividend_entry now p amount period dt entity cur pair_short]
         | _ \<Rightarrow> [balance, build_revenue_expense_entry now p tx amount period dt entity cur pair_short])"

text \<open>The amount of the first debit line of the seller, the total credit, or the plan's amount.\<close>

definition elimination_amount ::
    "(naive_date, 'ts, 'd::linordered_field, 'wf) JournalEntry \<Rightarrow> 'd IcPairPlan \<Rightarrow> 'd" where
  "elimination_amount seller_je plan =
     (case List.find is_debit (lines seller_je) of
        Some l \<Rightarrow> debit_amount l
      | None \<Rightarrow>
          (let total = sum_list (map credit_amount (lines seller_je)) in
           if total > 0 then total else pl_amount plan))"

section \<open>All pairs\<close>

datatype 'd EliminationMessage =
    SellerPlanMissing string IcPairId
  | UnbalancedElimination IcPairId EliminationType 'd 'd 'd

definition elim_lookup_plan ::
    "'d::linordered_field group_env \<Rightarrow> ('f, 'd, 'x) GroupManifest \<Rightarrow> 'd plan_cache \<Rightarrow> string
     \<Rightarrow> IcPairId \<Rightarrow> ('d EliminationMessage GroupError, 'd IcPairPlan) result \<times> 'd plan_cache" where
  "elim_lookup_plan env m cache entity_code pid =
     (case cached_plan env m cache entity_code pid of
        (Some p, cache') \<Rightarrow> (Inr p, cache')
      | (None, cache') \<Rightarrow> (Inl (AggregateError (SellerPlanMissing entity_code pid)), cache'))"

definition verify_balanced ::
    "('ts, 'd::linordered_field) group_elimination \<Rightarrow> ('ts, 'd, 'wf) IcMatchedPair
     \<Rightarrow> ('d EliminationMessage GroupError, unit) result" where
  "verify_balanced e p =
     (let diff = \<bar>ee_total_debit e - ee_total_credit e\<bar> in
      if diff > 1 / 100
      then Inl (AggregateError (UnbalancedElimination (mt_pair_id p) (ee_elimination_type e)
                  (ee_total_debit e) (ee_total_credit e) diff))
      else Inr ())"

text \<open>The inner loop: the time stamp is pinned, the balance checked, the entry pushed.\<close>

fun push_entries ::
    "'ts elim_env \<Rightarrow> ('ts, 'd, 'wf) IcMatchedPair \<Rightarrow> ('ts, 'd::linordered_field) group_elimination list
     \<Rightarrow> ('ts, 'd) group_elimination list
     \<Rightarrow> ('d EliminationMessage GroupError, ('ts, 'd) group_elimination list) result" where
  "push_entries el p [] out = Inr out"
| "push_entries el p (e # es) out =
     (let e' = e\<lparr>ee_created_at := el_midnight el (posting_date (header (mt_seller_je p)))\<rparr> in
      try_bind (verify_balanced e' p) (\<lambda>_. push_entries el p es (out @ [e'])))"

fun eliminate_loop ::
    "'d::linordered_field group_env \<Rightarrow> 'ts elim_env \<Rightarrow> 'ts \<Rightarrow> ('f, 'd, 'x) GroupManifest
     \<Rightarrow> 'd plan_cache \<Rightarrow> ('ts, 'd, 'wf) IcMatchedPair list \<Rightarrow> ('ts, 'd) group_elimination list
     \<Rightarrow> ('d EliminationMessage GroupError, ('ts, 'd) group_elimination list) result" where
  "eliminate_loop env el now m cache [] out = Inr out"
| "eliminate_loop env el now m cache (p # ps) out =
     (case elim_lookup_plan env m cache (mt_seller_entity p) (mt_pair_id p) of
        (Inl e, _) \<Rightarrow> Inl e
      | (Inr plan, cache') \<Rightarrow>
          (let amount = elimination_amount (mt_seller_je p) plan;
               period = format_fiscal_period el (posting_date (header (mt_seller_je p)))
           in try_bind (push_entries el p (build_entries_for_pair now p plan amount period m) out)
                (\<lambda>out'. eliminate_loop env el now m cache' ps out')))"

fun elimination_type_order :: "EliminationType \<Rightarrow> nat" where
  "elimination_type_order ICBalances = 0"
| "elimination_type_order ICRevenueExpense = 1"
| "elimination_type_order ICInterest = 2"
| "elimination_type_order ICDividends = 3"
| "elimination_type_order ICLoans = 4"
| "elimination_type_order ICProfitInInventory = 5"
| "elimination_type_order ICProfitInFixedAssets = 6"
| "elimination_type_order InvestmentEquity = 7"
| "elimination_type_order MinorityInterest = 8"
| "elimination_type_order Goodwill = 9"
| "elimination_type_order CurrencyTranslation = 10"

record ('ts, 'd) EliminationResult =
  rs_entries :: "('ts, 'd) group_elimination list"
  rs_total_debit :: 'd
  rs_total_credit :: 'd
  rs_by_type_counts :: "(EliminationType \<times> nat) list"

definition generate_eliminations ::
    "'d::linordered_field group_env \<Rightarrow> 'ts elim_env \<Rightarrow> 'ts \<Rightarrow> ('ts, 'd, 'wf) IcMatchedPair list
     \<Rightarrow> ('f, 'd, 'x) GroupManifest
     \<Rightarrow> ('d EliminationMessage GroupError, ('ts, 'd) EliminationResult) result" where
  "generate_eliminations env el now matched m =
     (let sorted_pairs =
            sort_key (\<lambda>p. (mt_seller_entity p, mt_buyer_entity p, mt_pair_id p)) matched
      in try_bind (eliminate_loop env el now m [] sorted_pairs []) (\<lambda>out.
           let entries = sort_key (\<lambda>e. (elimination_type_order (ee_elimination_type e), ee_entry_id e)) out
           in Inr \<lparr>rs_entries = entries,
                   rs_total_debit = sum_list (map ee_total_debit entries),
                   rs_total_credit = sum_list (map ee_total_credit entries),
                   rs_by_type_counts =
                     foldl (\<lambda>m e. bt_entry (ee_elimination_type e) 0 (\<lambda>n. n + 1) m) [] entries\<rparr>))"

definition eliminations_to_journal_entries ::
    "(naive_date, 'ts) conversion_env \<Rightarrow> ('ts, 'd::linordered_field) EliminationResult
     \<Rightarrow> (naive_date, 'ts, 'd, 'wf) JournalEntry list" where
  "eliminations_to_journal_entries cv r = elimination_to_journal_entries cv (rs_entries r)"

section \<open>The entries of a pair\<close>

lemma built_entries:
  assumes "e \<in> set (build_entries_for_pair now p plan amount period m)"
  shows "totals_ok e \<and> elim_is_balanced e \<and> ee_total_debit e = amount \<and> length (ee_lines e) = 2"
  using assms
  by (cases "pl_transaction_type plan")
     (auto simp: build_entries_for_pair_def Let_def build_balance_entry_def
       build_revenue_expense_entry_def build_interest_entry_def build_dividend_entry_def
       create_ic_balance_elimination_def create_ic_revenue_expense_elimination_def
       elim_is_balanced_def totals_ok_add_line)

text \<open>What one pair contributes, with the time stamps pinned.\<close>

definition entries_of_pair ::
    "'ts elim_env \<Rightarrow> 'ts \<Rightarrow> ('f, 'd::linordered_field, 'x) GroupManifest \<Rightarrow> ('ts, 'd, 'wf) IcMatchedPair
     \<Rightarrow> 'd IcPairPlan \<Rightarrow> ('ts, 'd) group_elimination list" where
  "entries_of_pair el now m p plan =
     map (\<lambda>e. e\<lparr>ee_created_at := el_midnight el (posting_date (header (mt_seller_je p)))\<rparr>)
       (build_entries_for_pair now p plan (elimination_amount (mt_seller_je p) plan)
          (format_fiscal_period el (posting_date (header (mt_seller_je p)))) m)"

lemma entries_of_pair_ok:
  assumes "e \<in> set (entries_of_pair el now m p plan)"
  shows "totals_ok e" "elim_is_balanced e"
    "ee_total_debit e = elimination_amount (mt_seller_je p) plan"
  using assms built_entries unfolding entries_of_pair_def
  by (fastforce simp: elim_is_balanced_def)+

lemma push_entries_pinned:
  assumes "\<forall>e \<in> set es. elim_is_balanced e"
  shows "push_entries el p es out = Inr (out @
           map (\<lambda>e. e\<lparr>ee_created_at := el_midnight el (posting_date (header (mt_seller_je p)))\<rparr>) es)"
  using assms
  by (induction es arbitrary: out) (simp_all add: verify_balanced_def elim_is_balanced_def Let_def)

section \<open>The loop\<close>

definition get_count :: "('k \<times> nat) list \<Rightarrow> 'k \<Rightarrow> nat" where
  "get_count m k = (case map_of m k of None \<Rightarrow> 0 | Some n \<Rightarrow> n)"

definition seller_plan ::
    "'d::linordered_field group_env \<Rightarrow> ('f, 'd, 'x) GroupManifest \<Rightarrow> ('ts, 'd, 'wf) IcMatchedPair
     \<Rightarrow> 'd IcPairPlan option" where
  "seller_plan env m p = plan_of env m (mt_seller_entity p) (mt_pair_id p)"

definition pair_entries ::
    "'d::linordered_field group_env \<Rightarrow> 'ts elim_env \<Rightarrow> 'ts \<Rightarrow> ('f, 'd, 'x) GroupManifest
     \<Rightarrow> ('ts, 'd, 'wf) IcMatchedPair
     \<Rightarrow> ('d EliminationMessage GroupError, ('ts, 'd) group_elimination list) result" where
  "pair_entries env el now m p =
     (case seller_plan env m p of
        None \<Rightarrow> Inl (AggregateError (SellerPlanMissing (mt_seller_entity p) (mt_pair_id p)))
      | Some plan \<Rightarrow> Inr (entries_of_pair el now m p plan))"

lemma eliminate_loop_pure:
  assumes "cache_ok env m cache"
  shows "eliminate_loop env el now m cache ps out =
    try_bind (try_map (pair_entries env el now m) ps) (\<lambda>ess. Inr (out @ concat ess))"
  using assms
proof (induction ps arbitrary: cache out)
  case (Cons p ps)
  obtain pl cache' where c: "cached_plan env m cache (mt_seller_entity p) (mt_pair_id p) = (pl, cache')"
    by force
  have pl: "pl = seller_plan env m p" "cache_ok env m cache'"
    using cached_plan_pure[OF Cons.prems, of "mt_seller_entity p" "mt_pair_id p"]
    by (simp_all add: c seller_plan_def)
  have push: "push_entries el p (build_entries_for_pair now p plan amount period m) out =
      Inr (out @ map (\<lambda>e. e\<lparr>ee_created_at := el_midnight el (posting_date (header (mt_seller_je p)))\<rparr>)
        (build_entries_for_pair now p plan amount period m))" for plan amount period
    by (rule push_entries_pinned) (simp add: built_entries)
  show ?case
    using Cons.IH[OF pl(2)]
    by (cases "seller_plan env m p"; cases "try_map (pair_entries env el now m) ps")
       (simp_all add: elim_lookup_plan_def c pl(1) pair_entries_def[of env el now m p] push entries_of_pair_def Let_def)
qed simp

lemma counted_types:
  "map_of (foldl (\<lambda>m e. bt_entry (key e) 0 (\<lambda>n. n + 1) m) [] es) k =
     (let n = length (filter (\<lambda>e. key e = k) es) in if n = 0 then None else Some (n :: nat))"
  (is "map_of (foldl ?f [] es) k = _")
proof -
  have "map_of (foldl ?f m es) k = (case map_of m k of
      None \<Rightarrow> let n = length (filter (\<lambda>e. key e = k) es) in if n = 0 then None else Some n
    | Some j \<Rightarrow> Some (j + length (filter (\<lambda>e. key e = k) es)))" for m
    by (induction es arbitrary: m) (auto simp: map_of_bt_entry Let_def split: option.split)
  then show ?thesis by simp
qed

lemma counts_wf: "bt_wf m \<Longrightarrow> bt_wf (foldl (\<lambda>m e. bt_entry (key e) 0 (\<lambda>n. n + 1 :: nat) m) m es)"
  by (induction es arbitrary: m) auto

text \<open>The result in one equation.\<close>

definition elimination_key :: "('ts, 'd) group_elimination \<Rightarrow> nat \<times> string" where
  "elimination_key e = (elimination_type_order (ee_elimination_type e), ee_entry_id e)"

lemma generate_eliminations_eq:
  "generate_eliminations env el now matched m =
     try_bind (try_map (pair_entries env el now m)
         (sort_key (\<lambda>p. (mt_seller_entity p, mt_buyer_entity p, mt_pair_id p)) matched)) (\<lambda>ess.
       let entries = sort_key elimination_key (concat ess)
       in Inr \<lparr>rs_entries = entries, rs_total_debit = sum_list (map ee_total_debit entries),
               rs_total_credit = sum_list (map ee_total_credit entries),
               rs_by_type_counts =
                 foldl (\<lambda>m e. bt_entry (ee_elimination_type e) 0 (\<lambda>n. n + 1) m) [] entries\<rparr>)"
  by (cases "try_map (pair_entries env el now m)
         (sort_key (\<lambda>p. (mt_seller_entity p, mt_buyer_entity p, mt_pair_id p)) matched)")
     (simp_all add: generate_eliminations_def eliminate_loop_pure elimination_key_def[abs_def] Let_def)

section \<open>What a pair leaves on the accounts\<close>

lemma injected_net:
  "je_net (build_je_for_plan je k plan e) a =
     (if fst (plan_accounts plan) = a then pl_amount plan else 0)
     - (if snd (plan_accounts plan) = a then pl_amount plan else 0)"
  by (simp add: build_je_for_plan_def plan_accounts_def new_entry_def add_line_def Let_def je_net_def
      debit_line_def credit_line_def signed_amount_def split: prod.split)

lemma injected_elimination_amount:
  "0 < pl_amount plan \<Longrightarrow> elimination_amount (build_je_for_plan je k plan e) plan' = pl_amount plan"
  by (simp add: build_je_for_plan_def new_entry_def add_line_def Let_def elimination_amount_def
      is_debit_def debit_line_def split: prod.split)

lemma built_net:
  "sum_list (map (\<lambda>e. elim_net e a) (build_entries_for_pair now p plan x period m)) =
     (case pl_transaction_type plan of
        LoanInterest \<Rightarrow> key_sum fst snd [(IC_AP_CLEARING, x), (IC_AR_CLEARING, - x),
                          (IC_INTEREST_INCOME, x), (INTEREST_EXPENSE, - x)] a
      | Dividend \<Rightarrow> key_sum fst snd [(IC_AP_CLEARING, x), (IC_AR_CLEARING, - x),
                          (DIVIDEND_INCOME, x), (RETAINED_EARNINGS, - x)] a
      | GoodsSale \<Rightarrow> key_sum fst snd [(IC_AP_CLEARING, x), (IC_AR_CLEARING, - x),
                          (IC_REVENUE, x), (COGS_ACCOUNT, - x)] a
      | _ \<Rightarrow> key_sum fst snd [(IC_AP_CLEARING, x), (IC_AR_CLEARING, - x),
                          (IC_REVENUE, x), (IC_EXPENSE_ACCOUNT, - x)] a)"
  by (cases "pl_transaction_type plan")
     (simp_all add: build_entries_for_pair_def Let_def build_balance_entry_def elim_net_def
       build_revenue_expense_entry_def build_interest_entry_def build_dividend_entry_def
       create_ic_balance_elimination_def create_ic_revenue_expense_elimination_def elim_signed_def
       del: append_Cons)

text \<open>What is left after the two injected entries and the eliminations of one pair.\<close>

fun residual :: "IcTransactionType \<Rightarrow> 'd::linordered_field \<Rightarrow> string \<Rightarrow> 'd" where
  "residual Dividend x a =
     (if a = ''1000'' then 2 * x else if a = ''1150'' \<or> a = ''3300'' then - x else 0)"
| "residual _ x a = 0"

definition pair_net :: "('ts, 'd::linordered_field, 'wf) IcMatchedPair \<Rightarrow> string \<Rightarrow> 'd" where
  "pair_net p a = je_net (mt_seller_je p) a + je_net (mt_buyer_je p) a"

lemma elim_net_update [simp]: "elim_net (e\<lparr>ee_created_at := t\<rparr>) = elim_net e"
  by (simp add: elim_net_def fun_eq_iff)

text \<open>A matched pair whose entries are those the injector builds for the two sides of one pair.\<close>

definition injected_pair ::
    "'d::linordered_field group_env \<Rightarrow> ('f, 'd, 'x) GroupManifest \<Rightarrow> 'd ResolvedIcRelationship
     \<Rightarrow> nat \<Rightarrow> ('ts, 'd, 'wf) IcMatchedPair \<Rightarrow> bool" where
  "injected_pair env m rel i p \<longleftrightarrow>
     mt_seller_entity p = rel_seller rel \<and> mt_buyer_entity p = rel_buyer rel
     \<and> (\<exists>je k. mt_seller_je p = build_je_for_plan je k (side_plan env m rel Seller i) (rel_seller rel))
     \<and> (\<exists>je k. mt_buyer_je p = build_je_for_plan je k (side_plan env m rel Buyer i) (rel_buyer rel))"

lemma pair_residual:
  assumes "injected_pair env m rel i p"
  shows "pair_net p a
      + sum_list (map (\<lambda>e. elim_net e a) (entries_of_pair el now m p (side_plan env m rel Seller i)))
      = residual (hd (rel_types rel)) (avg_amount (hd (rel_types rel))) a"
proof -
  let ?t = "hd (rel_types rel)" and ?ps = "side_plan env m rel Seller i"
  obtain je k je' k' where p: "mt_seller_je p = build_je_for_plan je k ?ps (rel_seller rel)"
      "mt_buyer_je p = build_je_for_plan je' k' (side_plan env m rel Buyer i) (rel_buyer rel)"
    using assms by (auto simp: injected_pair_def)
  have amount: "elimination_amount (mt_seller_je p) ?ps = avg_amount ?t"
    by (simp add: p(1) injected_elimination_amount)
  have "sum_list (map (\<lambda>e. elim_net e a) (entries_of_pair el now m p ?ps))
      = sum_list (map (\<lambda>e. elim_net e a) (build_entries_for_pair now p ?ps (avg_amount ?t)
          (format_fiscal_period el (posting_date (header (mt_seller_je p)))) m))"
    by (simp add: entries_of_pair_def amount comp_def)
  then show ?thesis
    by (cases ?t) (simp_all add: built_net pair_net_def p injected_net plan_accounts_def elimination_accounts)
qed

section \<open>From the shards to the eliminations\<close>

lemma observed_side_injected:
  assumes "shards_complete env m je entity_jes" "(pid, s) \<in> set (observed_sides entity_jes)"
  obtains k plan where "plan \<in> set (derive_ic_pair_plans env m (os_entity_code s))"
    "pl_pair_id plan = pid"
    "os_je s = build_je_for_plan (je (os_entity_code s)) k plan (os_entity_code s)"
proof -
  obtain e i where "i < length (derive_ic_pair_plans env m e)"
      "pid = pl_pair_id (derive_ic_pair_plans env m e ! i)"
      "s = \<lparr>os_entity_code = e, os_je = build_je_for_plan (je e) i (derive_ic_pair_plans env m e ! i) e\<rparr>"
    using assms(2) unfolding observed_sides_shards[OF assms(1)] by (auto simp: in_set_enumerate_eq)
  then show ?thesis by (intro that[of "derive_ic_pair_plans env m e ! i" i]) simp_all
qed

lemma plan_of_role:
  assumes "manifest_ok env m" "plan_of env m e pid = Some plan"
  obtains rel i where "rel \<in> set (gm_ic_relationships m)" "i < unat (pair_count env rel)"
    "plan = side_plan env m rel (pl_role plan) i" "pl_pair_id plan = pid"
    "e = (case pl_role plan of Seller \<Rightarrow> rel_seller rel | Buyer \<Rightarrow> rel_buyer rel)"
  using plan_of_eq[OF assms(1), of e pid plan] assms(2)
  unfolding in_derived_plans by (auto simp del: side_plan_simps(7) intro: that)

lemma matched_pair_injected:
  assumes ok: "manifest_ok env m" and shards: "shards_complete env m je entity_jes"
    and match: "match_ic_pairs env m entity_jes = Inr r" and p: "p \<in> set (mr_matched r)"
  obtains rel i where "rel \<in> set (gm_ic_relationships m)" "i < unat (pair_count env rel)"
    "injected_pair env m rel i p" "seller_plan env m p = Some (side_plan env m rel Seller i)"
proof -
  have "pair_faithful env m p" using match_parts[OF match] p unfolding parts_ok_def by blast
  then obtain ps pb where ps: "plan_of env m (mt_seller_entity p) (mt_pair_id p) = Some ps" "pl_role ps = Seller"
      and pb: "plan_of env m (mt_buyer_entity p) (mt_pair_id p) = Some pb" "pl_role pb = Buyer"
    by (auto simp: pair_faithful_def)
  obtain rel i where rel: "rel \<in> set (gm_ic_relationships m)" "i < unat (pair_count env rel)"
      "ps = side_plan env m rel Seller i" "pl_pair_id ps = mt_pair_id p" "mt_seller_entity p = rel_seller rel"
    using plan_of_role[OF ok ps(1)] ps(2) by (metis IcRole.simps(3))
  obtain rel' i' where rel': "rel' \<in> set (gm_ic_relationships m)" "i' < unat (pair_count env rel')"
      "pb = side_plan env m rel' Buyer i'" "pl_pair_id pb = mt_pair_id p" "mt_buyer_entity p = rel_buyer rel'"
    using plan_of_role[OF ok pb(1)] pb(2) by (metis IcRole.simps(4))
  have "inj_on (blake3 env) (ic_pair_messages env m)" using ok by (simp add: manifest_ok_def)
  from pair_id_eq_iff[OF this rel(1,2) rel'(1,2), of Seller Buyer] have "rel_id rel = rel_id rel'" "i = i'"
    using rel(3,4) rel'(3,4) by (simp_all del: side_plan_simps(7))
  then have same: "rel' = rel" "i' = i"
    using ok rel(1) rel'(1) by (auto simp: manifest_ok_def distinct_map inj_on_def)
  have side: "\<exists>je k. os_je s = build_je_for_plan je k plan (os_entity_code s)"
    if mem: "s \<in> set (sides_of_pair p)"
      and pl: "plan_of env m (os_entity_code s) (mt_pair_id p) = Some plan" for s plan
  proof -
    obtain k plan' where "plan' \<in> set (derive_ic_pair_plans env m (os_entity_code s))"
      "pl_pair_id plan' = mt_pair_id p"
      "os_je s = build_je_for_plan (je (os_entity_code s)) k plan' (os_entity_code s)"
      by (rule observed_side_injected[OF shards matched_side_observed[OF match p mem]])
    moreover from calculation(1,2) have "plan_of env m (os_entity_code s) (mt_pair_id p) = Some plan'"
      by (simp add: plan_of_eq[OF ok])
    ultimately show ?thesis using pl by auto
  qed
  have "\<exists>je k. mt_seller_je p = build_je_for_plan je k ps (mt_seller_entity p)"
    using side[of "\<lparr>os_entity_code = mt_seller_entity p, os_je = mt_seller_je p\<rparr>" ps] ps(1)
    by (simp add: sides_of_pair_def)
  moreover have "\<exists>je k. mt_buyer_je p = build_je_for_plan je k pb (mt_buyer_entity p)"
    using side[of "\<lparr>os_entity_code = mt_buyer_entity p, os_je = mt_buyer_je p\<rparr>" pb] pb(1)
    by (simp add: sides_of_pair_def)
  ultimately have "injected_pair env m rel i p"
    using rel(5) rel'(5) unfolding injected_pair_def rel(3) rel'(3) same by simp
  then show ?thesis
    using that[OF rel(1,2)] ps(1) rel(3) by (simp add: seller_plan_def)
qed

definition ic_entries ::
    "(string \<times> (naive_date, 'ts, 'd, 'wf) JournalEntry list) list
     \<Rightarrow> (naive_date, 'ts, 'd, 'wf) JournalEntry list" where
  "ic_entries entity_jes = filter (\<lambda>x. ic_pair_id (header x) \<noteq> None) (concat (map snd entity_jes))"

lemma observed_entries: "map (os_je \<circ> snd) (observed_sides entity_jes) = ic_entries entity_jes"
proof -
  have one: "map (\<lambda>a. os_je (snd a)) (List.map_filter (\<lambda>je. map_option (\<lambda>pid. (pid, \<lparr>os_entity_code = code, os_je = je\<rparr>))
      (ic_pair_id (header je))) jes) = filter (\<lambda>x. \<exists>y. ic_pair_id (header x) = Some y) jes" for code jes
    by (induction jes) (auto simp: List.map_filter_def)
  show ?thesis
    by (induction entity_jes) (auto simp: observed_sides_def ic_entries_def one simp del: map_map)
qed

lemma sum_list_mset_eq:
  fixes f :: "'a \<Rightarrow> 'b::comm_monoid_add"
  shows "mset xs = mset ys \<Longrightarrow> sum_list (map f xs) = sum_list (map f ys)"
  unfolding sum_mset_sum_list[symmetric] mset_map by simp

lemma sum_list_sort_key [simp]:
  fixes f :: "'a \<Rightarrow> 'b::comm_monoid_add"
  shows "sum_list (map f (sort_key k xs)) = sum_list (map f xs)"
  by (rule sum_list_mset_eq) simp

lemma converted_net:
  assumes "\<forall>e \<in> set es. elim_is_balanced e"
  shows "sum_list (map (\<lambda>x. je_net x a) (elimination_to_journal_entries cv es))
           = sum_list (map (\<lambda>e. elim_net e a) es)"
proof -
  have "filter elim_is_balanced es = es" using assms by (simp add: filter_id_conv)
  moreover have "sum_list (map (\<lambda>x. je_net x a) (map (\<lambda>(k, e). elimination_to_journal_entry cv k e) (enumerate n es)))
      = sum_list (map (\<lambda>e. elim_net e a) es)" for n
    by (induction es arbitrary: n) (simp_all add: enumerate_simps converted_entry)
  ultimately show ?thesis unfolding elimination_to_journal_entries_def by metis
qed

lemma sum_list_concat_map:
  "sum_list (map f (concat xss)) = sum_list (map (\<lambda>xs. sum_list (map f xs)) xss)"
  by (induction xss) simp_all

lemma sum_list_zero: "(\<And>x. x \<in> set xs \<Longrightarrow> f x = 0) \<Longrightarrow> sum_list (map f xs) = (0 :: 'b::comm_monoid_add)"
  by (induction xs) simp_all

lemma pair_entries_Inr:
  "pair_entries env el now m p = Inr es \<longleftrightarrow>
     seller_plan env m p \<noteq> None \<and> es = entries_of_pair el now m p (the (seller_plan env m p))"
  by (auto simp: pair_entries_def split: option.split)

lemma generate_eliminations_Inl:
  assumes "generate_eliminations env el now matched m = Inl err"
  shows "\<exists>p \<in> set matched. seller_plan env m p = None
           \<and> err = AggregateError (SellerPlanMissing (mt_seller_entity p) (mt_pair_id p))"
  using assms unfolding generate_eliminations_eq
  by (auto simp: result_simps Let_def pair_entries_def dest!: try_map_Inl split: option.splits)

lemma generate_eliminations_Inr:
  assumes "generate_eliminations env el now matched m = Inr r"
  shows "\<forall>p \<in> set matched. seller_plan env m p \<noteq> None"
    and "mset (rs_entries r) =
           mset (concat (map (\<lambda>p. entries_of_pair el now m p (the (seller_plan env m p))) matched))"
    and "sorted (map elimination_key (rs_entries r))"
    and "rs_total_debit r = sum_list (map ee_total_debit (rs_entries r))"
    and "rs_total_credit r = sum_list (map ee_total_credit (rs_entries r))"
    and "rs_by_type_counts r =
           foldl (\<lambda>m e. bt_entry (ee_elimination_type e) 0 (\<lambda>n. n + 1) m) [] (rs_entries r)"
proof -
  let ?ps = "sort_key (\<lambda>p. (mt_seller_entity p, mt_buyer_entity p, mt_pair_id p)) matched"
  obtain ess where ess: "try_map (pair_entries env el now m) ?ps = Inr ess"
      "rs_entries r = sort_key elimination_key (concat ess)"
      "rs_total_debit r = sum_list (map ee_total_debit (rs_entries r))"
      "rs_total_credit r = sum_list (map ee_total_credit (rs_entries r))"
      "rs_by_type_counts r =
           foldl (\<lambda>m e. bt_entry (ee_elimination_type e) 0 (\<lambda>n. n + 1) m) [] (rs_entries r)"
    using assms unfolding generate_eliminations_eq by (auto simp: result_simps Let_def)
  have "(\<forall>p \<in> set ps. seller_plan env m p \<noteq> None)
      \<and> ess = map (\<lambda>p. entries_of_pair el now m p (the (seller_plan env m p))) ps"
    if "try_map (pair_entries env el now m) ps = Inr ess" for ps ess
    using that by (induction ps arbitrary: ess) (auto simp: result_simps pair_entries_Inr)
  from this[OF ess(1)] have all: "\<forall>p \<in> set matched. seller_plan env m p \<noteq> None"
    and e: "ess = map (\<lambda>p. entries_of_pair el now m p (the (seller_plan env m p))) ?ps"
    by auto
  show "\<forall>p \<in> set matched. seller_plan env m p \<noteq> None" by (rule all)
  show "mset (rs_entries r) =
      mset (concat (map (\<lambda>p. entries_of_pair el now m p (the (seller_plan env m p))) matched))"
    by (simp add: ess(2) e mset_concat comp_def)
  show "sorted (map elimination_key (rs_entries r))" by (simp add: ess(2))
qed (use assms in \<open>auto simp: generate_eliminations_eq result_simps Let_def\<close>)

section \<open>Properties\<close>

text \<open>C15. The elimination engine, on any list of matched pairs: it fails only with the message
  that the seller of one of the pairs has no plan for it. Otherwise every pair has such a plan,
  the result holds exactly the entries of the pairs (each as often as a pair yields it), sorted
  by type and entry id, every entry is balanced and its totals are those of its lines, the
  totals of the result agree, and the counts by type are exact.\<close>

theorem generate_eliminations_exact:
  "case generate_eliminations env el now matched m of
     Inl err \<Rightarrow> list_ex (\<lambda>p. seller_plan env m p = None
         \<and> err = AggregateError (SellerPlanMissing (mt_seller_entity p) (mt_pair_id p))) matched
   | Inr r \<Rightarrow> list_all (\<lambda>p. seller_plan env m p \<noteq> None) matched
       \<and> mset (rs_entries r) = mset (concat (map (\<lambda>p. entries_of_pair el now m p (the (seller_plan env m p))) matched))
       \<and> sorted (map elimination_key (rs_entries r))
       \<and> list_all (\<lambda>e. elim_is_balanced e \<and> totals_ok e) (rs_entries r)
       \<and> rs_total_debit r = sum_list (map ee_total_debit (rs_entries r))
       \<and> rs_total_credit r = rs_total_debit r
       \<and> (\<forall>ty. get_count (rs_by_type_counts r) ty
               = length (filter (\<lambda>e. ee_elimination_type e = ty) (rs_entries r)))"
proof (cases "generate_eliminations env el now matched m")
  case (Inl err)
  then show ?thesis
    using generate_eliminations_Inl[OF Inl] by (auto simp: list_ex_iff)
next
  case (Inr r)
  note r = generate_eliminations_Inr[OF Inr]
  have "list_all (\<lambda>e. elim_is_balanced e \<and> totals_ok e) (rs_entries r)"
    using entries_of_pair_ok mset_eq_setD[OF r(2)] by (auto simp: list_all_iff)
  moreover from this have "rs_total_credit r = rs_total_debit r"
    unfolding r(4,5) by (intro arg_cong[of _ _ sum_list] map_cong) (auto simp: list_all_iff elim_is_balanced_def)
  moreover have "\<forall>ty. get_count (rs_by_type_counts r) ty
      = length (filter (\<lambda>e. ee_elimination_type e = ty) (rs_entries r))"
    unfolding r(6) get_count_def counted_types by (simp add: Let_def)
  ultimately show ?thesis
    using r(1-5) Inr by (simp add: list_all_iff)
qed

text \<open>From the manifest to the consolidated ledger: when every shard posts the entries injected
  for its plans and no relationship pays dividends, the match and the eliminations succeed, and
  on every account the intercompany entries of all shards together with the journal entries of
  the eliminations sum to zero.\<close>

lemma intercompany_nets_to_zero:
  fixes m :: "('f::linordered_field, 'd::linordered_field, 'x) GroupManifest"
    and entity_jes :: "(string \<times> (naive_date, 'ts, 'd, 'wf) JournalEntry list) list"
  assumes "manifest_ok env m" "shards_complete env m je entity_jes"
    and "mc_strategy (gm_matching m) = ManifestDriven"
    and "\<forall>rel \<in> set (gm_ic_relationships m). hd (rel_types rel) \<noteq> Dividend"
  shows "\<exists>r s. match_ic_pairs env m entity_jes = Inr r
           \<and> generate_eliminations env el now (mr_matched r) m = Inr s
           \<and> (\<forall>a. sum_list (map (\<lambda>x. je_net x a) (ic_entries entity_jes))
                + sum_list (map (\<lambda>x. je_net x a)
                    (eliminations_to_journal_entries cv s :: (naive_date, 'ts, 'd, 'wf) JournalEntry list)) = 0)"
proof -
  obtain r where match: "match_ic_pairs env m entity_jes = Inr r" "mr_unmatched r = []"
    using complete_match[OF assms(1-3)] by blast
  have pair: "seller_plan env m p \<noteq> None
      \<and> pair_net p a + sum_list (map (\<lambda>e. elim_net e a) (entries_of_pair el now m p (the (seller_plan env m p)))) = 0"
    if "p \<in> set (mr_matched r)" for p a
  proof (rule matched_pair_injected[OF assms(1,2) match(1) that])
    fix rel i assume "rel \<in> set (gm_ic_relationships m)" "injected_pair env m rel i p"
      "seller_plan env m p = Some (side_plan env m rel Seller i)"
    then show ?thesis
      using pair_residual[of env m rel i p a el now] assms(4) by (cases "hd (rel_types rel)") auto
  qed
  obtain s where s: "generate_eliminations env el now (mr_matched r) m = Inr s"
    using generate_eliminations_Inl[of env el now "mr_matched r" m] pair by (metis sum.exhaust)
  note entries = generate_eliminations_Inr[OF s]
  have balanced: "\<forall>e \<in> set (rs_entries s). elim_is_balanced e"
    using entries_of_pair_ok(2) mset_eq_setD[OF entries(2)] by auto
  have "sum_list (map (\<lambda>x. je_net x a) (ic_entries entity_jes))
      + sum_list (map (\<lambda>x. je_net x a)
          (eliminations_to_journal_entries cv s :: (naive_date, 'ts, 'd, 'wf) JournalEntry list)) = 0" for a
  proof -
    have "sum_list (map (\<lambda>x. je_net x a) (ic_entries entity_jes))
        = sum_list (map (\<lambda>s. je_net (os_je s) a) (map snd (observed_sides entity_jes)))"
      by (simp add: comp_def flip: observed_entries)
    also have "\<dots> = sum_list (map (\<lambda>s. je_net (os_je s) a) (concat (map sides_of_pair (mr_matched r))))"
      using match_sides[OF match(1)] by (intro sum_list_mset_eq) (simp add: match(2))
    also have "\<dots> = sum_list (map (\<lambda>p. pair_net p a) (mr_matched r))"
      by (simp add: sum_list_concat_map sides_of_pair_def pair_net_def comp_def)
    finally have shards: "sum_list (map (\<lambda>x. je_net x a) (ic_entries entity_jes))
        = sum_list (map (\<lambda>p. pair_net p a) (mr_matched r))" .
    have "sum_list (map (\<lambda>x. je_net x a)
          (eliminations_to_journal_entries cv s :: (naive_date, 'ts, 'd, 'wf) JournalEntry list))
        = sum_list (map (\<lambda>e. elim_net e a) (rs_entries s))"
      unfolding eliminations_to_journal_entries_def by (rule converted_net[OF balanced])
    also have "\<dots> = sum_list (map (\<lambda>p. sum_list (map (\<lambda>e. elim_net e a)
        (entries_of_pair el now m p (the (seller_plan env m p))))) (mr_matched r))"
      using sum_list_mset_eq[OF entries(2), of "\<lambda>e. elim_net e a"] by (simp add: sum_list_concat_map comp_def)
    finally show ?thesis
      unfolding shards using pair by (simp add: sum_list_zero flip: sum_list_addf)
  qed
  then show ?thesis using match(1) s by blast
qed

text \<open>The order of the matched pairs does not matter: as no pair identifier is matched twice,
  two lists with the same pairs give the same result, entry by entry.\<close>

theorem eliminations_order_independent:
  assumes "mset matched = mset matched'" "distinct (map mt_pair_id matched)"
  shows "generate_eliminations env el now matched m = generate_eliminations env el now matched' m"
proof -
  have "sort_key (\<lambda>p. (mt_seller_entity p, mt_buyer_entity p, mt_pair_id p)) matched
      = sort_key (\<lambda>p. (mt_seller_entity p, mt_buyer_entity p, mt_pair_id p)) matched'"
    using assms by (intro sort_key_inj_key_eq) (auto simp: distinct_map inj_on_def)
  then show ?thesis by (simp only: generate_eliminations_eq)
qed

text \<open>Dividends do not cancel. The injector books the paying side as cash against the
  clearing account, while the eliminations clear a receivable that was never booked and restore
  retained earnings: twice the amount stays on cash, and the intercompany receivable and the
  retained earnings are each credited once too often.\<close>

theorem dividend_elimination_residual:
  assumes "injected_pair env m rel i p" "hd (rel_types rel) = Dividend"
  shows "pair_net p a
      + sum_list (map (\<lambda>e. elim_net e a) (entries_of_pair el now m p (side_plan env m rel Seller i)))
      = (if a = ''1000'' then 150000 else if a = ''1150'' \<or> a = ''3300'' then - 75000
         else 0 :: 'd::linordered_field)"
  using pair_residual[OF assms(1), of a el now] assms(2) by simp

text \<open>The fiscal period travels as text: the year and month the elimination engine writes as
  YYYYMM are the year and period of the journal entry's header, for years of at most four
  digits.\<close>

theorem fiscal_period_roundtrip:
  assumes "0 \<le> el_year el d" "el_year el d < 10000" "el_month el d < 100"
  shows "parse_fiscal_period (format_fiscal_period el d)
           = Some (word_of_int (el_year el d), word_of_nat (el_month el d))"
proof -
  let ?y = "pad_zero 4 (show_nat (nat (el_year el d)))" and ?mo = "pad_zero 2 (show_nat (el_month el d))"
  have l: "length ?y = 4" "length ?mo = 2"
    using length_show_nat[of "nat (el_year el d)" 4] length_show_nat[of "el_month el d" 2] assms by auto
  have shown: "format_fiscal_period el d = ?y @ ?mo"
    using assms(1) by (simp add: format_fiscal_period_def show_int_padded_def)
  have "parse_unsigned (2 ^ 16 - 1) ?y = Some (nat (el_year el d))"
    "parse_unsigned (2 ^ 8 - 1) ?mo = Some (el_month el d)"
    using assms by (intro parse_pad_zero_show; simp)+
  then show ?thesis
    using assms(1) l by (simp add: parse_fiscal_period_def shown)
qed

section \<open>Concrete instances\<close>

definition sample_elim_env :: "nat elim_env" where
  "sample_elim_env = \<lparr>el_year = (\<lambda>d. 2024), el_month = (\<lambda>d. 3), el_midnight = (\<lambda>d. nat d)\<rparr>"

lemma sample_no_dividend: "\<forall>rel \<in> set (gm_ic_relationships sample_manifest). hd (rel_types rel) \<noteq> Dividend"
  by (simp add: sample_manifest_def sample_relationship_def)

definition sample_pair :: "u8 \<Rightarrow> (nat, rat, unit) IcMatchedPair" where
  "sample_pair n =
     \<lparr>mt_pair_id = IcPairId [n], mt_seller_entity = ''A'', mt_buyer_entity = ''B'',
      mt_seller_je = build_je_for_plan (sample_je_env ''A'') 0
        (side_plan sample_group_env sample_manifest
           (sample_relationship\<lparr>rel_types := [Dividend]\<rparr>) Seller 0) ''A'',
      mt_buyer_je = build_je_for_plan (sample_je_env ''B'') 0
        (side_plan sample_group_env sample_manifest
           (sample_relationship\<lparr>rel_types := [Dividend]\<rparr>) Buyer 0) ''B''\<rparr>"

lemma eliminations_order_independent_witness:
  "generate_eliminations sample_group_env sample_elim_env 0 [sample_pair 1, sample_pair 2] sample_manifest
   = generate_eliminations sample_group_env sample_elim_env 0 [sample_pair 2, sample_pair 1] sample_manifest"
  by (rule eliminations_order_independent) (simp_all add: sample_pair_def add_mset_commute)

lemma dividend_elimination_residual_witness:
  "pair_net (sample_pair 1) ''1000''
      + sum_list (map (\<lambda>e. elim_net e ''1000'') (entries_of_pair sample_elim_env 0 sample_manifest
          (sample_pair 1) (side_plan sample_group_env sample_manifest
             (sample_relationship\<lparr>rel_types := [Dividend]\<rparr>) Seller 0))) = 150000"
proof -
  have p: "injected_pair sample_group_env sample_manifest (sample_relationship\<lparr>rel_types := [Dividend]\<rparr>)
      0 (sample_pair 1)"
    unfolding injected_pair_def by (auto simp: sample_pair_def sample_relationship_def)
  have t: "hd (rel_types (sample_relationship\<lparr>rel_types := [Dividend]\<rparr>)) = Dividend" by simp
  show ?thesis
    using dividend_elimination_residual[OF p t, of "''1000''" sample_elim_env 0] by simp
qed

lemma fiscal_period_roundtrip_witness:
  "parse_fiscal_period (format_fiscal_period sample_elim_env 60) = Some (2024, 3)"
  using fiscal_period_roundtrip[of sample_elim_env 60] by (simp add: sample_elim_env_def)

end
