(* ===== verification/Accounts.thy ===== *)
theory Accounts
  imports Prelude
begin

text \<open>
  Model of the account classification: \<^verbatim>\<open>AccountCategory\<close> of
  \<^verbatim>\<open>crates/datasynth-core/src/accounts.rs\<close>, \<^verbatim>\<open>AccountType\<close> of
  \<^verbatim>\<open>models/balance/account_balance.rs\<close>, and the three classifiers of
  \<^verbatim>\<open>framework_accounts.rs\<close>. Of a \<^verbatim>\<open>FrameworkAccounts\<close> value only its classifier is
  modelled; its account numbers are data that nothing modelled here reads.
\<close>

section \<open>Categories and types\<close>

datatype AccountCategory =
    CatAsset | CatLiability | CatEquity | CatRevenue | CatCogs | CatOperatingExpense
  | CatOtherIncomeExpense | CatTax | CatSuspense | CatUnknown

fun as_label :: "AccountCategory \<Rightarrow> string" where
  "as_label CatAsset = ''asset''"
| "as_label CatLiability = ''liability''"
| "as_label CatEquity = ''equity''"
| "as_label CatRevenue = ''revenue''"
| "as_label CatCogs = ''cogs''"
| "as_label CatOperatingExpense = ''operating_expense''"
| "as_label CatOtherIncomeExpense = ''other_income_expense''"
| "as_label CatTax = ''tax''"
| "as_label CatSuspense = ''suspense''"
| "as_label CatUnknown = ''unknown''"

definition from_account :: "string \<Rightarrow> AccountCategory" where
  "from_account account =
     (case account of
        [] \<Rightarrow> CatUnknown
      | c # _ \<Rightarrow>
          if c = CHR ''1'' then CatAsset
          else if c = CHR ''2'' then CatLiability
          else if c = CHR ''3'' then CatEquity
          else if c = CHR ''4'' then CatRevenue
          else if c = CHR ''5'' then CatCogs
          else if c = CHR ''6'' then CatOperatingExpense
          else if c = CHR ''7'' then CatOtherIncomeExpense
          else if c = CHR ''8'' then CatTax
          else if c = CHR ''9'' then CatSuspense
          else CatUnknown)"

fun category_is_debit_normal :: "AccountCategory \<Rightarrow> bool" where
  "category_is_debit_normal CatAsset = True"
| "category_is_debit_normal CatCogs = True"
| "category_is_debit_normal CatOperatingExpense = True"
| "category_is_debit_normal CatOtherIncomeExpense = True"
| "category_is_debit_normal CatTax = True"
| "category_is_debit_normal _ = False"

fun category_is_credit_normal :: "AccountCategory \<Rightarrow> bool" where
  "category_is_credit_normal CatLiability = True"
| "category_is_credit_normal CatEquity = True"
| "category_is_credit_normal CatRevenue = True"
| "category_is_credit_normal _ = False"

fun category_is_balance_sheet :: "AccountCategory \<Rightarrow> bool" where
  "category_is_balance_sheet CatAsset = True"
| "category_is_balance_sheet CatLiability = True"
| "category_is_balance_sheet CatEquity = True"
| "category_is_balance_sheet _ = False"

fun category_is_income_statement :: "AccountCategory \<Rightarrow> bool" where
  "category_is_income_statement CatRevenue = True"
| "category_is_income_statement CatCogs = True"
| "category_is_income_statement CatOperatingExpense = True"
| "category_is_income_statement CatOtherIncomeExpense = True"
| "category_is_income_statement CatTax = True"
| "category_is_income_statement _ = False"

datatype AccountType =
    Asset | ContraAsset | Liability | ContraLiability | Equity | ContraEquity | Revenue | Expense

definition from_account_code :: "string \<Rightarrow> AccountType" where
  "from_account_code code =
     (let first_char = (case code of [] \<Rightarrow> CHR ''0'' | c # _ \<Rightarrow> c)
      in if first_char = CHR ''1'' then Asset
         else if first_char = CHR ''2'' then Liability
         else if first_char = CHR ''3'' then Equity
         else if first_char = CHR ''4'' then Revenue
         else if first_char \<in> {CHR ''5'', CHR ''6'', CHR ''7'', CHR ''8''} then Expense
         else Asset)"

definition is_contra_from_code :: "string \<Rightarrow> bool" where
  "is_contra_from_code code \<longleftrightarrow>
     contains code ''ACCUM'' \<or> contains code ''ALLOW'' \<or> contains code ''CONTRA''"

section \<open>Frameworks\<close>

fun account_type_from_category :: "AccountCategory \<Rightarrow> AccountType" where
  "account_type_from_category CatAsset = Asset"
| "account_type_from_category CatLiability = Liability"
| "account_type_from_category CatEquity = Equity"
| "account_type_from_category CatRevenue = Revenue"
| "account_type_from_category CatCogs = Expense"
| "account_type_from_category CatOperatingExpense = Expense"
| "account_type_from_category CatOtherIncomeExpense = Expense"
| "account_type_from_category CatTax = Expense"
| "account_type_from_category CatSuspense = Asset"
| "account_type_from_category CatUnknown = Asset"

definition us_gaap_classify :: "string \<Rightarrow> AccountCategory" where
  "us_gaap_classify account = from_account account"

text \<open>\<^verbatim>\<open>to_digit(10)\<close> of a character, and of the character at a position.\<close>

definition to_digit :: "char \<Rightarrow> nat option" where
  "to_digit c = (let n = (of_char c :: nat) in if 48 \<le> n \<and> n \<le> 57 then Some (n - 48) else None)"

definition digit_at :: "string \<Rightarrow> nat \<Rightarrow> nat option" where
  "digit_at s i = (if i < length s then to_digit (s ! i) else None)"

definition pcg_classify :: "string \<Rightarrow> AccountCategory" where
  "pcg_classify account =
     (case digit_at account 0 of
        None \<Rightarrow> CatUnknown
      | Some d \<Rightarrow>
          if d = 1 then
            (case digit_at account 1 of
               Some s \<Rightarrow> if s \<le> 4 then CatEquity else CatLiability
             | None \<Rightarrow> CatLiability)
          else if d = 2 then CatAsset
          else if d = 3 then CatAsset
          else if d = 4 then
            (case digit_at account 1 of
               Some s \<Rightarrow> if s = 1 then CatAsset else CatLiability
             | None \<Rightarrow> CatLiability)
          else if d = 5 then CatAsset
          else if d = 6 then CatOperatingExpense
          else if d = 7 then CatRevenue
          else if d = 8 then CatSuspense
          else if d = 9 then CatSuspense
          else CatUnknown)"

definition skr04_classify :: "string \<Rightarrow> AccountCategory" where
  "skr04_classify account =
     (case digit_at account 0 of
        None \<Rightarrow> CatUnknown
      | Some d \<Rightarrow>
          if d = 0 then CatAsset
          else if d = 1 then CatAsset
          else if d = 2 then CatEquity
          else if d = 3 then CatLiability
          else if d = 4 then CatRevenue
          else if d = 5 then CatCogs
          else if d = 6 then CatOperatingExpense
          else if d = 7 then CatOtherIncomeExpense
          else if d = 8 then CatTax
          else if d = 9 then CatSuspense
          else CatUnknown)"

text \<open>The classifier that \<^verbatim>\<open>for_framework\<close> selects; \<^verbatim>\<open>ifrs\<close> is \<^verbatim>\<open>us_gaap\<close>, and an
  unknown name falls back to it.\<close>

definition classify :: "string \<Rightarrow> string \<Rightarrow> AccountCategory" where
  "classify framework =
     (if framework \<in> {''us_gaap'', ''UsGaap'', ''ifrs'', ''Ifrs'', ''dual_reporting'', ''DualReporting''}
      then us_gaap_classify
      else if framework \<in> {''french_gaap'', ''FrenchGaap''} then pcg_classify
      else if framework \<in> {''german_gaap'', ''GermanGaap'', ''hgb''} then skr04_classify
      else us_gaap_classify)"

definition classify_account_type :: "string \<Rightarrow> string \<Rightarrow> AccountType" where
  "classify_account_type framework account_code =
     account_type_from_category (classify framework account_code)"

definition from_account_code_with_framework :: "string \<Rightarrow> string \<Rightarrow> AccountType" where
  "from_account_code_with_framework code framework = classify_account_type framework code"

lemma to_digit_chars [simp]:
  "to_digit CHR ''0'' = Some 0" "to_digit CHR ''1'' = Some 1" "to_digit CHR ''2'' = Some 2"
  "to_digit CHR ''3'' = Some 3" "to_digit CHR ''4'' = Some 4" "to_digit CHR ''5'' = Some 5"
  "to_digit CHR ''6'' = Some 6" "to_digit CHR ''7'' = Some 7" "to_digit CHR ''8'' = Some 8"
  "to_digit CHR ''9'' = Some 9"
  by (simp_all add: to_digit_def)

lemma to_digit_SomeD: "to_digit c = Some d \<Longrightarrow> d \<le> 9 \<and> c = char_of (48 + d)"
proof -
  assume d: "to_digit c = Some d"
  then have "(of_char c :: nat) = 48 + d" "d \<le> 9"
    by (auto simp: to_digit_def Let_def split: if_splits)
  then show ?thesis by (metis char_of_char)
qed

section \<open>Properties\<close>

text \<open>The short classification by first digit is the framework-aware one for every
  framework name that does not select the French or the German plan, known or not: for every
  code, of any length, the two give the same account type, which is never a contra type.\<close>

theorem from_account_code_is_framework_default:
  assumes "framework \<notin> {''french_gaap'', ''FrenchGaap'', ''german_gaap'', ''GermanGaap'', ''hgb''}"
  shows "from_account_code code = from_account_code_with_framework code framework \<and>
    from_account_code code \<in> {Asset, Liability, Equity, Revenue, Expense}"
  using assms
  by (cases code)
     (simp_all add: from_account_code_def from_account_code_with_framework_def classify_account_type_def
        classify_def us_gaap_classify_def from_account_def Let_def)

theorem from_account_code_is_framework_default_witness:
  "from_account_code_with_framework ''6100'' ''martian_gaap'' = Expense"
  using from_account_code_is_framework_default[of "''martian_gaap''" "''6100''"]
  by (simp add: from_account_code_def)

end
