(* ===== verification/Balance.thy ===== *)
theory Balance
  imports Accounts Complex_Main
begin

text \<open>
  Model of \<^verbatim>\<open>crates/datasynth-core/src/models/balance/account_balance.rs\<close>: the balance of
  one account, the snapshot of all accounts, the comparison of two snapshots and the activity
  of an account in a period. Amounts have a type parameter \<open>'d\<close> (an ordered field, exact
  arithmetic); divisions of \<^verbatim>\<open>Decimal\<close>, which round, are an argument \<open>divide_dec\<close>. A
  \<^verbatim>\<open>HashMap\<close> is an association list with distinct keys; its order stands for the iteration
  order, of which nothing is assumed. Every function that reads the clock takes \<open>now\<close>.
\<close>

section \<open>One account\<close>

record ('ts, 'd) AccountBalance =
  ab_company_code :: string
  ab_account_code :: string
  ab_account_description :: "string option"
  ab_account_type :: AccountType
  ab_currency :: string
  ab_opening_balance :: 'd
  ab_period_debits :: 'd
  ab_period_credits :: 'd
  ab_closing_balance :: 'd
  ab_fiscal_year :: i32
  ab_fiscal_period :: u32
  ab_group_currency_balance :: "'d option"
  ab_exchange_rate :: "'d option"
  ab_cost_center :: "string option"
  ab_profit_center :: "string option"
  ab_last_updated :: 'ts

definition new_balance ::
    "'ts \<Rightarrow> string \<Rightarrow> string \<Rightarrow> AccountType \<Rightarrow> string \<Rightarrow> i32 \<Rightarrow> u32
     \<Rightarrow> ('ts, 'd::linordered_field) AccountBalance" where
  "new_balance now company account ty cur year period =
     \<lparr>ab_company_code = company, ab_account_code = account, ab_account_description = None,
      ab_account_type = ty, ab_currency = cur, ab_opening_balance = 0, ab_period_debits = 0,
      ab_period_credits = 0, ab_closing_balance = 0, ab_fiscal_year = year,
      ab_fiscal_period = period, ab_group_currency_balance = None, ab_exchange_rate = None,
      ab_cost_center = None, ab_profit_center = None, ab_last_updated = now\<rparr>"

fun type_is_debit_normal :: "AccountType \<Rightarrow> bool" where
  "type_is_debit_normal Asset = True"
| "type_is_debit_normal Expense = True"
| "type_is_debit_normal ContraLiability = True"
| "type_is_debit_normal ContraEquity = True"
| "type_is_debit_normal _ = False"

definition is_debit_normal :: "('ts, 'd) AccountBalance \<Rightarrow> bool" where
  "is_debit_normal b = type_is_debit_normal (ab_account_type b)"

definition recalculate_closing ::
    "'ts \<Rightarrow> ('ts, 'd::linordered_field) AccountBalance \<Rightarrow> ('ts, 'd) AccountBalance" where
  "recalculate_closing now b =
     b\<lparr>ab_closing_balance :=
         (if ab_account_type b \<in> {Asset, Expense, ContraLiability, ContraEquity}
          then ab_opening_balance b + ab_period_debits b - ab_period_credits b
          else ab_opening_balance b - ab_period_debits b + ab_period_credits b),
       ab_last_updated := now\<rparr>"

definition apply_debit ::
    "'ts \<Rightarrow> ('ts, 'd::linordered_field) AccountBalance \<Rightarrow> 'd \<Rightarrow> ('ts, 'd) AccountBalance" where
  "apply_debit now b amount =
     recalculate_closing now (b\<lparr>ab_period_debits := ab_period_debits b + amount\<rparr>)"

definition apply_credit ::
    "'ts \<Rightarrow> ('ts, 'd::linordered_field) AccountBalance \<Rightarrow> 'd \<Rightarrow> ('ts, 'd) AccountBalance" where
  "apply_credit now b amount =
     recalculate_closing now (b\<lparr>ab_period_credits := ab_period_credits b + amount\<rparr>)"

definition set_opening_balance ::
    "'ts \<Rightarrow> ('ts, 'd::linordered_field) AccountBalance \<Rightarrow> 'd \<Rightarrow> ('ts, 'd) AccountBalance" where
  "set_opening_balance now b balance = recalculate_closing now (b\<lparr>ab_opening_balance := balance\<rparr>)"

definition net_change :: "('ts, 'd::linordered_field) AccountBalance \<Rightarrow> 'd" where
  "net_change b =
     (if ab_account_type b \<in> {Asset, Expense, ContraLiability, ContraEquity}
      then ab_period_debits b - ab_period_credits b
      else ab_period_credits b - ab_period_debits b)"

definition normal_balance :: "('ts, 'd::linordered_field) AccountBalance \<Rightarrow> 'd" where
  "normal_balance b = (if is_debit_normal b then ab_closing_balance b else - ab_closing_balance b)"

definition roll_forward ::
    "'ts \<Rightarrow> ('ts, 'd::linordered_field) AccountBalance \<Rightarrow> ('ts, 'd) AccountBalance" where
  "roll_forward now b =
     (let b1 = b\<lparr>ab_opening_balance := ab_closing_balance b, ab_period_debits := 0,
                ab_period_credits := 0\<rparr>;
          b2 = (if ab_fiscal_period b1 = 12
                then b1\<lparr>ab_fiscal_period := 1, ab_fiscal_year := ab_fiscal_year b1 + 1\<rparr>
                else b1\<lparr>ab_fiscal_period := ab_fiscal_period b1 + 1\<rparr>)
      in b2\<lparr>ab_last_updated := now\<rparr>)"

definition is_balance_sheet :: "('ts, 'd) AccountBalance \<Rightarrow> bool" where
  "is_balance_sheet b \<longleftrightarrow>
     ab_account_type b \<in> {Asset, Liability, Equity, ContraAsset, ContraLiability, ContraEquity}"

definition is_income_statement :: "('ts, 'd) AccountBalance \<Rightarrow> bool" where
  "is_income_statement b \<longleftrightarrow> ab_account_type b \<in> {Revenue, Expense}"

section \<open>Snapshots\<close>

record ('date, 'ts, 'd) BalanceSnapshot =
  sn_snapshot_id :: string
  sn_company_code :: string
  sn_as_of_date :: 'date
  sn_fiscal_year :: i32
  sn_fiscal_period :: u32
  sn_currency :: string
  sn_balances :: "(string \<times> ('ts, 'd) AccountBalance) list"
  sn_total_assets :: 'd
  sn_total_liabilities :: 'd
  sn_total_equity :: 'd
  sn_total_revenue :: 'd
  sn_total_expenses :: 'd
  sn_net_income :: 'd
  sn_is_balanced :: bool
  sn_balance_difference :: 'd
  sn_created_at :: 'ts

definition new_snapshot ::
    "'ts \<Rightarrow> string \<Rightarrow> string \<Rightarrow> 'date \<Rightarrow> i32 \<Rightarrow> u32 \<Rightarrow> string
     \<Rightarrow> ('date, 'ts, 'd::linordered_field) BalanceSnapshot" where
  "new_snapshot now i company dt year period cur =
     \<lparr>sn_snapshot_id = i, sn_company_code = company, sn_as_of_date = dt, sn_fiscal_year = year,
      sn_fiscal_period = period, sn_currency = cur, sn_balances = [], sn_total_assets = 0,
      sn_total_liabilities = 0, sn_total_equity = 0, sn_total_revenue = 0, sn_total_expenses = 0,
      sn_net_income = 0, sn_is_balanced = True, sn_balance_difference = 0, sn_created_at = now\<rparr>"

definition recalculate_totals ::
    "('date, 'ts, 'd::linordered_field) BalanceSnapshot \<Rightarrow> ('date, 'ts, 'd) BalanceSnapshot" where
  "recalculate_totals s =
     (let income = sn_total_revenue s - sn_total_expenses s;
          equity_with_income = sn_total_equity s + income;
          difference = sn_total_assets s - sn_total_liabilities s - equity_with_income
      in s\<lparr>sn_net_income := income, sn_balance_difference := difference,
           sn_is_balanced := (\<bar>difference\<bar> < 1 / 100)\<rparr>)"

fun add_to_totals ::
    "AccountType \<Rightarrow> 'd \<Rightarrow> ('date, 'ts, 'd::linordered_field) BalanceSnapshot
     \<Rightarrow> ('date, 'ts, 'd) BalanceSnapshot" where
  "add_to_totals Asset x s = s\<lparr>sn_total_assets := sn_total_assets s + x\<rparr>"
| "add_to_totals ContraAsset x s = s\<lparr>sn_total_assets := sn_total_assets s - x\<rparr>"
| "add_to_totals Liability x s = s\<lparr>sn_total_liabilities := sn_total_liabilities s + x\<rparr>"
| "add_to_totals ContraLiability x s = s\<lparr>sn_total_liabilities := sn_total_liabilities s - x\<rparr>"
| "add_to_totals Equity x s = s\<lparr>sn_total_equity := sn_total_equity s + x\<rparr>"
| "add_to_totals ContraEquity x s = s\<lparr>sn_total_equity := sn_total_equity s - x\<rparr>"
| "add_to_totals Revenue x s = s\<lparr>sn_total_revenue := sn_total_revenue s + x\<rparr>"
| "add_to_totals Expense x s = s\<lparr>sn_total_expenses := sn_total_expenses s + x\<rparr>"

definition add_balance ::
    "('date, 'ts, 'd::linordered_field) BalanceSnapshot \<Rightarrow> ('ts, 'd) AccountBalance
     \<Rightarrow> ('date, 'ts, 'd) BalanceSnapshot" where
  "add_balance s b =
     (let s1 = add_to_totals (ab_account_type b) (ab_closing_balance b) s
      in recalculate_totals
           (s1\<lparr>sn_balances := AList.update (ab_account_code b) b (sn_balances s1)\<rparr>))"

definition get_balance ::
    "('date, 'ts, 'd) BalanceSnapshot \<Rightarrow> string \<Rightarrow> ('ts, 'd) AccountBalance option" where
  "get_balance s account = map_of (sn_balances s) account"

definition balances_of_types ::
    "AccountType set \<Rightarrow> ('date, 'ts, 'd) BalanceSnapshot \<Rightarrow> ('ts, 'd) AccountBalance list" where
  "balances_of_types tys s = filter (\<lambda>b. ab_account_type b \<in> tys) (map snd (sn_balances s))"

definition get_asset_balances :: "('date, 'ts, 'd) BalanceSnapshot \<Rightarrow> ('ts, 'd) AccountBalance list" where
  "get_asset_balances = balances_of_types {Asset, ContraAsset}"

definition get_liability_balances :: "('date, 'ts, 'd) BalanceSnapshot \<Rightarrow> ('ts, 'd) AccountBalance list" where
  "get_liability_balances = balances_of_types {Liability, ContraLiability}"

definition get_equity_balances :: "('date, 'ts, 'd) BalanceSnapshot \<Rightarrow> ('ts, 'd) AccountBalance list" where
  "get_equity_balances = balances_of_types {Equity, ContraEquity}"

definition get_income_statement_balances ::
    "('date, 'ts, 'd) BalanceSnapshot \<Rightarrow> ('ts, 'd) AccountBalance list" where
  "get_income_statement_balances s = filter is_income_statement (map snd (sn_balances s))"

text \<open>The sum of the closing balances of the listed accounts that the snapshot has.\<close>

definition closing_sum :: "('date, 'ts, 'd::linordered_field) BalanceSnapshot \<Rightarrow> string list \<Rightarrow> 'd" where
  "closing_sum s codes = sum_list (map ab_closing_balance (List.map_filter (get_balance s) codes))"

definition current_ratio ::
    "('d \<Rightarrow> 'd \<Rightarrow> 'd) \<Rightarrow> ('date, 'ts, 'd::linordered_field) BalanceSnapshot \<Rightarrow> string list \<Rightarrow> string list
     \<Rightarrow> 'd option" where
  "current_ratio divide_dec s assets liabilities =
     (if closing_sum s liabilities \<noteq> 0
      then Some (divide_dec (closing_sum s assets) (closing_sum s liabilities)) else None)"

definition debt_to_equity_ratio ::
    "('d \<Rightarrow> 'd \<Rightarrow> 'd) \<Rightarrow> ('date, 'ts, 'd::linordered_field) BalanceSnapshot \<Rightarrow> 'd option" where
  "debt_to_equity_ratio divide_dec s =
     (if sn_total_equity s \<noteq> 0
      then Some (divide_dec (sn_total_liabilities s) (sn_total_equity s)) else None)"

definition gross_margin ::
    "('d \<Rightarrow> 'd \<Rightarrow> 'd) \<Rightarrow> ('date, 'ts, 'd::linordered_field) BalanceSnapshot \<Rightarrow> string list \<Rightarrow> 'd option" where
  "gross_margin divide_dec s cogs_accounts =
     (if sn_total_revenue s = 0 then None
      else Some (divide_dec (sn_total_revenue s - closing_sum s cogs_accounts) (sn_total_revenue s)))"

section \<open>Changes and activity\<close>

record 'd BalanceChange =
  bc_account_code :: string
  bc_account_description :: "string option"
  bc_prior_balance :: 'd
  bc_current_balance :: 'd
  bc_change_amount :: 'd
  bc_change_percent :: "'d option"
  bc_is_significant :: bool

definition new_change ::
    "('d \<Rightarrow> 'd \<Rightarrow> 'd) \<Rightarrow> string \<Rightarrow> string option \<Rightarrow> 'd \<Rightarrow> 'd \<Rightarrow> 'd::linordered_field \<Rightarrow> 'd BalanceChange" where
  "new_change divide_dec account desc prior current threshold =
     (let change = current - prior;
          percent = (if prior \<noteq> 0 then Some (divide_dec change \<bar>prior\<bar> * 100) else None)
      in \<lparr>bc_account_code = account, bc_account_description = desc, bc_prior_balance = prior,
          bc_current_balance = current, bc_change_amount = change, bc_change_percent = percent,
          bc_is_significant =
            (\<bar>change\<bar> \<ge> threshold \<or> (case percent of None \<Rightarrow> False | Some p \<Rightarrow> \<bar>p\<bar> \<ge> 10))\<rparr>)"

text \<open>The account codes of the prior snapshot, then the new ones of the current.\<close>

definition all_accounts ::
    "('date, 'ts, 'd) BalanceSnapshot \<Rightarrow> ('date, 'ts, 'd) BalanceSnapshot \<Rightarrow> string list" where
  "all_accounts prior current =
     fold (\<lambda>code acc. if code \<in> set acc then acc else acc @ [code])
       (map fst (sn_balances current)) (map fst (sn_balances prior))"

definition closing_or_zero :: "('date, 'ts, 'd::linordered_field) BalanceSnapshot \<Rightarrow> string \<Rightarrow> 'd" where
  "closing_or_zero s account =
     (case get_balance s account of None \<Rightarrow> 0 | Some b \<Rightarrow> ab_closing_balance b)"

definition change_description ::
    "('date, 'ts, 'd) BalanceSnapshot \<Rightarrow> ('date, 'ts, 'd) BalanceSnapshot \<Rightarrow> string \<Rightarrow> string option" where
  "change_description prior current account =
     (case Option.bind (get_balance current account) ab_account_description of
        Some d \<Rightarrow> Some d
      | None \<Rightarrow> Option.bind (get_balance prior account) ab_account_description)"

definition compare_snapshots ::
    "('d \<Rightarrow> 'd \<Rightarrow> 'd) \<Rightarrow> ('date, 'ts, 'd::linordered_field) BalanceSnapshot
     \<Rightarrow> ('date, 'ts, 'd) BalanceSnapshot \<Rightarrow> 'd \<Rightarrow> 'd BalanceChange list" where
  "compare_snapshots divide_dec prior current threshold =
     map (\<lambda>account. new_change divide_dec account (change_description prior current account)
                      (closing_or_zero prior account) (closing_or_zero current account) threshold)
       (filter (\<lambda>account. closing_or_zero prior account \<noteq> closing_or_zero current account)
         (all_accounts prior current))"

record ('date, 'd) AccountPeriodActivity =
  pa_account_code :: string
  pa_period_start :: 'date
  pa_period_end :: 'date
  pa_opening_balance :: 'd
  pa_closing_balance :: 'd
  pa_total_debits :: 'd
  pa_total_credits :: 'd
  pa_net_change :: 'd
  pa_transaction_count :: u32

definition new_activity :: "string \<Rightarrow> 'date \<Rightarrow> 'date \<Rightarrow> ('date, 'd::linordered_field) AccountPeriodActivity" where
  "new_activity account from_dt to_dt =
     \<lparr>pa_account_code = account, pa_period_start = from_dt, pa_period_end = to_dt,
      pa_opening_balance = 0, pa_closing_balance = 0, pa_total_debits = 0, pa_total_credits = 0,
      pa_net_change = 0, pa_transaction_count = 0\<rparr>"

definition add_debit ::
    "('date, 'd::linordered_field) AccountPeriodActivity \<Rightarrow> 'd \<Rightarrow> ('date, 'd) AccountPeriodActivity" where
  "add_debit a amount =
     a\<lparr>pa_total_debits := pa_total_debits a + amount, pa_net_change := pa_net_change a + amount,
       pa_transaction_count := pa_transaction_count a + 1\<rparr>"

definition add_credit ::
    "('date, 'd::linordered_field) AccountPeriodActivity \<Rightarrow> 'd \<Rightarrow> ('date, 'd) AccountPeriodActivity" where
  "add_credit a amount =
     a\<lparr>pa_total_credits := pa_total_credits a + amount, pa_net_change := pa_net_change a - amount,
       pa_transaction_count := pa_transaction_count a + 1\<rparr>"

section \<open>Posting to an account\<close>

text \<open>A run of postings, each a debit or a credit, through the operations of an account.\<close>

fun post_all :: "('a \<Rightarrow> 'd \<Rightarrow> 'a) \<Rightarrow> ('a \<Rightarrow> 'd \<Rightarrow> 'a) \<Rightarrow> 'a \<Rightarrow> (bool \<times> 'd) list \<Rightarrow> 'a" where
  "post_all debit credit a [] = a"
| "post_all debit credit a ((True, x) # ps) = post_all debit credit (debit a x) ps"
| "post_all debit credit a ((False, x) # ps) = post_all debit credit (credit a x) ps"

definition net_posted :: "(bool \<times> 'd::linordered_field) list \<Rightarrow> 'd" where
  "net_posted ps = sum_list (map (\<lambda>(d, x). if d then x else - x) ps)"

lemma net_posted_simps [simp]:
  "net_posted [] = 0" "net_posted ((True, x) # ps) = x + net_posted ps"
  "net_posted ((False, x) # ps) = net_posted ps - x"
  by (simp_all add: net_posted_def)

text \<open>What a ledger relies on: a debit moves the balance by the sign of the account, a credit
  against it, and neither changes the sign.\<close>

locale ledger_account =
  fixes debit credit :: "'a \<Rightarrow> 'd::linordered_field \<Rightarrow> 'a"
    and balance :: "'a \<Rightarrow> 'd" and direction :: "'a \<Rightarrow> 'd" and ok :: "'a \<Rightarrow> bool"
  assumes debit_balance: "ok a \<Longrightarrow> balance (debit a x) = balance a + direction a * x"
    and credit_balance: "ok a \<Longrightarrow> balance (credit a x) = balance a - direction a * x"
    and debit_keeps: "ok a \<Longrightarrow> ok (debit a x) \<and> direction (debit a x) = direction a"
    and credit_keeps: "ok a \<Longrightarrow> ok (credit a x) \<and> direction (credit a x) = direction a"
begin

lemma post_all_balance:
  "ok a \<Longrightarrow> balance (post_all debit credit a ps) = balance a + direction a * net_posted ps"
proof (induction ps arbitrary: a)
  case (Cons p ps)
  then show ?case
    by (cases p; cases "fst p")
       (auto simp: debit_balance credit_balance debit_keeps credit_keeps algebra_simps)
qed simp

lemma post_all_keeps:
  "ok a \<Longrightarrow> ok (post_all debit credit a ps) \<and> direction (post_all debit credit a ps) = direction a"
proof (induction ps arbitrary: a)
  case (Cons p ps)
  then show ?case by (cases p; cases "fst p") (auto simp: debit_keeps credit_keeps)
qed simp

lemma post_all_order:
  assumes "ok a" "mset ps = mset qs"
  shows "balance (post_all debit credit a ps) = balance (post_all debit credit a qs)"
proof -
  have "net_posted ps = net_posted qs"
    unfolding net_posted_def by (simp only: sum_mset_sum_list[symmetric] mset_map assms(2))
  then show ?thesis using assms(1) by (simp add: post_all_balance)
qed

end

text \<open>The invariant of a balance, and the sign of its account.\<close>

definition closing_ok :: "('ts, 'd::linordered_field) AccountBalance \<Rightarrow> bool" where
  "closing_ok b \<longleftrightarrow> ab_closing_balance b = ab_opening_balance b + net_change b"

definition type_sign :: "AccountType \<Rightarrow> 'd::linordered_field" where
  "type_sign ty = (if type_is_debit_normal ty then 1 else - 1)"

definition balance_sign :: "('ts, 'd::linordered_field) AccountBalance \<Rightarrow> 'd" where
  "balance_sign b = type_sign (ab_account_type b)"

named_theorems balance_simps \<open>reading a balance after one of its operations\<close>

lemma net_change_alt [balance_simps]:
  "net_change b = type_sign (ab_account_type b) * (ab_period_debits b - ab_period_credits b)"
  by (cases "ab_account_type b") (simp_all add: net_change_def type_sign_def)

lemma recalculate_closing_sel [balance_simps]:
  "ab_closing_balance (recalculate_closing now b) =
     ab_opening_balance b + type_sign (ab_account_type b) * (ab_period_debits b - ab_period_credits b)"
  "ab_opening_balance (recalculate_closing now b) = ab_opening_balance b"
  "ab_period_debits (recalculate_closing now b) = ab_period_debits b"
  "ab_period_credits (recalculate_closing now b) = ab_period_credits b"
  "ab_account_type (recalculate_closing now b) = ab_account_type b"
  "ab_account_code (recalculate_closing now b) = ab_account_code b"
  by (cases "ab_account_type b"; simp add: recalculate_closing_def type_sign_def)+

lemma apply_sel [balance_simps]:
  "ab_account_type (apply_debit now b x) = ab_account_type b"
  "ab_account_type (apply_credit now b x) = ab_account_type b"
  "ab_account_type (set_opening_balance now b x) = ab_account_type b"
  "ab_account_code (apply_debit now b x) = ab_account_code b"
  "ab_account_code (apply_credit now b x) = ab_account_code b"
  by (simp_all add: apply_debit_def apply_credit_def set_opening_balance_def balance_simps)

lemma apply_closing:
  assumes "closing_ok b"
  shows "ab_closing_balance (apply_debit now b x) = ab_closing_balance b + balance_sign b * x"
    "ab_closing_balance (apply_credit now b x) = ab_closing_balance b - balance_sign b * x"
  using assms
  by (simp_all add: closing_ok_def apply_debit_def apply_credit_def balance_sign_def balance_simps
      algebra_simps)

lemma closing_ok_intros [intro, simp]:
  "closing_ok (new_balance now c a ty cur y p)" "closing_ok (recalculate_closing now b)"
  "closing_ok (apply_debit now b x)" "closing_ok (apply_credit now b x)"
  "closing_ok (set_opening_balance now b x)" "closing_ok (roll_forward now b)"
  by (simp_all add: closing_ok_def apply_debit_def apply_credit_def set_opening_balance_def
      new_balance_def roll_forward_def Let_def balance_simps)

interpretation account_ledger:
  ledger_account "apply_debit now" "apply_credit now" ab_closing_balance balance_sign closing_ok
  by unfold_locales (auto simp: apply_closing balance_sign_def balance_simps)

interpretation activity_ledger:
  ledger_account add_debit add_credit pa_net_change "\<lambda>_. 1" "\<lambda>_. True"
  by unfold_locales (auto simp: add_debit_def add_credit_def)

lemma type_sign_cases: "type_sign ty = 1 \<or> type_sign ty = (- 1 :: 'd::linordered_field)"
  by (simp add: type_sign_def)

section \<open>Rolling forward\<close>

lemma roll_forward_sel [balance_simps]:
  "ab_closing_balance (roll_forward now b) = ab_closing_balance b"
  "ab_opening_balance (roll_forward now b) = ab_closing_balance b"
  "ab_fiscal_period (roll_forward now b) = (if ab_fiscal_period b = 12 then 1 else ab_fiscal_period b + 1)"
  "ab_fiscal_year (roll_forward now b) = (if ab_fiscal_period b = 12 then ab_fiscal_year b + 1 else ab_fiscal_year b)"
  "net_change (roll_forward now b) = 0"
  by (simp_all add: roll_forward_def Let_def net_change_def)

lemma roll_forward_funpow:
  assumes "1 \<le> p" "p \<le> 12" "ab_fiscal_period b = of_nat p"
  shows "ab_fiscal_period ((roll_forward now ^^ n) b) = of_nat ((p - 1 + n) mod 12 + 1) \<and>
    ab_fiscal_year ((roll_forward now ^^ n) b) = ab_fiscal_year b + of_nat ((p - 1 + n) div 12) \<and>
    ab_closing_balance ((roll_forward now ^^ n) b) = ab_closing_balance b"
proof (induction n)
  case 0
  then show ?case using assms by simp
next
  case (Suc n)
  define q where "q = (p - 1 + n) mod 12"
  have q: "q < 12" by (simp add: q_def)
  have eq12: "(of_nat (q + 1) :: u32) = 12 \<longleftrightarrow> q = 11"
    unfolding word_unat_eq_iff unat_of_nat using q by simp
  have step: "(p - 1 + Suc n) mod 12 = (if q = 11 then 0 else q + 1)"
    "(p - 1 + Suc n) div 12 = (p - 1 + n) div 12 + (if q = 11 then 1 else 0)"
    by (simp_all add: q_def mod_Suc div_Suc)
  show ?case
    using Suc.IH eq12 unfolding q_def[symmetric] step by (auto simp: balance_simps)
qed

section \<open>Snapshot totals\<close>

text \<open>The sum of the closing balances, debit-normal accounts positive, the others negative.\<close>

definition signed_closing :: "('ts, 'd::linordered_field) AccountBalance \<Rightarrow> 'd" where
  "signed_closing b = balance_sign b * ab_closing_balance b"

definition raw_difference :: "('date, 'ts, 'd::linordered_field) BalanceSnapshot \<Rightarrow> 'd" where
  "raw_difference s = sn_total_assets s - sn_total_liabilities s
     - (sn_total_equity s + (sn_total_revenue s - sn_total_expenses s))"

lemma recalculate_totals_sel [balance_simps]:
  "sn_balance_difference (recalculate_totals s) = raw_difference s"
  "sn_is_balanced (recalculate_totals s) \<longleftrightarrow> \<bar>raw_difference s\<bar> < 1 / 100"
  "sn_balances (recalculate_totals s) = sn_balances s"
  "raw_difference (recalculate_totals s) = raw_difference s"
  "sn_total_assets (recalculate_totals s) = sn_total_assets s"
  by (simp_all add: recalculate_totals_def raw_difference_def Let_def)

lemma add_to_totals_sel [balance_simps]:
  "raw_difference (add_to_totals ty x s) = raw_difference s + type_sign ty * x"
  "sn_balances (add_to_totals ty x s) = sn_balances s"
  by (cases ty; simp add: raw_difference_def type_sign_def)+

lemma raw_difference_balances [balance_simps]: "raw_difference (s\<lparr>sn_balances := m\<rparr>) = raw_difference s"
  by (simp add: raw_difference_def)

lemma add_balance_sel [balance_simps]:
  "raw_difference (add_balance s b) = raw_difference s + signed_closing b"
  "sn_balance_difference (add_balance s b) = raw_difference s + signed_closing b"
  "sn_is_balanced (add_balance s b) \<longleftrightarrow> \<bar>raw_difference s + signed_closing b\<bar> < 1 / 100"
  "sn_balances (add_balance s b) = AList.update (ab_account_code b) b (sn_balances s)"
  by (simp_all only: add_balance_def Let_def balance_simps signed_closing_def balance_sign_def simp_thms)
     simp

lemma fold_add_balance:
  "raw_difference (foldl add_balance s bs) = raw_difference s + sum_list (map signed_closing bs)"
  by (induction bs arbitrary: s) (simp_all add: balance_simps)

text \<open>What every snapshot that \<^verbatim>\<open>add_balance\<close> built satisfies.\<close>

definition totals_current :: "('date, 'ts, 'd::linordered_field) BalanceSnapshot \<Rightarrow> bool" where
  "totals_current s \<longleftrightarrow> sn_balance_difference s = raw_difference s
     \<and> (sn_is_balanced s \<longleftrightarrow> \<bar>raw_difference s\<bar> < 1 / 100)"

lemma totals_current_intros [intro, simp]:
  "totals_current (new_snapshot now i c d y p cur)" "totals_current (add_balance s b)"
  by (simp_all add: totals_current_def balance_simps)
     (simp add: new_snapshot_def raw_difference_def)

lemma totals_current_fold: "totals_current s \<Longrightarrow> totals_current (foldl add_balance s bs)"
  by (induction bs arbitrary: s) auto

lemma fold_balances:
  "distinct (map ab_account_code bs) \<Longrightarrow> (\<forall>b\<in>set bs. ab_account_code b \<notin> fst ` set (sn_balances s)) \<Longrightarrow>
   sn_balances (foldl add_balance s bs) = sn_balances s @ map (\<lambda>b. (ab_account_code b, b)) bs"
proof (induction bs arbitrary: s)
  case (Cons b bs)
  have upd: "k \<notin> fst ` set m \<Longrightarrow> AList.update k v m = m @ [(k, v)]" for k v and m :: "('k \<times> 'v) list"
    by (induction m) auto
  have "sn_balances (add_balance s b) = sn_balances s @ [(ab_account_code b, b)]"
    using Cons.prems(2) by (simp add: balance_simps upd)
  moreover have "\<forall>b'\<in>set bs. ab_account_code b' \<noteq> ab_account_code b"
    using Cons.prems(1) by (simp add: image_iff) metis
  ultimately show ?case using Cons.IH[of "add_balance s b"] Cons.prems by auto
qed simp

lemma new_change_sel [simp]:
  "bc_account_code (new_change dv a d x y t) = a" "bc_prior_balance (new_change dv a d x y t) = x"
  "bc_current_balance (new_change dv a d x y t) = y" "bc_change_amount (new_change dv a d x y t) = y - x"
  by (simp_all add: new_change_def Let_def)

lemma all_accounts_spec:
  assumes "distinct (map fst (sn_balances prior))"
  shows "distinct (all_accounts prior current) \<and>
    set (all_accounts prior current) = fst ` set (sn_balances prior) \<union> fst ` set (sn_balances current)"
proof -
  have "distinct acc \<Longrightarrow>
      distinct (fold (\<lambda>code acc. if code \<in> set acc then acc else acc @ [code]) cs acc) \<and>
      set (fold (\<lambda>code acc. if code \<in> set acc then acc else acc @ [code]) cs acc) = set acc \<union> set cs"
    for cs acc :: "string list"
    by (induction cs arbitrary: acc) auto
  from this[OF assms] show ?thesis by (simp add: all_accounts_def)
qed

lemma closing_or_zero_outside: "a \<notin> fst ` set (sn_balances s) \<Longrightarrow> closing_or_zero s a = 0"
  by (simp add: closing_or_zero_def get_balance_def map_of_eq_None_iff[symmetric] split: option.splits)

section \<open>Properties\<close>

text \<open>An account keeps its books: however debits and credits of any amounts are mixed
  after an opening balance is set, the closing balance is the opening balance plus the net
  change, which is the sum of the debits minus the sum of the credits in the direction of the
  account's type; only the multiset of postings matters, not their order.\<close>

theorem account_closing_balance:
  fixes x0 :: "'d::linordered_field" and now t :: 'ts and company account cur :: string
    and ty :: AccountType and y :: i32 and p :: u32 and ps qs :: "(bool \<times> 'd) list"
  assumes "mset ps = mset qs"
  defines "b \<equiv> set_opening_balance now (new_balance t company account ty cur y p) x0"
  defines "b' \<equiv> post_all (apply_debit now) (apply_credit now) b ps"
  shows "ab_closing_balance b' = x0 + type_sign ty * net_posted ps \<and>
    closing_ok b' \<and> ab_account_type b' = ty \<and>
    ab_closing_balance (post_all (apply_debit now) (apply_credit now) b qs) = ab_closing_balance b'"
proof -
  have b: "closing_ok b" "balance_sign b = type_sign ty" "ab_closing_balance b = x0"
    by (simp_all add: b_def balance_sign_def balance_simps set_opening_balance_def new_balance_def)
  have "ab_account_type (post_all (apply_debit now) (apply_credit now) c xs) = ab_account_type c"
    for c :: "('ts, 'd) AccountBalance" and xs
  proof (induction xs arbitrary: c)
    case (Cons x xs)
    then show ?case by (cases x; cases "fst x") (auto simp: balance_simps)
  qed simp
  then have "ab_account_type b' = ty"
    by (simp add: b'_def b_def balance_simps) (simp add: new_balance_def)
  then show ?thesis
    using account_ledger.post_all_balance[OF b(1)] account_ledger.post_all_keeps[OF b(1)]
      account_ledger.post_all_order[OF b(1) assms(1)[symmetric]] b by (simp add: b'_def)
qed

theorem account_closing_balance_witness:
  "ab_closing_balance (post_all (apply_debit ()) (apply_credit ())
     (set_opening_balance () (new_balance () ''C'' ''2000'' Liability ''USD'' 2024 1) (100::rat))
     [(True, 30), (False, 50)]) = 120"
  using account_closing_balance[of "[(True, 30), (False, 50)]" "[(False, 50), (True, 30)]" "()" "()"
      "''C''" "''2000''" Liability "''USD''" 2024 1 "100::rat"]
  by (simp add: type_sign_def)

text \<open>Rolling forward \<open>n\<close> times from a period between 1 and 12 counts periods modulo 12
  and years by the carries, and leaves the closing balance as it was.\<close>

theorem roll_forward_calendar:
  assumes "1 \<le> p" "p \<le> 12" "ab_fiscal_period b = of_nat p"
  shows "ab_fiscal_period ((roll_forward now ^^ n) b) = of_nat ((p - 1 + n) mod 12 + 1) \<and>
    ab_fiscal_year ((roll_forward now ^^ n) b) = ab_fiscal_year b + of_nat ((p - 1 + n) div 12) \<and>
    ab_closing_balance ((roll_forward now ^^ n) b) = ab_closing_balance b"
  using roll_forward_funpow[OF assms] .

theorem roll_forward_calendar_witness:
  "ab_fiscal_year ((roll_forward () ^^ 14) (new_balance () ''C'' ''1000'' Asset ''USD'' 2024 11 :: (unit, rat) AccountBalance)) = 2026"
  using roll_forward_calendar[of 11 "new_balance () ''C'' ''1000'' Asset ''USD'' 2024 11 :: (unit, rat) AccountBalance" 14 "()"]
  by (simp add: new_balance_def)

text \<open>The balance-sheet equation of a snapshot is its trial balance: for balances of
  different accounts added to a new snapshot in any order, the recorded difference is the sum
  of the closing balances of the accounts it holds, taken positive for debit-normal accounts
  and negative for the others, and the snapshot says balanced exactly when that sum is below
  one cent.\<close>

theorem snapshot_is_trial_balance:
  fixes bs :: "('ts, 'd::linordered_field) AccountBalance list" and now :: 'ts and dt :: 'date
    and i company cur :: string and y :: i32 and p :: u32
  assumes "distinct (map ab_account_code bs)"
  defines "s \<equiv> foldl add_balance (new_snapshot now i company dt y p cur) bs"
  shows "sn_balance_difference s = sum_list (map (signed_closing \<circ> snd) (sn_balances s)) \<and>
    (sn_is_balanced s \<longleftrightarrow> \<bar>sum_list (map (signed_closing \<circ> snd) (sn_balances s))\<bar> < 1 / 100) \<and>
    sn_balances s = map (\<lambda>b. (ab_account_code b, b)) bs"
proof -
  let ?n = "new_snapshot now i company dt y p cur"
  have "sn_balances s = map (\<lambda>b. (ab_account_code b, b)) bs"
    using fold_balances[OF assms(1), of ?n] by (simp add: s_def new_snapshot_def)
  moreover have "raw_difference s = sum_list (map signed_closing bs)"
    by (simp add: s_def fold_add_balance) (simp add: new_snapshot_def raw_difference_def)
  moreover have "totals_current s" by (simp add: s_def totals_current_fold)
  ultimately show ?thesis by (simp add: totals_current_def comp_def)
qed

theorem snapshot_is_trial_balance_witness:
  "sn_is_balanced (foldl add_balance (new_snapshot () ''S'' ''C'' () 2024 1 ''USD'')
     [set_opening_balance () (new_balance () ''C'' ''1000'' Asset ''USD'' 2024 1) (100::rat),
      set_opening_balance () (new_balance () ''C'' ''2000'' Liability ''USD'' 2024 1) 100])"
  using snapshot_is_trial_balance[of
     "[set_opening_balance () (new_balance () ''C'' ''1000'' Asset ''USD'' 2024 1) (100::rat),
      set_opening_balance () (new_balance () ''C'' ''2000'' Liability ''USD'' 2024 1) 100]"
     "()" "''S''" "''C''" "()" 2024 1 "''USD''"]
  by (simp add: set_opening_balance_def recalculate_closing_def new_balance_def signed_closing_def
      balance_sign_def type_sign_def)

text \<open>Comparing two snapshots reports each account whose closing balance changed exactly
  once and no other account, an account missing from one of them counting as zero there, with
  the amounts of the two snapshots.\<close>

theorem compare_snapshots_exact:
  assumes "distinct (map fst (sn_balances prior))"
  shows "distinct (map bc_account_code (compare_snapshots divide_dec prior current threshold)) \<and>
    bc_account_code ` set (compare_snapshots divide_dec prior current threshold) =
      {a. closing_or_zero prior a \<noteq> closing_or_zero current a} \<and>
    (\<forall>c. c \<in> set (compare_snapshots divide_dec prior current threshold) \<longrightarrow>
       bc_prior_balance c = closing_or_zero prior (bc_account_code c) \<and>
       bc_current_balance c = closing_or_zero current (bc_account_code c) \<and>
       bc_change_amount c = bc_current_balance c - bc_prior_balance c \<and> bc_change_amount c \<noteq> 0)"
proof -
  have "closing_or_zero prior a \<noteq> closing_or_zero current a \<Longrightarrow> a \<in> set (all_accounts prior current)" for a
    using all_accounts_spec[OF assms, of current] closing_or_zero_outside[of a prior]
      closing_or_zero_outside[of a current] by auto
  then show ?thesis
    using all_accounts_spec[OF assms, of current]
    by (auto simp: compare_snapshots_def comp_def image_image)
qed

theorem compare_snapshots_exact_witness:
  "bc_account_code ` set (compare_snapshots (\<lambda>x y. x / y)
     (new_snapshot () ''P'' ''C'' () 2024 1 ''USD'' :: (unit, unit, rat) BalanceSnapshot)
     (add_balance (new_snapshot () ''Q'' ''C'' () 2024 2 ''USD'')
        (set_opening_balance () (new_balance () ''C'' ''1000'' Asset ''USD'' 2024 2) 5)) 1) = {''1000''}"
  by (subst conjunct1[OF conjunct2[OF compare_snapshots_exact]])
     (auto simp: new_snapshot_def add_balance_def Let_def recalculate_totals_def closing_or_zero_def
       get_balance_def set_opening_balance_def recalculate_closing_def new_balance_def)

text \<open>The sign of \<^verbatim>\<open>normal_balance\<close> for a credit-normal account.\<close>

lemma normal_balance_credit_normal:
  "\<not> is_debit_normal b \<Longrightarrow> 0 < ab_closing_balance b \<Longrightarrow> normal_balance b < 0"
  by (simp add: normal_balance_def)

end
