(* ===== verification/Trial_Balance.thy ===== *)
theory Trial_Balance
  imports Balance Ledger "HOL-Library.Product_Lexorder"
begin

text \<open>
  Model of \<^verbatim>\<open>crates/datasynth-core/src/models/balance/trial_balance.rs\<close>: the trial balance of
  one company with its category summaries and the accounting-equation check, and the
  comparative trial balance of several periods. Amounts and hash maps are modelled as in the
  theory of account balances; a function that reads the clock takes \<open>now\<close>.
\<close>

section \<open>Categories\<close>

datatype TrialBalanceCategory =
    CurrentAssets | NonCurrentAssets | CurrentLiabilities | NonCurrentLiabilities
  | EquityCategory | RevenueCategory | CostOfGoodsSold | OperatingExpenses
  | OtherIncome | OtherExpenses

fun category_rank :: "TrialBalanceCategory \<Rightarrow> nat" where
  "category_rank CurrentAssets = 0"
| "category_rank NonCurrentAssets = 1"
| "category_rank CurrentLiabilities = 2"
| "category_rank NonCurrentLiabilities = 3"
| "category_rank EquityCategory = 4"
| "category_rank RevenueCategory = 5"
| "category_rank CostOfGoodsSold = 6"
| "category_rank OperatingExpenses = 7"
| "category_rank OtherIncome = 8"
| "category_rank OtherExpenses = 9"

lemma category_rank_inj: "category_rank c = category_rank c' \<Longrightarrow> c = c'"
  by (cases c; cases c') simp_all

text \<open>The derived order is the order of declaration.\<close>

instantiation TrialBalanceCategory :: linorder
begin

definition less_eq_TrialBalanceCategory :: "TrialBalanceCategory \<Rightarrow> TrialBalanceCategory \<Rightarrow> bool" where
  "less_eq_TrialBalanceCategory c c' \<longleftrightarrow> category_rank c \<le> category_rank c'"

definition less_TrialBalanceCategory :: "TrialBalanceCategory \<Rightarrow> TrialBalanceCategory \<Rightarrow> bool" where
  "less_TrialBalanceCategory c c' \<longleftrightarrow> category_rank c < category_rank c'"

instance
  by standard (auto simp: less_eq_TrialBalanceCategory_def less_TrialBalanceCategory_def
      intro: category_rank_inj)

end

fun tb_category_of_type :: "AccountType \<Rightarrow> TrialBalanceCategory" where
  "tb_category_of_type Asset = CurrentAssets"
| "tb_category_of_type ContraAsset = CurrentAssets"
| "tb_category_of_type Liability = CurrentLiabilities"
| "tb_category_of_type ContraLiability = CurrentLiabilities"
| "tb_category_of_type Equity = EquityCategory"
| "tb_category_of_type ContraEquity = EquityCategory"
| "tb_category_of_type Revenue = RevenueCategory"
| "tb_category_of_type Expense = OperatingExpenses"

definition tb_category_of_code :: "string \<Rightarrow> TrialBalanceCategory" where
  "tb_category_of_code code =
     (let prefix = take 2 code in
      if prefix \<in> {''10'', ''11'', ''12'', ''13'', ''14''} then CurrentAssets
      else if prefix \<in> {''15'', ''16'', ''17'', ''18'', ''19''} then NonCurrentAssets
      else if prefix \<in> {''20'', ''21'', ''22'', ''23'', ''24''} then CurrentLiabilities
      else if prefix \<in> {''25'', ''26'', ''27'', ''28'', ''29''} then NonCurrentLiabilities
      else if prefix \<in> {''30'', ''31'', ''32'', ''33'', ''34'', ''35'', ''36'', ''37'', ''38'', ''39''}
        then EquityCategory
      else if prefix \<in> {''40'', ''41'', ''42'', ''43'', ''44''} then RevenueCategory
      else if prefix \<in> {''50'', ''51'', ''52''} then CostOfGoodsSold
      else if prefix \<in> {''60'', ''61'', ''62'', ''63'', ''64'', ''65'', ''66'', ''67'', ''68'', ''69''}
        then OperatingExpenses
      else if prefix \<in> {''70'', ''71'', ''72'', ''73'', ''74''} then OtherIncome
      else if prefix \<in> {''80'', ''81'', ''82'', ''83'', ''84'', ''85'', ''86'', ''87'', ''88'', ''89''}
        then OtherExpenses
      else OperatingExpenses)"

fun trial_balance_category_from_category :: "AccountCategory \<Rightarrow> TrialBalanceCategory" where
  "trial_balance_category_from_category CatAsset = CurrentAssets"
| "trial_balance_category_from_category CatLiability = CurrentLiabilities"
| "trial_balance_category_from_category CatEquity = EquityCategory"
| "trial_balance_category_from_category CatRevenue = RevenueCategory"
| "trial_balance_category_from_category CatCogs = CostOfGoodsSold"
| "trial_balance_category_from_category CatOperatingExpense = OperatingExpenses"
| "trial_balance_category_from_category CatOtherIncomeExpense = OtherExpenses"
| "trial_balance_category_from_category CatTax = OtherExpenses"
| "trial_balance_category_from_category CatSuspense = OtherExpenses"
| "trial_balance_category_from_category CatUnknown = OtherExpenses"

definition tb_category_with_framework :: "string \<Rightarrow> string \<Rightarrow> TrialBalanceCategory" where
  "tb_category_with_framework code framework =
     trial_balance_category_from_category (classify framework code)"

fun tb_display_name :: "TrialBalanceCategory \<Rightarrow> string" where
  "tb_display_name CurrentAssets = ''Current Assets''"
| "tb_display_name NonCurrentAssets = ''Non-Current Assets''"
| "tb_display_name CurrentLiabilities = ''Current Liabilities''"
| "tb_display_name NonCurrentLiabilities = ''Non-Current Liabilities''"
| "tb_display_name EquityCategory = ''Equity''"
| "tb_display_name RevenueCategory = ''Revenue''"
| "tb_display_name CostOfGoodsSold = ''Cost of Goods Sold''"
| "tb_display_name OperatingExpenses = ''Operating Expenses''"
| "tb_display_name OtherIncome = ''Other Income''"
| "tb_display_name OtherExpenses = ''Other Expenses''"

fun tb_is_balance_sheet :: "TrialBalanceCategory \<Rightarrow> bool" where
  "tb_is_balance_sheet CurrentAssets = True"
| "tb_is_balance_sheet NonCurrentAssets = True"
| "tb_is_balance_sheet CurrentLiabilities = True"
| "tb_is_balance_sheet NonCurrentLiabilities = True"
| "tb_is_balance_sheet EquityCategory = True"
| "tb_is_balance_sheet _ = False"

definition tb_is_income_statement :: "TrialBalanceCategory \<Rightarrow> bool" where
  "tb_is_income_statement c \<longleftrightarrow> \<not> tb_is_balance_sheet c"

section \<open>Lines and summaries\<close>

record 'd CategorySummary =
  cs_category :: TrialBalanceCategory
  cs_account_count :: nat
  cs_total_debits :: 'd
  cs_total_credits :: 'd

definition new_summary :: "TrialBalanceCategory \<Rightarrow> 'd::linordered_field CategorySummary" where
  "new_summary c =
     \<lparr>cs_category = c, cs_account_count = 0, cs_total_debits = 0, cs_total_credits = 0\<rparr>"

definition summary_add_balance ::
    "'d::linordered_field CategorySummary \<Rightarrow> 'd \<Rightarrow> 'd \<Rightarrow> 'd CategorySummary" where
  "summary_add_balance s debit credit =
     s\<lparr>cs_account_count := cs_account_count s + 1,
       cs_total_debits := cs_total_debits s + debit,
       cs_total_credits := cs_total_credits s + credit\<rparr>"

definition summary_net_balance :: "'d::linordered_field CategorySummary \<Rightarrow> 'd" where
  "summary_net_balance s = cs_total_debits s - cs_total_credits s"

record 'd TrialBalanceLine =
  tl_account_code :: string
  tl_account_description :: string
  tl_category :: TrialBalanceCategory
  tl_account_type :: AccountType
  tl_opening_balance :: 'd
  tl_period_debits :: 'd
  tl_period_credits :: 'd
  tl_closing_balance :: 'd
  tl_debit_balance :: 'd
  tl_credit_balance :: 'd
  tl_cost_center :: "string option"
  tl_profit_center :: "string option"

definition tl_net_balance :: "'d::linordered_field TrialBalanceLine \<Rightarrow> 'd" where
  "tl_net_balance l = tl_debit_balance l - tl_credit_balance l"

section \<open>Trial balances\<close>

datatype TrialBalanceType = Unadjusted | Adjusted | PostClosing | Consolidated

datatype TrialBalanceStatus = TbDraft | TbFinal | TbApproved | TbArchived

record ('date, 'ts, 'd) TrialBalance =
  tb_trial_balance_id :: string
  tb_company_code :: string
  tb_company_name :: "string option"
  tb_as_of_date :: 'date
  tb_fiscal_year :: i32
  tb_fiscal_period :: u32
  tb_currency :: string
  tb_balance_type :: TrialBalanceType
  tb_lines :: "'d TrialBalanceLine list"
  tb_total_debits :: 'd
  tb_total_credits :: 'd
  tb_is_balanced :: bool
  tb_out_of_balance :: 'd
  tb_is_equation_valid :: bool
  tb_equation_difference :: 'd
  tb_category_summary :: "(TrialBalanceCategory \<times> 'd CategorySummary) list"
  tb_created_at :: 'ts
  tb_created_by :: string
  tb_approved_by :: "string option"
  tb_approved_at :: "'ts option"
  tb_status :: TrialBalanceStatus

definition new_trial_balance ::
    "'ts \<Rightarrow> string \<Rightarrow> string \<Rightarrow> 'date \<Rightarrow> i32 \<Rightarrow> u32 \<Rightarrow> string \<Rightarrow> TrialBalanceType
     \<Rightarrow> ('date, 'ts, 'd::linordered_field) TrialBalance" where
  "new_trial_balance now i company dt year period cur ty =
     \<lparr>tb_trial_balance_id = i, tb_company_code = company, tb_company_name = None,
      tb_as_of_date = dt, tb_fiscal_year = year, tb_fiscal_period = period, tb_currency = cur,
      tb_balance_type = ty, tb_lines = [], tb_total_debits = 0, tb_total_credits = 0,
      tb_is_balanced = True, tb_out_of_balance = 0, tb_is_equation_valid = True,
      tb_equation_difference = 0, tb_category_summary = [], tb_created_at = now,
      tb_created_by = ''SYSTEM'', tb_approved_by = None, tb_approved_at = None,
      tb_status = TbDraft\<rparr>"

definition get_category_total ::
    "('date, 'ts, 'd) TrialBalance \<Rightarrow> TrialBalanceCategory \<Rightarrow> 'd CategorySummary option" where
  "get_category_total tb c = map_of (tb_category_summary tb) c"

text \<open>\<^verbatim>\<open>get(..).map(net_balance).unwrap_or(ZERO)\<close>.\<close>

definition category_net ::
    "('date, 'ts, 'd::linordered_field) TrialBalance \<Rightarrow> TrialBalanceCategory \<Rightarrow> 'd" where
  "category_net tb c =
     (case map_of (tb_category_summary tb) c of None \<Rightarrow> 0 | Some s \<Rightarrow> summary_net_balance s)"

definition total_assets :: "('date, 'ts, 'd::linordered_field) TrialBalance \<Rightarrow> 'd" where
  "total_assets tb = category_net tb CurrentAssets + category_net tb NonCurrentAssets"

definition total_liabilities :: "('date, 'ts, 'd::linordered_field) TrialBalance \<Rightarrow> 'd" where
  "total_liabilities tb =
     category_net tb CurrentLiabilities + category_net tb NonCurrentLiabilities"

definition total_equity :: "('date, 'ts, 'd::linordered_field) TrialBalance \<Rightarrow> 'd" where
  "total_equity tb = category_net tb EquityCategory"

definition total_revenue :: "('date, 'ts, 'd::linordered_field) TrialBalance \<Rightarrow> 'd" where
  "total_revenue tb = category_net tb RevenueCategory"

definition total_expenses :: "('date, 'ts, 'd::linordered_field) TrialBalance \<Rightarrow> 'd" where
  "total_expenses tb =
     category_net tb CostOfGoodsSold + category_net tb OperatingExpenses
       + category_net tb OtherExpenses"

definition net_income :: "('date, 'ts, 'd::linordered_field) TrialBalance \<Rightarrow> 'd" where
  "net_income tb = total_revenue tb - total_expenses tb"

definition recalculate ::
    "('date, 'ts, 'd::linordered_field) TrialBalance \<Rightarrow> ('date, 'ts, 'd) TrialBalance" where
  "recalculate tb =
     (let out_of = tb_total_debits tb - tb_total_credits tb;
          difference = total_assets tb - (total_liabilities tb + total_equity tb)
      in tb\<lparr>tb_out_of_balance := out_of, tb_is_balanced := (\<bar>out_of\<bar> < 1 / 100),
            tb_equation_difference := difference,
            tb_is_equation_valid := (\<bar>difference\<bar> < 1 / 100)\<rparr>)"

definition tb_add_line ::
    "('date, 'ts, 'd::linordered_field) TrialBalance \<Rightarrow> 'd TrialBalanceLine
     \<Rightarrow> ('date, 'ts, 'd) TrialBalance" where
  "tb_add_line tb line =
     (let summary = (case map_of (tb_category_summary tb) (tl_category line) of
                       None \<Rightarrow> new_summary (tl_category line) | Some s \<Rightarrow> s)
      in recalculate
           (tb\<lparr>tb_total_debits := tb_total_debits tb + tl_debit_balance line,
               tb_total_credits := tb_total_credits tb + tl_credit_balance line,
               tb_category_summary :=
                 AList.update (tl_category line)
                   (summary_add_balance summary (tl_debit_balance line) (tl_credit_balance line))
                   (tb_category_summary tb),
               tb_lines := tb_lines tb @ [line]\<rparr>))"

text \<open>The debit and credit columns of an account balance.\<close>

definition balance_sides :: "('ts, 'd::linordered_field) AccountBalance \<Rightarrow> 'd \<times> 'd" where
  "balance_sides b =
     (if is_debit_normal b then
        (if ab_closing_balance b \<ge> 0 then (ab_closing_balance b, 0)
         else (0, \<bar>ab_closing_balance b\<bar>))
      else if ab_closing_balance b \<ge> 0 then (0, ab_closing_balance b)
      else (\<bar>ab_closing_balance b\<bar>, 0))"

definition line_of_balance :: "('ts, 'd::linordered_field) AccountBalance \<Rightarrow> 'd TrialBalanceLine" where
  "line_of_balance b =
     \<lparr>tl_account_code = ab_account_code b,
      tl_account_description =
        (case ab_account_description b of None \<Rightarrow> '''' | Some s \<Rightarrow> s),
      tl_category = tb_category_of_type (ab_account_type b),
      tl_account_type = ab_account_type b, tl_opening_balance = ab_opening_balance b,
      tl_period_debits = ab_period_debits b, tl_period_credits = ab_period_credits b,
      tl_closing_balance = ab_closing_balance b, tl_debit_balance = fst (balance_sides b),
      tl_credit_balance = snd (balance_sides b), tl_cost_center = ab_cost_center b,
      tl_profit_center = ab_profit_center b\<rparr>"

definition add_from_account_balance ::
    "('date, 'ts, 'd::linordered_field) TrialBalance \<Rightarrow> ('ts, 'd) AccountBalance
     \<Rightarrow> ('date, 'ts, 'd) TrialBalance" where
  "add_from_account_balance tb b = tb_add_line tb (line_of_balance b)"

definition validate_accounting_equation ::
    "('date, 'ts, 'd::linordered_field) TrialBalance \<Rightarrow> bool \<times> 'd \<times> 'd \<times> 'd \<times> 'd" where
  "validate_accounting_equation tb =
     (let difference = total_assets tb - (total_liabilities tb + total_equity tb)
      in (\<bar>difference\<bar> < 1 / 100, total_assets tb, total_liabilities tb, total_equity tb, difference))"

definition get_lines_by_category ::
    "('date, 'ts, 'd) TrialBalance \<Rightarrow> TrialBalanceCategory \<Rightarrow> 'd TrialBalanceLine list" where
  "get_lines_by_category tb c = filter (\<lambda>l. tl_category l = c) (tb_lines tb)"

definition tb_finalize :: "('date, 'ts, 'd) TrialBalance \<Rightarrow> ('date, 'ts, 'd) TrialBalance" where
  "tb_finalize tb = (if tb_is_balanced tb then tb\<lparr>tb_status := TbFinal\<rparr> else tb)"

definition tb_approve ::
    "'ts \<Rightarrow> ('date, 'ts, 'd) TrialBalance \<Rightarrow> string \<Rightarrow> ('date, 'ts, 'd) TrialBalance" where
  "tb_approve now tb who =
     tb\<lparr>tb_approved_by := Some who, tb_approved_at := Some now, tb_status := TbApproved\<rparr>"

definition sort_by_account :: "('date, 'ts, 'd) TrialBalance \<Rightarrow> ('date, 'ts, 'd) TrialBalance" where
  "sort_by_account tb = tb\<lparr>tb_lines := sort_key tl_account_code (tb_lines tb)\<rparr>"

definition sort_by_category :: "('date, 'ts, 'd) TrialBalance \<Rightarrow> ('date, 'ts, 'd) TrialBalance" where
  "sort_by_category tb =
     tb\<lparr>tb_lines := sort_key (\<lambda>l. (tl_category l, tl_account_code l)) (tb_lines tb)\<rparr>"

section \<open>Comparative trial balances\<close>

record 'd ComparativeTrialBalanceLine =
  cl_account_code :: string
  cl_account_description :: string
  cl_category :: TrialBalanceCategory
  cl_period_balances :: "((i32 \<times> u32) \<times> 'd) list"
  cl_period_changes :: "((i32 \<times> u32) \<times> 'd) list"

record ('ts, 'd) ComparativeTrialBalance =
  ct_company_code :: string
  ct_currency :: string
  ct_periods :: "(i32 \<times> u32) list"
  ct_lines :: "'d ComparativeTrialBalanceLine list"
  ct_created_at :: 'ts

definition period_of :: "('date, 'ts, 'd) TrialBalance \<Rightarrow> i32 \<times> u32" where
  "period_of tb = (tb_fiscal_year tb, tb_fiscal_period tb)"

text \<open>One line of one trial balance in the loop that collects the accounts.\<close>

definition collect_line ::
    "i32 \<times> u32 \<Rightarrow> 'd TrialBalanceLine \<Rightarrow> (string \<times> 'd ComparativeTrialBalanceLine) list
     \<Rightarrow> (string \<times> 'd ComparativeTrialBalanceLine) list" where
  "collect_line period line m =
     (let entry = (case map_of m (tl_account_code line) of
                     None \<Rightarrow> \<lparr>cl_account_code = tl_account_code line,
                              cl_account_description = tl_account_description line,
                              cl_category = tl_category line, cl_period_balances = [],
                              cl_period_changes = []\<rparr>
                   | Some e \<Rightarrow> e)
      in AList.update (tl_account_code line)
           (entry\<lparr>cl_period_balances :=
                    AList.update period (tl_closing_balance line) (cl_period_balances entry)\<rparr>) m)"

definition collect_accounts ::
    "('date, 'ts, 'd) TrialBalance list \<Rightarrow> (string \<times> 'd ComparativeTrialBalanceLine) list" where
  "collect_accounts tbs =
     foldl (\<lambda>m tb. foldl (\<lambda>m line. collect_line (period_of tb) line m) m (tb_lines tb)) [] tbs"

definition balance_in ::
    "'d::linordered_field ComparativeTrialBalanceLine \<Rightarrow> i32 \<times> u32 \<Rightarrow> 'd" where
  "balance_in line period =
     (case map_of (cl_period_balances line) period of None \<Rightarrow> 0 | Some x \<Rightarrow> x)"

text \<open>The loop over neighbouring periods of the sorted list; the year compares as a signed
  number.\<close>

fun fill_changes ::
    "(i32 \<times> u32) list \<Rightarrow> 'd::linordered_field ComparativeTrialBalanceLine
     \<Rightarrow> 'd ComparativeTrialBalanceLine" where
  "fill_changes (prior # current # ps) line =
     fill_changes (current # ps)
       (line\<lparr>cl_period_changes :=
               AList.update current (balance_in line current - balance_in line prior)
                 (cl_period_changes line)\<rparr>)"
| "fill_changes _ line = line"

definition sort_periods :: "(i32 \<times> u32) list \<Rightarrow> (i32 \<times> u32) list" where
  "sort_periods ps = sort_key (\<lambda>(y, p). (sint y, unat p)) ps"

text \<open>The call panics on an empty list.\<close>

definition from_trial_balances ::
    "'ts \<Rightarrow> ('date, 'ts, 'd::linordered_field) TrialBalance list
     \<Rightarrow> ('ts, 'd) ComparativeTrialBalance option" where
  "from_trial_balances now tbs =
     (case tbs of
        [] \<Rightarrow> None
      | first # _ \<Rightarrow>
          (let periods = map period_of tbs
           in Some \<lparr>ct_company_code = tb_company_code first, ct_currency = tb_currency first,
                    ct_periods = periods,
                    ct_lines = map (fill_changes (sort_periods periods) \<circ> snd) (collect_accounts tbs),
                    ct_created_at = now\<rparr>))"

section \<open>Totals of the categories\<close>

lemma recalculate_fields [simp]:
  "tb_lines (recalculate tb) = tb_lines tb"
  "tb_total_debits (recalculate tb) = tb_total_debits tb"
  "tb_total_credits (recalculate tb) = tb_total_credits tb"
  "tb_category_summary (recalculate tb) = tb_category_summary tb"
  "tb_currency (recalculate tb) = tb_currency tb"
  by (simp_all add: recalculate_def Let_def)

lemma category_net_recalculate [simp]: "category_net (recalculate tb) c = category_net tb c"
  by (simp add: category_net_def)

lemma add_line_fields [simp]:
  "tb_lines (tb_add_line tb l) = tb_lines tb @ [l]"
  "tb_total_debits (tb_add_line tb l) = tb_total_debits tb + tl_debit_balance l"
  "tb_total_credits (tb_add_line tb l) = tb_total_credits tb + tl_credit_balance l"
  "tb_currency (tb_add_line tb l) = tb_currency tb"
  by (simp_all add: tb_add_line_def Let_def)

lemma category_net_add_line:
  "category_net (tb_add_line tb l) c =
     category_net tb c + (if tl_category l = c then tl_net_balance l else 0)"
  by (simp add: category_net_def tb_add_line_def Let_def update_conv' summary_add_balance_def
      summary_net_balance_def new_summary_def tl_net_balance_def split: option.split)

interpretation categories: posting_ledger tb_add_line category_net tl_category tl_net_balance
  by unfold_locales (rule category_net_add_line)

interpretation debit_column: posting_ledger tb_add_line "\<lambda>tb _. tb_total_debits tb" "\<lambda>_. ()" tl_debit_balance
  by unfold_locales simp

interpretation credit_column: posting_ledger tb_add_line "\<lambda>tb _. tb_total_credits tb" "\<lambda>_. ()" tl_credit_balance
  by unfold_locales simp

abbreviation (input) add_lines ::
    "('date, 'ts, 'd::linordered_field) TrialBalance \<Rightarrow> 'd TrialBalanceLine list
     \<Rightarrow> ('date, 'ts, 'd) TrialBalance" where
  "add_lines tb ls \<equiv> foldl tb_add_line tb ls"

text \<open>The flags always agree with the totals, whatever was added.\<close>

definition flags_consistent :: "('date, 'ts, 'd::linordered_field) TrialBalance \<Rightarrow> bool" where
  "flags_consistent tb \<longleftrightarrow>
     tb_out_of_balance tb = tb_total_debits tb - tb_total_credits tb
     \<and> tb_is_balanced tb = (\<bar>tb_out_of_balance tb\<bar> < 1 / 100)
     \<and> tb_equation_difference tb = total_assets tb - (total_liabilities tb + total_equity tb)
     \<and> tb_is_equation_valid tb = (\<bar>tb_equation_difference tb\<bar> < 1 / 100)"

lemma flags_consistent_recalculate: "flags_consistent (recalculate tb)"
  by (simp add: flags_consistent_def recalculate_def Let_def total_assets_def
      total_liabilities_def total_equity_def category_net_def)

lemma flags_consistent_new: "flags_consistent (new_trial_balance now i company dt y p cur ty)"
  by (simp add: flags_consistent_def new_trial_balance_def total_assets_def
      total_liabilities_def total_equity_def category_net_def)

lemma flags_consistent_add_lines: "flags_consistent tb \<Longrightarrow> flags_consistent (add_lines tb ls)"
  by (induction ls arbitrary: tb)
     (simp_all add: tb_add_line_def Let_def flags_consistent_recalculate)

lemma new_totals [simp]:
  "category_net (new_trial_balance now i company dt y p cur ty) c = 0"
  "tb_total_debits (new_trial_balance now i company dt y p cur ty) = 0"
  "tb_total_credits (new_trial_balance now i company dt y p cur ty) = 0"
  "tb_lines (new_trial_balance now i company dt y p cur ty) = []"
  by (simp_all add: new_trial_balance_def category_net_def)

lemma add_lines_totals:
  "category_net (add_lines tb ls) c = category_net tb c + key_sum tl_category tl_net_balance ls c"
  "tb_total_debits (add_lines tb ls) = tb_total_debits tb + sum_list (map tl_debit_balance ls)"
  "tb_total_credits (add_lines tb ls) = tb_total_credits tb + sum_list (map tl_credit_balance ls)"
  "tb_lines (add_lines tb ls) = tb_lines tb @ ls"
proof -
  show "category_net (add_lines tb ls) c = category_net tb c + key_sum tl_category tl_net_balance ls c"
    using categories.total_post_lines[of tb ls c] by (simp add: categories.post_lines_def)
  show "tb_total_debits (add_lines tb ls) = tb_total_debits tb + sum_list (map tl_debit_balance ls)"
    using debit_column.total_post_lines[of tb ls "()"]
    by (simp add: debit_column.post_lines_def key_sum_def)
  show "tb_total_credits (add_lines tb ls) = tb_total_credits tb + sum_list (map tl_credit_balance ls)"
    using credit_column.total_post_lines[of tb ls "()"]
    by (simp add: credit_column.post_lines_def key_sum_def)
  show "tb_lines (add_lines tb ls) = tb_lines tb @ ls"
    by (induction ls arbitrary: tb) simp_all
qed

lemma sum_net_balances:
  "sum_list (map tl_net_balance ls) =
     sum_list (map tl_debit_balance ls) - sum_list (map tl_credit_balance ls)"
  by (induction ls) (simp_all add: tl_net_balance_def)

text \<open>The two columns of an account: one is zero, the other is the magnitude of the closing
  balance, and their difference is the balance with its debit sign.\<close>

lemma balance_sides_spec:
  "fst (balance_sides b) - snd (balance_sides b) =
     (if is_debit_normal b then ab_closing_balance b else - ab_closing_balance b)"
  "0 \<le> fst (balance_sides b)" "0 \<le> snd (balance_sides b)"
  "fst (balance_sides b) = 0 \<or> snd (balance_sides b) = 0"
  by (simp_all add: balance_sides_def)

section \<open>Properties\<close>

text \<open>A trial balance built from a fresh one by adding lines has the totals of its lines, the
  net of each category is the sum over the lines of the category whatever their order, and the
  difference and both flags follow from those totals.\<close>

theorem trial_balance_totals:
  "let tb = foldl tb_add_line (new_trial_balance now i company dt y p cur ty) ls
   in tb_lines tb = ls
      \<and> tb_total_debits tb = sum_list (map tl_debit_balance ls)
      \<and> tb_total_credits tb = sum_list (map tl_credit_balance ls)
      \<and> tb_out_of_balance tb = sum_list (map tl_net_balance ls)
      \<and> (tb_is_balanced tb \<longleftrightarrow> \<bar>sum_list (map tl_net_balance ls)\<bar> < 1 / 100)
      \<and> (\<forall>c. category_net tb c =
               sum_list (map tl_net_balance (get_lines_by_category tb c)))"
proof -
  let ?new = "new_trial_balance now i company dt y p cur ty"
  let ?tb = "add_lines ?new ls"
  have "flags_consistent ?tb"
    by (rule flags_consistent_add_lines[OF flags_consistent_new])
  then show ?thesis
    by (simp add: Let_def flags_consistent_def add_lines_totals get_lines_by_category_def
        key_sum_def sum_net_balances)
qed

text \<open>The equation check subtracts liabilities and equity that are kept as debit minus credit,
  so negative. On an exactly balanced trial balance with balance-sheet lines only, where assets
  equal liabilities plus equity, the reported difference is twice the assets, and the equation
  is called valid only when the assets are below half a cent.\<close>

theorem equation_check_doubles_assets:
  assumes "\<forall>l \<in> set ls. tb_is_balance_sheet (tl_category l)"
    and "sum_list (map tl_debit_balance ls) = sum_list (map tl_credit_balance ls)"
    and tb: "tb = foldl tb_add_line (new_trial_balance now i company dt y p cur ty) ls"
  shows "tb_is_balanced tb \<and> tb_equation_difference tb = 2 * total_assets tb
         \<and> (tb_is_equation_valid tb \<longleftrightarrow> \<bar>total_assets tb\<bar> < 1 / 200)"
proof -
  let ?K = "{CurrentAssets, NonCurrentAssets, CurrentLiabilities, NonCurrentLiabilities,
             EquityCategory}"
  have flags: "flags_consistent tb"
    unfolding tb by (rule flags_consistent_add_lines[OF flags_consistent_new])
  have net: "category_net tb c = key_sum tl_category tl_net_balance ls c" for c
    by (simp add: tb add_lines_totals)
  have "tl_category ` set ls \<subseteq> ?K"
    using assms(1) by (auto elim: tb_is_balance_sheet.elims)
  then have "(\<Sum>c\<in>?K. category_net tb c) = sum_list (map tl_net_balance ls)"
    by (simp only: net sum_of_key_sums[of ?K] finite.intros)
  also have "\<dots> = 0"
    using assms(2) by (simp add: sum_net_balances)
  finally have "total_assets tb + total_liabilities tb + total_equity tb = 0"
    by (simp add: total_assets_def total_liabilities_def total_equity_def algebra_simps)
  then have eq: "total_liabilities tb + total_equity tb = - total_assets tb"
    by (simp add: add_eq_0_iff algebra_simps)
  have diff: "tb_equation_difference tb = 2 * total_assets tb"
    using flags eq by (simp add: flags_consistent_def)
  have "tb_is_balanced tb"
    using flags assms(2) by (simp add: flags_consistent_def tb add_lines_totals)
  moreover have "tb_is_equation_valid tb \<longleftrightarrow> \<bar>total_assets tb\<bar> < 1 / 200"
    using flags diff by (simp add: flags_consistent_def abs_mult field_simps)
  ultimately show ?thesis using diff by simp
qed

section \<open>Concrete instances\<close>

definition sample_tb_line ::
    "string \<Rightarrow> TrialBalanceCategory \<Rightarrow> AccountType \<Rightarrow> rat \<Rightarrow> rat \<Rightarrow> rat TrialBalanceLine" where
  "sample_tb_line code c ty d k =
     \<lparr>tl_account_code = code, tl_account_description = '''', tl_category = c,
      tl_account_type = ty, tl_opening_balance = 0, tl_period_debits = d, tl_period_credits = k,
      tl_closing_balance = d + k, tl_debit_balance = d, tl_credit_balance = k,
      tl_cost_center = None, tl_profit_center = None\<rparr>"

text \<open>The example of the code's own test: cash 30000 against payables 20000 and equity 10000.\<close>

definition sample_tb_lines :: "rat TrialBalanceLine list" where
  "sample_tb_lines =
     [sample_tb_line ''1100'' CurrentAssets Asset 30000 0,
      sample_tb_line ''2100'' CurrentLiabilities Liability 0 20000,
      sample_tb_line ''3100'' EquityCategory Equity 0 10000]"

lemma equation_check_doubles_assets_witness:
  "\<forall>i company y p cur ty.
     \<not> tb_is_equation_valid
         (foldl tb_add_line (new_trial_balance (0::nat) i company (0::nat) y p cur ty) sample_tb_lines)"
proof (intro allI)
  fix i company cur :: string and y :: i32 and p :: u32 and ty
  let ?tb = "foldl tb_add_line (new_trial_balance (0::nat) i company (0::nat) y p cur ty)
               sample_tb_lines"
  have "total_assets ?tb = 30000"
    by (simp add: total_assets_def category_net_add_line sample_tb_lines_def sample_tb_line_def
        tl_net_balance_def)
  then show "\<not> tb_is_equation_valid ?tb"
    using equation_check_doubles_assets[of sample_tb_lines ?tb 0 i company 0 y p cur ty]
    by (simp add: sample_tb_lines_def sample_tb_line_def)
qed

end
