(* ===== verification/Investments.thy ===== *)
theory Investments
  imports Group_Plan Ordered_Map
begin

text \<open>
  Model of \<^verbatim>\<open>crates/datasynth-group/src/aggregate/nci/rollforward.rs\<close> and \<^verbatim>\<open>equity_method.rs\<close>: the
  rollforward of a subsidiary's non-controlling interest and of an investment under the equity
  method, with losses that are suppressed at a carrying value of zero and recovered from later
  profits. \<^verbatim>\<open>Decimal::round_dp(2)\<close> is the argument \<open>rd\<close>, the division of \<^verbatim>\<open>Decimal\<close> the argument
  \<open>divide_dec\<close>; dates are day numbers.
\<close>

section \<open>Rounding to cents\<close>

text \<open>What the crate documents of \<^verbatim>\<open>round_dp(2)\<close>: half to even, so monotone, odd, off by at most
  half a cent, and without effect on a rounded value.\<close>

definition rounds_to_cents :: "('d::linordered_field \<Rightarrow> 'd) \<Rightarrow> bool" where
  "rounds_to_cents rd \<longleftrightarrow>
     (\<forall>x y. x \<le> y \<longrightarrow> rd x \<le> rd y) \<and> (\<forall>x. rd (- x) = - rd x) \<and> (\<forall>x. rd (rd x) = rd x)
     \<and> (\<forall>x. \<bar>rd x - x\<bar> \<le> 1 / 200)"

section \<open>Non-controlling interest\<close>

record 'd NciRollforward =
  nr_entity_code :: string
  nr_parent_entity_code :: string
  nr_ownership_percent :: 'd
  nr_nci_percent :: 'd
  nr_opening_nci :: 'd
  nr_nci_share_of_profit :: 'd
  nr_nci_share_of_oci :: 'd
  nr_nci_dividends :: 'd
  nr_equity_transaction_adjustments :: 'd
  nr_pl_remeasurement_gain_or_loss :: 'd
  nr_closing_nci :: 'd
  nr_period_end :: naive_date
  nr_currency :: string

record 'd NciInputs =
  ni_entity :: "'d ManifestEntity"
  ni_period_net_income :: 'd
  ni_period_oci :: 'd
  ni_total_dividends_paid :: 'd
  ni_opening_nci :: 'd
  ni_acquisition_date_nci_fair_value :: "'d option"
  ni_ownership_changes :: "'d OwnershipChangeEvent list"
  ni_period_start :: naive_date
  ni_period_end :: naive_date
  ni_currency :: string

datatype InvestmentMessage =
    NciNeedsFull string ConsolidationMethod
  | NciOwnershipMissing string
  | NciWhollyOwned string
  | NciParentMissing string
  | ControlLostUnsupported string
  | ControlGainedOutsidePeriod string naive_date naive_date naive_date
  | EquityMethodNeeded string ConsolidationMethod
  | EquityOwnershipMissing string
  | EquityOwnershipOutOfRange string

text \<open>The loop over the ownership changes: the equity adjustment and the last gain of control.\<close>

fun walk_changes ::
    "string \<Rightarrow> 'd::linordered_field OwnershipChangeEvent list \<Rightarrow> 'd \<times> 'd OwnershipChangeEvent option
     \<Rightarrow> (InvestmentMessage GroupError, 'd \<times> 'd OwnershipChangeEvent option) result" where
  "walk_changes code [] st = Inr st"
| "walk_changes code (ev # evs) (adj, gained) =
     (case oc_event_type ev of
        ControlGained \<Rightarrow> walk_changes code evs (adj, Some ev)
      | ControlLost \<Rightarrow> Inl (AggregateError (ControlLostUnsupported code))
      | _ \<Rightarrow> walk_changes code evs (adj - oc_consideration_paid_or_received ev, gained))"

text \<open>The weight of the period, the remeasurement gain and the opening override of a gain of
  control.\<close>

definition control_gained_terms ::
    "('d \<Rightarrow> 'd \<Rightarrow> 'd) \<Rightarrow> 'd::linordered_field NciInputs \<Rightarrow> 'd OwnershipChangeEvent option
     \<Rightarrow> (InvestmentMessage GroupError, 'd \<times> 'd \<times> 'd option) result" where
  "control_gained_terms divide_dec i gained =
     (case gained of
        None \<Rightarrow> Inr (1, 0, None)
      | Some ev \<Rightarrow>
          if oc_effective_date ev < ni_period_start i \<or> oc_effective_date ev > ni_period_end i
          then Inl (AggregateError (ControlGainedOutsidePeriod (me_code (ni_entity i))
                      (oc_effective_date ev) (ni_period_start i) (ni_period_end i)))
          else
            (let total_days = ni_period_end i - ni_period_start i + 1;
                 post_days = ni_period_end i - oc_effective_date ev + 1
             in Inr (divide_dec (of_int post_days) (of_int total_days),
                     (case (oc_previously_held_interest_fair_value ev,
                            oc_previously_held_interest_carrying ev) of
                        (Some fv, Some carrying) \<Rightarrow> fv - carrying | _ \<Rightarrow> 0),
                     (case oc_acquisition_date_nci_fair_value ev of
                        Some fv \<Rightarrow> Some fv | None \<Rightarrow> ni_acquisition_date_nci_fair_value i))))"

definition nci_checks ::
    "'d::linordered_field ManifestEntity \<Rightarrow> (InvestmentMessage GroupError, 'd \<times> string) result" where
  "nci_checks e =
     (if me_consolidation_method e \<noteq> Full
      then Inl (AggregateError (NciNeedsFull (me_code e) (me_consolidation_method e)))
      else (case me_ownership_percent e of
              None \<Rightarrow> Inl (AggregateError (NciOwnershipMissing (me_code e)))
            | Some own \<Rightarrow>
                if own \<ge> 1 then Inl (AggregateError (NciWhollyOwned (me_code e)))
                else (case me_parent_code e of
                        None \<Rightarrow> Inl (AggregateError (NciParentMissing (me_code e)))
                      | Some parent \<Rightarrow> Inr (own, parent))))"

definition compute_nci_rollforward ::
    "('d \<Rightarrow> 'd) \<Rightarrow> ('d \<Rightarrow> 'd \<Rightarrow> 'd) \<Rightarrow> 'd::linordered_field NciInputs
     \<Rightarrow> (InvestmentMessage GroupError, 'd NciRollforward) result" where
  "compute_nci_rollforward rd divide_dec i =
     (let e = ni_entity i in
      try_bind (nci_checks e) (\<lambda>(own, parent).
        let nci = 1 - own;
            seeded = (case (ni_opening_nci i = 0, ni_acquisition_date_nci_fair_value i) of
                        (True, Some fv) \<Rightarrow> fv | _ \<Rightarrow> ni_opening_nci i)
        in try_bind (walk_changes (me_code e) (ni_ownership_changes i) (0, None)) (\<lambda>(adj, gained).
           try_bind (control_gained_terms divide_dec i gained) (\<lambda>(weight, gain, override).
             let profit = nci * ni_period_net_income i * weight;
                 oci = nci * ni_period_oci i * weight;
                 dividends = nci * ni_total_dividends_paid i * weight;
                 opening = (case override of Some fv \<Rightarrow> fv | None \<Rightarrow> seeded);
                 closing = rd (opening + profit + oci - dividends + adj)
             in Inr \<lparr>nr_entity_code = me_code e, nr_parent_entity_code = parent,
                     nr_ownership_percent = own, nr_nci_percent = nci,
                     nr_opening_nci = rd opening, nr_nci_share_of_profit = rd profit,
                     nr_nci_share_of_oci = rd oci, nr_nci_dividends = rd dividends,
                     nr_equity_transaction_adjustments = rd adj,
                     nr_pl_remeasurement_gain_or_loss = rd gain, nr_closing_nci = closing,
                     nr_period_end = ni_period_end i, nr_currency = ni_currency i\<rparr>))))"

section \<open>Equity method\<close>

record 'd EquityMethodInvestment =
  em_investee_code :: string
  em_investor_entity_code :: string
  em_ownership_percent :: 'd
  em_opening_carrying_value :: 'd
  em_opening_suppressed_loss :: 'd
  em_share_of_profit :: 'd
  em_share_of_profit_recognised :: 'd
  em_dividends_received :: 'd
  em_impairment :: 'd
  em_suppressed_loss_this_period :: 'd
  em_closing_suppressed_loss :: 'd
  em_closing_carrying_value :: 'd
  em_period_end :: naive_date
  em_currency :: string

record 'd EquityMethodInputs =
  ei_investee :: "'d ManifestEntity"
  ei_investor_entity_code :: string
  ei_investee_net_income :: 'd
  ei_investee_dividends_paid :: 'd
  ei_opening_carrying_value :: 'd
  ei_opening_suppressed_loss :: 'd
  ei_impairment :: 'd
  ei_period_end :: naive_date
  ei_currency :: string

definition equity_checks ::
    "'d::linordered_field ManifestEntity \<Rightarrow> (InvestmentMessage GroupError, 'd) result" where
  "equity_checks e =
     (if me_consolidation_method e \<noteq> EquityMethod
      then Inl (AggregateError (EquityMethodNeeded (me_code e) (me_consolidation_method e)))
      else (case me_ownership_percent e of
              None \<Rightarrow> Inl (AggregateError (EquityOwnershipMissing (me_code e)))
            | Some own \<Rightarrow>
                if own \<le> 0 \<or> own \<ge> 1 then Inl (AggregateError (EquityOwnershipOutOfRange (me_code e)))
                else Inr own))"

text \<open>Suppressed losses are recovered from a positive share first: what is recognised, and what
  stays suppressed.\<close>

definition recover_losses :: "'d::linordered_field \<Rightarrow> 'd \<Rightarrow> 'd \<times> 'd" where
  "recover_losses share suppressed =
     (if share > 0 \<and> suppressed > 0
      then (share - min share suppressed, suppressed - min share suppressed)
      else (share, suppressed))"

definition compute_equity_method_investment ::
    "('d \<Rightarrow> 'd) \<Rightarrow> 'd::linordered_field EquityMethodInputs
     \<Rightarrow> (InvestmentMessage GroupError, 'd EquityMethodInvestment) result" where
  "compute_equity_method_investment rd i =
     try_bind (equity_checks (ei_investee i)) (\<lambda>own.
       let share = own * ei_investee_net_income i;
           dividends = own * ei_investee_dividends_paid i;
           suppressed = max (ei_opening_suppressed_loss i) 0;
           (recognised, remaining) = recover_losses share suppressed;
           raw = rd (ei_opening_carrying_value i + recognised - dividends - ei_impairment i);
           (closing, lost) = (if raw < 0 then (0, rd (- raw)) else (raw, 0))
       in Inr \<lparr>em_investee_code = me_code (ei_investee i),
               em_investor_entity_code = ei_investor_entity_code i, em_ownership_percent = own,
               em_opening_carrying_value = rd (ei_opening_carrying_value i),
               em_opening_suppressed_loss = rd suppressed, em_share_of_profit = rd share,
               em_share_of_profit_recognised = rd recognised,
               em_dividends_received = rd dividends, em_impairment = rd (ei_impairment i),
               em_suppressed_loss_this_period = lost,
               em_closing_suppressed_loss = rd (remaining + lost),
               em_closing_carrying_value = closing, em_period_end = ei_period_end i,
               em_currency = ei_currency i\<rparr>)"

section \<open>Rounding\<close>

lemma rounds_to_centsD:
  assumes "rounds_to_cents rd"
  shows "x \<le> y \<Longrightarrow> rd x \<le> rd y" "rd (- x) = - rd x" "rd (rd x) = rd x"
    "rd x - x \<le> 1 / 200" "x - rd x \<le> 1 / 200" "rd 0 = 0"
proof -
  have *: "(\<forall>x y. x \<le> y \<longrightarrow> rd x \<le> rd y)" "\<forall>x. rd (- x) = - rd x" "\<forall>x. rd (rd x) = rd x"
    "\<forall>x. \<bar>rd x - x\<bar> \<le> 1 / 200"
    using assms by (simp_all add: rounds_to_cents_def)
  show "x \<le> y \<Longrightarrow> rd x \<le> rd y" "rd (- x) = - rd x" "rd (rd x) = rd x"
    using *(1-3) by blast+
  show "rd x - x \<le> 1 / 200" "x - rd x \<le> 1 / 200"
    using abs_le_D1[OF *(4)[rule_format, of x]] abs_le_D2[OF *(4)[rule_format, of x]]
    by (simp_all only: minus_diff_eq)
  have "rd 0 = - rd 0" using *(2)[rule_format, of 0] by simp
  then show "rd 0 = 0" by simp
qed

lemma rounds_sign:
  assumes "rounds_to_cents rd"
  shows "0 \<le> x \<Longrightarrow> 0 \<le> rd x" "0 < rd x \<Longrightarrow> 0 < x"
  using rounds_to_centsD(1)[OF assms, of 0 x] rounds_to_centsD(1)[OF assms, of x 0]
    rounds_to_centsD(6)[OF assms] by (auto simp: not_le[symmetric])

section \<open>The equity method over one period\<close>

lemma recover_losses_spec:
  assumes "0 \<le> suppressed" "recover_losses share suppressed = (recognised, remaining)"
  shows "recognised - remaining = share - suppressed" "0 \<le> remaining" "remaining \<le> suppressed"
    "0 < recognised \<Longrightarrow> remaining = 0"
  using assms by (auto simp: recover_losses_def min_def split: if_splits)

definition period_change :: "'d::linordered_field EquityMethodInputs \<Rightarrow> 'd \<Rightarrow> 'd" where
  "period_change i own =
     own * ei_investee_net_income i - own * ei_investee_dividends_paid i - ei_impairment i"

lemma equity_checks_Inr:
  "equity_checks e = Inr own \<longleftrightarrow>
     me_consolidation_method e = EquityMethod \<and> me_ownership_percent e = Some own \<and> 0 < own \<and> own < 1"
  by (auto simp: equity_checks_def split: option.split)

lemma equity_method_spec:
  assumes rd: "rounds_to_cents rd" and r: "compute_equity_method_investment rd i = Inr r"
  shows "em_ownership_percent r < 1" "0 < em_ownership_percent r"
    and "me_ownership_percent (ei_investee i) = Some (em_ownership_percent r)"
    and "0 \<le> em_closing_carrying_value r" "0 \<le> em_suppressed_loss_this_period r"
    and "0 \<le> em_closing_suppressed_loss r"
    and "em_closing_carrying_value r = 0 \<or> em_suppressed_loss_this_period r = 0"
    and "0 < em_share_of_profit_recognised r \<Longrightarrow>
           em_closing_suppressed_loss r = em_suppressed_loss_this_period r"
    and "\<bar>(em_closing_carrying_value r - em_closing_suppressed_loss r)
           - (ei_opening_carrying_value i - max (ei_opening_suppressed_loss i) 0
              + period_change i (em_ownership_percent r))\<bar> \<le> 1 / 100"
proof -
  obtain own where own: "equity_checks (ei_investee i) = Inr own"
    using r by (auto simp: compute_equity_method_investment_def result_simps)
  let ?share = "own * ei_investee_net_income i" and ?s = "max (ei_opening_suppressed_loss i) 0"
  obtain recognised remaining where rec: "recover_losses ?share ?s = (recognised, remaining)" by force
  note rs = recover_losses_spec[OF _ rec, simplified]
  define x where "x = ei_opening_carrying_value i + recognised - own * ei_investee_dividends_paid i - ei_impairment i"
  define lost where "lost = (if rd x < 0 then rd (- rd x) else 0)"
  have lost: "lost = (if rd x < 0 then - rd x else 0)"
    using rounds_to_centsD(2,3)[OF rd] by (simp add: lost_def)
  have res: "em_ownership_percent r = own" "em_closing_carrying_value r = (if rd x < 0 then 0 else rd x)"
    "em_suppressed_loss_this_period r = lost" "em_closing_suppressed_loss r = rd (remaining + lost)"
    "em_share_of_profit_recognised r = rd recognised"
    using r own by (auto simp: compute_equity_method_investment_def rec x_def lost_def Let_def
        split: if_splits)
  show "em_ownership_percent r < 1" "0 < em_ownership_percent r"
    "me_ownership_percent (ei_investee i) = Some (em_ownership_percent r)"
    using own by (simp_all add: res(1) equity_checks_Inr)
  show "0 \<le> em_closing_carrying_value r" "0 \<le> em_suppressed_loss_this_period r"
    "em_closing_carrying_value r = 0 \<or> em_suppressed_loss_this_period r = 0"
    by (simp_all add: res lost)
  have "0 \<le> lost" by (simp add: lost)
  then show "0 \<le> em_closing_suppressed_loss r"
    using rs(2) rounds_sign(1)[OF rd, of "remaining + lost"] by (simp add: res)
  show "em_closing_suppressed_loss r = em_suppressed_loss_this_period r"
    if "0 < em_share_of_profit_recognised r"
  proof -
    have "remaining = 0" using that rounds_sign(2)[OF rd] rs(4) by (simp add: res)
    then show ?thesis
      using rounds_to_centsD(2,3,6)[OF rd] by (simp add: res lost)
  qed
  have "(if rd x < 0 then 0 else rd x) - lost = rd x" by (simp add: lost)
  moreover have "x - remaining = ei_opening_carrying_value i - ?s + period_change i own"
    using rs(1) by (simp add: x_def period_change_def algebra_simps)
  ultimately show "\<bar>(em_closing_carrying_value r - em_closing_suppressed_loss r)
           - (ei_opening_carrying_value i - max (ei_opening_suppressed_loss i) 0
              + period_change i (em_ownership_percent r))\<bar> \<le> 1 / 100"
    using rounds_to_centsD(4,5)[OF rd, of x] rounds_to_centsD(4,5)[OF rd, of "remaining + lost"]
    unfolding res abs_le_iff by (simp add: algebra_simps)
qed

section \<open>Opening balances and chains of periods\<close>

text \<open>The records a prior period wrote, read back as opening balances: a missing file gives no
  balances, a repeated code is an error.\<close>

datatype OpeningMessage = DuplicateOpening string

fun ingest_opening ::
    "(string \<times> 'd) list \<Rightarrow> (string \<times> 'd) list \<Rightarrow> (OpeningMessage GroupError, (string \<times> 'd) list) result" where
  "ingest_opening [] m = Inr m"
| "ingest_opening ((code, x) # recs) m =
     (if map_of m code \<noteq> None then Inl (AggregateError (DuplicateOpening code))
      else ingest_opening recs (bt_insert code x m))"

definition ingest_opening_nci_balances ::
    "'d NciRollforward list option \<Rightarrow> (OpeningMessage GroupError, (string \<times> 'd) list) result" where
  "ingest_opening_nci_balances file =
     (case file of
        None \<Rightarrow> Inr []
      | Some recs \<Rightarrow> ingest_opening (map (\<lambda>r. (nr_entity_code r, nr_closing_nci r)) recs) [])"

definition ingest_opening_equity_method_carrying_values ::
    "'d EquityMethodInvestment list option \<Rightarrow> (OpeningMessage GroupError, (string \<times> 'd) list) result" where
  "ingest_opening_equity_method_carrying_values file =
     (case file of
        None \<Rightarrow> Inr []
      | Some recs \<Rightarrow> ingest_opening (map (\<lambda>r. (em_investee_code r, em_closing_carrying_value r)) recs) [])"

definition ingest_opening_suppressed_losses ::
    "'d EquityMethodInvestment list option \<Rightarrow> (OpeningMessage GroupError, (string \<times> 'd) list) result" where
  "ingest_opening_suppressed_losses file =
     (case file of
        None \<Rightarrow> Inr []
      | Some recs \<Rightarrow> ingest_opening (map (\<lambda>r. (em_investee_code r, em_closing_suppressed_loss r)) recs) [])"

lemma ingest_opening_spec:
  "ingest_opening recs m = Inr m' \<longleftrightarrow>
     distinct (map fst recs) \<and> fst ` set recs \<inter> dom (map_of m) = {}
     \<and> m' = foldl (\<lambda>m (k, v). bt_insert k v m) m recs"
  by (induction recs m rule: ingest_opening.induct) (auto simp: dom_def split: if_splits)

fun equity_periods ::
    "('d \<Rightarrow> 'd) \<Rightarrow> 'd::linordered_field EquityMethodInputs list \<Rightarrow> 'd \<times> 'd
     \<Rightarrow> (InvestmentMessage GroupError, 'd \<times> 'd) result" where
  "equity_periods rd [] st = Inr st"
| "equity_periods rd (i # is) (carrying, suppressed) =
     try_bind (compute_equity_method_investment rd
         (i\<lparr>ei_opening_carrying_value := carrying, ei_opening_suppressed_loss := suppressed\<rparr>))
       (\<lambda>r. equity_periods rd is (em_closing_carrying_value r, em_closing_suppressed_loss r))"

definition input_change :: "'d::linordered_field EquityMethodInputs \<Rightarrow> 'd" where
  "input_change i = period_change i (the (me_ownership_percent (ei_investee i)))"

lemma equity_periods_net:
  assumes rd: "rounds_to_cents rd" and "0 \<le> c" "0 \<le> s" "equity_periods rd is (c, s) = Inr (c', s')"
  shows "0 \<le> c'" "0 \<le> s'"
    and "\<bar>(c' - s') - (c - s + sum_list (map input_change is))\<bar> \<le> of_nat (length is) / 100"
proof -
  have "0 \<le> c' \<and> 0 \<le> s'
      \<and> \<bar>(c' - s') - (c - s + sum_list (map input_change is))\<bar> \<le> of_nat (length is) / 100"
    using assms(2-4)
  proof (induction "is" arbitrary: c s)
    case (Cons i "is")
    let ?i = "i\<lparr>ei_opening_carrying_value := c, ei_opening_suppressed_loss := s\<rparr>"
    obtain r where r: "compute_equity_method_investment rd ?i = Inr r"
        and rest: "equity_periods rd is (em_closing_carrying_value r, em_closing_suppressed_loss r) = Inr (c', s')"
      using Cons.prems(3) by (auto simp: result_simps)
    note sp = equity_method_spec[OF rd r]
    note IH = Cons.IH[OF sp(4,6) rest]
    have own: "me_ownership_percent (ei_investee i) = Some (em_ownership_percent r)"
      using sp(3) by simp
    have one: "\<bar>(em_closing_carrying_value r - em_closing_suppressed_loss r)
        - (c - s + input_change i)\<bar> \<le> 1 / 100"
      using sp(9) Cons.prems(2) own by (simp add: input_change_def period_change_def max_def)
    have "(c' - s') - (c - s + sum_list (map input_change (i # is)))
        = ((c' - s') - (em_closing_carrying_value r - em_closing_suppressed_loss r
              + sum_list (map input_change is)))
          + ((em_closing_carrying_value r - em_closing_suppressed_loss r) - (c - s + input_change i))"
      by simp
    also have "\<bar>\<dots>\<bar> \<le> of_nat (length is) / 100 + 1 / 100"
      using IH one by (intro order_trans[OF abs_triangle_ineq] add_mono) auto
    finally show ?case using IH by (simp add: add_divide_distrib)
  qed simp
  then show "0 \<le> c'" "0 \<le> s'"
    "\<bar>(c' - s') - (c - s + sum_list (map input_change is))\<bar> \<le> of_nat (length is) / 100"
    by auto
qed

section \<open>Non-controlling interest\<close>

definition change_adjustment :: "'d::linordered_field OwnershipChangeEvent list \<Rightarrow> 'd" where
  "change_adjustment evs = - sum_list (map oc_consideration_paid_or_received
     (filter (\<lambda>ev. oc_event_type ev \<in> {ControlIncreased, ControlDecreased}) evs))"

definition last_gained :: "'d OwnershipChangeEvent list \<Rightarrow> 'd OwnershipChangeEvent option" where
  "last_gained evs = List.find (\<lambda>ev. oc_event_type ev = ControlGained) (rev evs)"

lemma find_append:
  "List.find P (xs @ ys) = (case List.find P xs of None \<Rightarrow> List.find P ys | Some x \<Rightarrow> Some x)"
  by (induction xs) auto

lemma walk_changes_spec:
  "walk_changes code evs (adj, gained) =
     (if list_ex (\<lambda>ev. oc_event_type ev = ControlLost) evs
      then Inl (AggregateError (ControlLostUnsupported code))
      else Inr (adj + change_adjustment evs, (case last_gained evs of None \<Rightarrow> gained | Some ev \<Rightarrow> Some ev)))"
proof (induction evs arbitrary: adj gained)
  case (Cons ev evs)
  then show ?case
    by (cases "oc_event_type ev")
       (auto simp: change_adjustment_def last_gained_def find_append algebra_simps split: option.split)
qed (simp add: change_adjustment_def last_gained_def)

lemma nci_checks_Inr:
  "nci_checks e = Inr (own, parent) \<longleftrightarrow>
     me_consolidation_method e = Full \<and> me_ownership_percent e = Some own \<and> own < 1
     \<and> me_parent_code e = Some parent"
  by (auto simp: nci_checks_def split: option.split)

definition gained_in_period :: "'d NciInputs \<Rightarrow> bool" where
  "gained_in_period i \<longleftrightarrow>
     (case last_gained (ni_ownership_changes i) of
        None \<Rightarrow> True
      | Some ev \<Rightarrow> ni_period_start i \<le> oc_effective_date ev \<and> oc_effective_date ev \<le> ni_period_end i)"

lemma control_gained_terms_ok:
  "is_ok (control_gained_terms divide_dec i (last_gained (ni_ownership_changes i))) \<longleftrightarrow> gained_in_period i"
  by (auto simp: control_gained_terms_def gained_in_period_def Let_def split: option.split)

lemma nci_ok_iff:
  "is_ok (compute_nci_rollforward rd divide_dec i) \<longleftrightarrow>
     is_ok (nci_checks (ni_entity i))
     \<and> \<not> list_ex (\<lambda>ev. oc_event_type ev = ControlLost) (ni_ownership_changes i) \<and> gained_in_period i"
proof (cases "nci_checks (ni_entity i)")
  case (Inr op)
  obtain own parent where op: "op = (own, parent)" by force
  show ?thesis
    using control_gained_terms_ok[of divide_dec i]
    by (auto simp: compute_nci_rollforward_def Let_def Inr op walk_changes_spec result_simps
        split: option.splits)
qed (simp add: compute_nci_rollforward_def Let_def)

lemma nci_fields:
  assumes "compute_nci_rollforward rd divide_dec i = Inr r"
  obtains own start_nci profit oci dividends where
    "me_ownership_percent (ni_entity i) = Some own" "own < 1" "nr_nci_percent r = 1 - own"
    "nr_opening_nci r = rd start_nci" "nr_nci_share_of_profit r = rd profit"
    "nr_nci_share_of_oci r = rd oci" "nr_nci_dividends r = rd dividends"
    "nr_equity_transaction_adjustments r = rd (change_adjustment (ni_ownership_changes i))"
    "nr_closing_nci r = rd (start_nci + profit + oci - dividends + change_adjustment (ni_ownership_changes i))"
    "last_gained (ni_ownership_changes i) = None \<Longrightarrow>
       profit = (1 - own) * ni_period_net_income i \<and> oci = (1 - own) * ni_period_oci i
       \<and> dividends = (1 - own) * ni_total_dividends_paid i"
proof -
  obtain own parent where c: "nci_checks (ni_entity i) = Inr (own, parent)"
    using assms by (auto simp: compute_nci_rollforward_def Let_def result_simps)
  let ?g = "case last_gained (ni_ownership_changes i) of None \<Rightarrow> None | Some ev \<Rightarrow> Some ev"
  have nolost: "\<not> list_ex (\<lambda>ev. oc_event_type ev = ControlLost) (ni_ownership_changes i)"
    using nci_ok_iff[of rd divide_dec i] assms by (auto simp: is_ok_iff)
  obtain weight gain override where t: "control_gained_terms divide_dec i ?g = Inr (weight, gain, override)"
    using assms nolost by (auto simp: compute_nci_rollforward_def Let_def result_simps c walk_changes_spec)
  have w: "weight = 1" if "last_gained (ni_ownership_changes i) = None"
    using t that by (simp add: control_gained_terms_def)
  show ?thesis
    by (rule that[of own "case override of Some fv \<Rightarrow> fv | None \<Rightarrow>
           (case (ni_opening_nci i = 0, ni_acquisition_date_nci_fair_value i) of
              (True, Some fv) \<Rightarrow> fv | _ \<Rightarrow> ni_opening_nci i)"
         "(1 - own) * ni_period_net_income i * weight" "(1 - own) * ni_period_oci i * weight"
         "(1 - own) * ni_total_dividends_paid i * weight"])
       (use assms c nolost t w in \<open>auto simp: compute_nci_rollforward_def Let_def nci_checks_Inr walk_changes_spec\<close>)
qed

lemma rounded_sum:
  assumes rd: "rounds_to_cents rd"
  shows "\<bar>rd (a + b + c - d + e) - (rd a + rd b + rd c - rd d + rd e)\<bar> \<le> 3 / 100"
  using rounds_to_centsD(4,5)[OF rd, of a] rounds_to_centsD(4,5)[OF rd, of b]
    rounds_to_centsD(4,5)[OF rd, of c] rounds_to_centsD(4,5)[OF rd, of d]
    rounds_to_centsD(4,5)[OF rd, of e] rounds_to_centsD(4,5)[OF rd, of "a + b + c - d + e"]
  unfolding abs_le_iff by simp

section \<open>Half-even rounding\<close>

definition round_half_even :: "rat \<Rightarrow> int" where
  "round_half_even x =
     (let f = \<lfloor>x\<rfloor>; d = x - of_int f
      in if d < 1 / 2 then f else if d > 1 / 2 then f + 1 else if even f then f else f + 1)"

definition round_cents :: "rat \<Rightarrow> rat" where
  "round_cents x = of_int (round_half_even (100 * x)) / 100"

lemma round_half_even_bounds: "\<lfloor>x\<rfloor> \<le> round_half_even x" "round_half_even x \<le> \<lfloor>x\<rfloor> + 1"
  by (simp_all add: round_half_even_def Let_def)

lemma round_half_even_mono: "x \<le> y \<Longrightarrow> round_half_even x \<le> round_half_even y"
proof -
  assume le: "x \<le> y"
  show ?thesis
  proof (cases "\<lfloor>x\<rfloor> = \<lfloor>y\<rfloor>")
    case True
    then show ?thesis using le by (auto simp: round_half_even_def Let_def)
  next
    case False
    then have "\<lfloor>x\<rfloor> + 1 \<le> \<lfloor>y\<rfloor>" using floor_mono[OF le] by simp
    then show ?thesis using round_half_even_bounds(2)[of x] round_half_even_bounds(1)[of y] by linarith
  qed
qed

lemma round_half_even_int: "round_half_even (of_int n) = n"
  by (simp add: round_half_even_def)

lemma round_half_even_error: "\<bar>of_int (round_half_even x) - x\<bar> \<le> 1 / 2"
  using floor_correct[of x] by (auto simp: round_half_even_def Let_def abs_le_iff)

lemma round_half_even_minus: "round_half_even (- x) = - round_half_even x"
proof (cases "x \<in> \<int>")
  case True
  then obtain n where "x = of_int n" by (rule Ints_cases)
  then show ?thesis using round_half_even_int[of "- n"] by (simp add: round_half_even_int)
next
  case False
  then have "of_int \<lfloor>x\<rfloor> \<noteq> x" by (metis Ints_of_int)
  then have "of_int \<lfloor>x\<rfloor> < x" using of_int_floor_le[of x] by (rule le_neq_trans[rotated])
  then have "\<lfloor>- x\<rfloor> = - \<lfloor>x\<rfloor> - 1"
    using floor_correct[of x] by (intro floor_unique) auto
  then show ?thesis by (auto simp: round_half_even_def Let_def)
qed

lemma round_cents_rounds: "rounds_to_cents round_cents"
  unfolding rounds_to_cents_def
proof (intro conjI allI impI)
  fix x y :: rat
  show "x \<le> y \<Longrightarrow> round_cents x \<le> round_cents y"
    using round_half_even_mono[of "100 * x" "100 * y"] by (simp add: round_cents_def divide_right_mono)
  show "round_cents (- x) = - round_cents x"
    using round_half_even_minus[of "100 * x"] by (simp add: round_cents_def)
  show "round_cents (round_cents x) = round_cents x"
    using round_half_even_int[of "round_half_even (100 * x)"] by (simp add: round_cents_def)
  have "\<bar>of_int (round_half_even (100 * x)) - 100 * x\<bar> \<le> 1 / 2" by (rule round_half_even_error)
  then show "\<bar>round_cents x - x\<bar> \<le> 1 / 200"
    unfolding abs_le_iff by (simp add: round_cents_def field_simps)
qed

section \<open>Properties\<close>

text \<open>C16. Investments under the equity method over any number of periods, each opened with the
  closing balances of the one before: the carrying value and the suppressed losses are never
  negative, and their difference is, up to a cent per period, the opening difference plus the
  shares of profit less dividends and impairments. Suppressing losses at zero and recovering
  them later therefore loses nothing.\<close>

theorem equity_method_conserves_net:
  assumes "rounds_to_cents rd" "0 \<le> c" "0 \<le> s" "equity_periods rd is (c, s) = Inr (c', s')"
  shows "0 \<le> c' \<and> 0 \<le> s'
         \<and> \<bar>(c' - s') - (c - s + sum_list (map input_change is))\<bar> \<le> of_nat (length is) / 100"
  using equity_periods_net[OF assms] by blast

text \<open>One period of the equity method: the computation succeeds exactly for an investee under
  the equity method with an ownership strictly between zero and one; the carrying value is
  clamped at zero, a loss is suppressed only when it is, and profit is recognised only when no
  earlier loss remains suppressed.\<close>

theorem equity_method_period:
  assumes "rounds_to_cents rd"
  shows "case compute_equity_method_investment rd i of
      Inl _ \<Rightarrow> me_consolidation_method (ei_investee i) \<noteq> EquityMethod
        \<or> (case me_ownership_percent (ei_investee i) of None \<Rightarrow> True | Some own \<Rightarrow> own \<le> 0 \<or> 1 \<le> own)
    | Inr r \<Rightarrow> 0 < em_ownership_percent r \<and> em_ownership_percent r < 1
        \<and> 0 \<le> em_closing_carrying_value r \<and> 0 \<le> em_suppressed_loss_this_period r
        \<and> (em_closing_carrying_value r = 0 \<or> em_suppressed_loss_this_period r = 0)
        \<and> (em_share_of_profit_recognised r \<le> 0
           \<or> em_closing_suppressed_loss r = em_suppressed_loss_this_period r)"
proof (cases "compute_equity_method_investment rd i")
  case (Inl e)
  then show ?thesis
    by (auto simp: compute_equity_method_investment_def result_simps equity_checks_def Let_def
        split: option.splits if_splits prod.splits)
next
  case (Inr r)
  have "em_share_of_profit_recognised r \<le> 0
      \<or> em_closing_suppressed_loss r = em_suppressed_loss_this_period r"
    using equity_method_spec(8)[OF assms Inr] by (cases "0 < em_share_of_profit_recognised r") auto
  then show ?thesis using equity_method_spec(1,2,4,5,7)[OF assms Inr] Inr by simp
qed


section \<open>Concrete instances\<close>

lemma round_cents_numerals [simp]:
  "round_cents 0 = 0" "round_cents 1 = 1" "round_cents (numeral w) = numeral w"
  "round_cents (- numeral w) = - numeral w"
proof -
  have int: "round_cents (of_int n) = of_int n" for n
    using round_half_even_int[of "100 * n"] by (simp add: round_cents_def)
  show "round_cents 0 = 0" "round_cents 1 = 1" "round_cents (numeral w) = numeral w"
    "round_cents (- numeral w) = - numeral w"
    using int[of 0] int[of 1] int[of "numeral w"] int[of "- numeral w"] by simp_all
qed

definition sample_associate :: "rat ManifestEntity" where
  "sample_associate =
     \<lparr>me_code = ''X'', me_name = None, me_country = ''CH'', me_functional_currency = ''CHF'',
      me_scoping_profile = ''minor'', me_consolidation_method = EquityMethod,
      me_ownership_percent = Some (2 / 5), me_parent_code = Some ''A'', me_accounting_framework = None,
      me_industry = None, me_hyperinflation_status = NotHyperinflationary,
      me_ownership_changes = [], me_entity_seed = '''', me_shard_id = ''S1''\<rparr>"

definition sample_equity_inputs :: "rat \<Rightarrow> rat EquityMethodInputs" where
  "sample_equity_inputs income =
     \<lparr>ei_investee = sample_associate, ei_investor_entity_code = ''A'',
      ei_investee_net_income = income, ei_investee_dividends_paid = 0,
      ei_opening_carrying_value = 100, ei_opening_suppressed_loss = 0, ei_impairment = 0,
      ei_period_end = 364, ei_currency = ''CHF''\<rparr>"

lemmas sample_equity_defs =
  compute_equity_method_investment_def equity_checks_def recover_losses_def
  sample_equity_inputs_def sample_associate_def

text \<open>A loss of 1000 exhausts the carrying value of 100; part of the suppressed share is recovered
  from the next profit.\<close>

lemma sample_equity_run:
  "equity_periods round_cents [sample_equity_inputs (- 1000), sample_equity_inputs 500] (100, 0)
     = Inr (0, 100)"
  by (simp add: sample_equity_defs Let_def)

lemma equity_method_conserves_net_witness:
  "\<bar>(0 - 100 :: rat) - (100 - 0
     + sum_list (map input_change [sample_equity_inputs (- 1000), sample_equity_inputs 500]))\<bar> \<le> 2 / 100"
  using equity_method_conserves_net[OF round_cents_rounds _ _ sample_equity_run] by simp

lemma equity_method_period_witness:
  "case compute_equity_method_investment round_cents (sample_equity_inputs (- 1000)) of
     Inl _ \<Rightarrow> False
   | Inr r \<Rightarrow> 0 \<le> em_closing_carrying_value r \<and> em_suppressed_loss_this_period r = 300"
  using equity_method_period[OF round_cents_rounds, of "sample_equity_inputs (- 1000)"]
  by (auto simp: sample_equity_defs Let_def)

definition sample_nci_inputs :: "rat NciInputs" where
  "sample_nci_inputs =
     \<lparr>ni_entity = sample_associate\<lparr>me_consolidation_method := Full\<rparr>, ni_period_net_income = 1000,
      ni_period_oci = 50, ni_total_dividends_paid = 100, ni_opening_nci = 20,
      ni_acquisition_date_nci_fair_value = None, ni_ownership_changes = [],
      ni_period_start = 0, ni_period_end = 364, ni_currency = ''CHF''\<rparr>"


end
