(* ===== verification/Consolidation.thy ===== *)
theory Consolidation
  imports Group_Elimination Trial_Balance Investments
begin

text \<open>
  Model of the consolidated trial balance in \<^verbatim>\<open>crates/datasynth-group/src/aggregate\<close>:
  \<^verbatim>\<open>pre_elim.rs\<close> (the sum of the trial balances of the consolidated entities, in one call and
  one entity at a time), \<^verbatim>\<open>post_elim.rs\<close> (the elimination entries and the overlay of
  non-controlling interests and associates) and \<^verbatim>\<open>fs/consolidation_schedule.rs\<close> (the schedule
  from the one to the other).
\<close>

section \<open>Data\<close>

record 'd AggregatedAccount =
  aa_account_code :: string
  aa_debit_total :: 'd
  aa_credit_total :: 'd
  aa_net_balance :: 'd
  aa_contributing_entities :: u32
  aa_account_type :: AccountType

record DeferredEntity =
  de_entity_code :: string
  de_method :: ConsolidationMethod

record 'd AggregatedTb =
  ag_group_id :: string
  ag_currency :: string
  ag_as_of_date :: naive_date
  ag_account_totals :: "(string \<times> 'd AggregatedAccount) list"
  ag_contributing_entities :: "string list"
  ag_deferred_entities :: "DeferredEntity list"
  ag_total_debits :: 'd
  ag_total_credits :: 'd

datatype ConsolidationMessage =
    EntityNotInManifest string
  | EliminationCurrencyMismatch string string
  | NciCurrencyMismatch string string string
  | InvestmentCurrencyMismatch string string string

section \<open>Before the eliminations\<close>

text \<open>\<^verbatim>\<open>or_insert_with\<close>: an account seen for the first time.\<close>

definition zero_account :: "string \<Rightarrow> AccountType \<Rightarrow> 'd::linordered_field AggregatedAccount" where
  "zero_account code ty =
     \<lparr>aa_account_code = code, aa_debit_total = 0, aa_credit_total = 0, aa_net_balance = 0,
      aa_contributing_entities = 0, aa_account_type = ty\<rparr>"

text \<open>\<^verbatim>\<open>entry.debit_total += ..; entry.credit_total += ..; entry.net_balance = ..\<close>.\<close>

definition add_amounts ::
    "'d::linordered_field \<Rightarrow> 'd \<Rightarrow> 'd AggregatedAccount \<Rightarrow> 'd AggregatedAccount" where
  "add_amounts debit credit a =
     a\<lparr>aa_debit_total := aa_debit_total a + debit,
       aa_credit_total := aa_credit_total a + credit,
       aa_net_balance := aa_debit_total a + debit - (aa_credit_total a + credit)\<rparr>"

definition empty_aggregate ::
    "('f, 'd, 'x) GroupManifest \<Rightarrow> 'd::linordered_field AggregatedTb" where
  "empty_aggregate m =
     \<lparr>ag_group_id = gm_group_id m, ag_currency = gm_presentation_currency m,
      ag_as_of_date = mp_end (gm_period m), ag_account_totals = [], ag_contributing_entities = [],
      ag_deferred_entities = [], ag_total_debits = 0, ag_total_credits = 0\<rparr>"

definition lookup_consolidation_method ::
    "('f, 'd, 'x) GroupManifest \<Rightarrow> string
     \<Rightarrow> (ConsolidationMessage GroupError, ConsolidationMethod) result" where
  "lookup_consolidation_method m code =
     (case find (\<lambda>e. me_code e = code) (og_entities (gm_ownership_graph m)) of
        None \<Rightarrow> Inl (AggregateError (EntityNotInManifest code))
      | Some e \<Rightarrow> Inr (me_consolidation_method e))"

text \<open>Since version 5.0 a mismatch is logged and never an error.\<close>

definition ensure_currency_matches ::
    "('f, 'd, 'x) GroupManifest \<Rightarrow> string \<Rightarrow> (naive_date, 'ts, 'd) TrialBalance
     \<Rightarrow> (ConsolidationMessage GroupError, unit) result" where
  "ensure_currency_matches m code tb = Inr ()"

text \<open>One line of an entity, with the set of the accounts the entity has touched before.\<close>

definition accumulate_line ::
    "(string \<times> 'd::linordered_field AggregatedAccount) list \<times> string set \<Rightarrow> 'd TrialBalanceLine
     \<Rightarrow> (string \<times> 'd AggregatedAccount) list \<times> string set" where
  "accumulate_line st l =
     (let code = tl_account_code l;
          bump = (\<lambda>a. if code \<in> snd st then a
                      else a\<lparr>aa_contributing_entities := aa_contributing_entities a + 1\<rparr>)
      in (bt_entry code (zero_account code (tl_account_type l))
            (\<lambda>a. bump (add_amounts (tl_debit_balance l) (tl_credit_balance l) a)) (fst st),
          insert code (snd st)))"

definition accumulate_tb ::
    "'d::linordered_field AggregatedTb \<Rightarrow> string \<Rightarrow> (naive_date, 'ts, 'd) TrialBalance
     \<Rightarrow> 'd AggregatedTb" where
  "accumulate_tb agg code tb =
     agg\<lparr>ag_account_totals := fst (foldl accumulate_line (ag_account_totals agg, {}) (tb_lines tb)),
         ag_total_debits := ag_total_debits agg + tb_total_debits tb,
         ag_total_credits := ag_total_credits agg + tb_total_credits tb,
         ag_contributing_entities := ag_contributing_entities agg @ [code]\<rparr>"

definition defer_entity :: "'d AggregatedTb \<Rightarrow> string \<Rightarrow> ConsolidationMethod \<Rightarrow> 'd AggregatedTb" where
  "defer_entity agg code meth =
     agg\<lparr>ag_deferred_entities :=
           ag_deferred_entities agg @ [\<lparr>de_entity_code = code, de_method = meth\<rparr>]\<rparr>"

definition accumulate_entity_into_aggregate ::
    "'d::linordered_field AggregatedTb \<Rightarrow> ('f, 'd, 'x) GroupManifest \<Rightarrow> string
     \<Rightarrow> (naive_date, 'ts, 'd) TrialBalance \<Rightarrow> (ConsolidationMessage GroupError, 'd AggregatedTb) result" where
  "accumulate_entity_into_aggregate agg m code tb =
     try_bind (lookup_consolidation_method m code) (\<lambda>meth.
       if meth = Parent \<or> meth = Full
       then try_bind (ensure_currency_matches m code tb) (\<lambda>_. Inr (accumulate_tb agg code tb))
       else Inr (defer_entity agg code meth))"

definition finalise_streaming_aggregate :: "'d AggregatedTb \<Rightarrow> 'd AggregatedTb" where
  "finalise_streaming_aggregate agg =
     agg\<lparr>ag_contributing_entities := sort (ag_contributing_entities agg),
         ag_deferred_entities := sort_key de_entity_code (ag_deferred_entities agg)\<rparr>"

fun aggregate_loop ::
    "('f, 'd, 'x) GroupManifest \<Rightarrow> (string \<times> (naive_date, 'ts, 'd) TrialBalance) list
     \<Rightarrow> 'd::linordered_field AggregatedTb \<Rightarrow> (ConsolidationMessage GroupError, 'd AggregatedTb) result" where
  "aggregate_loop m [] agg = Inr agg"
| "aggregate_loop m ((code, tb) # tbs) agg =
     try_bind (lookup_consolidation_method m code) (\<lambda>meth.
       if meth = Parent \<or> meth = Full
       then try_bind (ensure_currency_matches m code tb) (\<lambda>_.
              aggregate_loop m tbs (accumulate_tb agg code tb))
       else aggregate_loop m tbs (defer_entity agg code meth))"

definition aggregate_pre_elimination ::
    "('f, 'd, 'x) GroupManifest \<Rightarrow> (string \<times> (naive_date, 'ts, 'd) TrialBalance) list
     \<Rightarrow> (ConsolidationMessage GroupError, 'd::linordered_field AggregatedTb) result" where
  "aggregate_pre_elimination m entity_tbs =
     try_bind (aggregate_loop m entity_tbs (empty_aggregate m)) (\<lambda>agg.
       Inr (finalise_streaming_aggregate agg))"

section \<open>Eliminations and overlay\<close>

definition NCI_EQUITY :: string where "NCI_EQUITY = ''3500''"
definition EQUITY_METHOD_INVESTMENT :: string where "EQUITY_METHOD_INVESTMENT = ''1850''"
definition SHARE_OF_PROFIT_OF_ASSOCIATES :: string where "SHARE_OF_PROFIT_OF_ASSOCIATES = ''4900''"

text \<open>The default account type is an asset.\<close>

definition apply_line_to_account ::
    "'d::linordered_field AggregatedTb \<Rightarrow> string \<Rightarrow> 'd \<Rightarrow> 'd \<Rightarrow> 'd AggregatedTb" where
  "apply_line_to_account agg code debit credit =
     agg\<lparr>ag_account_totals :=
           bt_entry code (zero_account code Asset) (add_amounts debit credit) (ag_account_totals agg)\<rparr>"

definition recompute_totals :: "'d::linordered_field AggregatedTb \<Rightarrow> 'd \<times> 'd" where
  "recompute_totals agg =
     (bt_sum aa_debit_total (ag_account_totals agg), bt_sum aa_credit_total (ag_account_totals agg))"

text \<open>The defensive postcondition only logs.\<close>

definition verify_balance_invariant ::
    "'d::linordered_field AggregatedTb \<Rightarrow> (ConsolidationMessage GroupError, unit) result" where
  "verify_balance_invariant agg = Inr ()"

definition with_totals :: "'d::linordered_field AggregatedTb \<Rightarrow> 'd AggregatedTb" where
  "with_totals agg =
     agg\<lparr>ag_total_debits := fst (recompute_totals agg), ag_total_credits := snd (recompute_totals agg)\<rparr>"

fun elimination_loop ::
    "(naive_date, 'ts, 'd, 'wf) JournalEntry list \<Rightarrow> 'd::linordered_field AggregatedTb
     \<Rightarrow> (ConsolidationMessage GroupError, 'd AggregatedTb) result" where
  "elimination_loop [] post = Inr post"
| "elimination_loop (je # jes) post =
     (if \<not> is_elimination (header je) then elimination_loop jes post
      else if currency (header je) \<noteq> ag_currency post
      then Inl (AggregateError (EliminationCurrencyMismatch (currency (header je)) (ag_currency post)))
      else elimination_loop jes
             (foldl (\<lambda>p l. apply_line_to_account p (gl_account l) (debit_amount l) (credit_amount l))
                post (lines je)))"

definition apply_eliminations_to_tb ::
    "'d::linordered_field AggregatedTb \<Rightarrow> (naive_date, 'ts, 'd, 'wf) JournalEntry list
     \<Rightarrow> (ConsolidationMessage GroupError, 'd AggregatedTb) result" where
  "apply_eliminations_to_tb pre elim_jes =
     try_bind (elimination_loop elim_jes pre) (\<lambda>post.
     try_bind (verify_balance_invariant (with_totals post)) (\<lambda>_. Inr (with_totals post)))"

definition overlay_nci :: "'d::linordered_field AggregatedTb \<Rightarrow> 'd \<Rightarrow> 'd AggregatedTb" where
  "overlay_nci agg closing =
     (if closing \<noteq> 0
      then apply_line_to_account (apply_line_to_account agg NCI_EQUITY 0 closing) RETAINED_EARNINGS closing 0
      else agg)"

definition overlay_investment ::
    "'d::linordered_field AggregatedTb \<Rightarrow> 'd EquityMethodInvestment \<Rightarrow> 'd AggregatedTb" where
  "overlay_investment agg i =
     (let carrying = em_closing_carrying_value i;
          a1 = (if carrying \<noteq> 0
                then apply_line_to_account (apply_line_to_account agg EQUITY_METHOD_INVESTMENT carrying 0)
                       RETAINED_EARNINGS 0 carrying
                else agg);
          share = em_share_of_profit i
      in if share \<noteq> 0
         then apply_line_to_account (apply_line_to_account a1 SHARE_OF_PROFIT_OF_ASSOCIATES 0 share)
                RETAINED_EARNINGS share 0
         else a1)"

definition apply_nci_and_equity_method ::
    "'d::linordered_field AggregatedTb \<Rightarrow> 'd NciRollforward list \<Rightarrow> 'd EquityMethodInvestment list
     \<Rightarrow> (ConsolidationMessage GroupError, 'd AggregatedTb) result" where
  "apply_nci_and_equity_method post ncis invs =
     try_bind (try_map (\<lambda>r. if nr_currency r \<noteq> ag_currency post
         then Inl (AggregateError (NciCurrencyMismatch (nr_entity_code r) (nr_currency r) (ag_currency post)))
         else Inr ()) ncis) (\<lambda>_.
     try_bind (try_map (\<lambda>i. if em_currency i \<noteq> ag_currency post
         then Inl (AggregateError
                (InvestmentCurrencyMismatch (em_investee_code i) (em_currency i) (ag_currency post)))
         else Inr ()) invs) (\<lambda>_.
       let agg = overlay_nci post (foldl (\<lambda>acc r. acc + nr_closing_nci r) 0 ncis);
           agg' = with_totals (foldl overlay_investment agg invs)
       in try_bind (verify_balance_invariant agg') (\<lambda>_. Inr agg')))"

section \<open>The totals of an account\<close>

definition side_of ::
    "('d AggregatedAccount \<Rightarrow> 'd) \<Rightarrow> (string \<times> 'd AggregatedAccount) list \<Rightarrow> string \<Rightarrow> 'd::linordered_field" where
  "side_of f m k = (case map_of m k of None \<Rightarrow> 0 | Some a \<Rightarrow> f a)"

abbreviation account_debit :: "'d::linordered_field AggregatedTb \<Rightarrow> string \<Rightarrow> 'd" where
  "account_debit agg \<equiv> side_of aa_debit_total (ag_account_totals agg)"

abbreviation account_credit :: "'d::linordered_field AggregatedTb \<Rightarrow> string \<Rightarrow> 'd" where
  "account_credit agg \<equiv> side_of aa_credit_total (ag_account_totals agg)"

abbreviation account_net :: "'d::linordered_field AggregatedTb \<Rightarrow> string \<Rightarrow> 'd" where
  "account_net agg \<equiv> side_of aa_net_balance (ag_account_totals agg)"

definition contributors :: "(string \<times> 'd AggregatedAccount) list \<Rightarrow> string \<Rightarrow> u32" where
  "contributors m k = (case map_of m k of None \<Rightarrow> 0 | Some a \<Rightarrow> aa_contributing_entities a)"

definition type_in :: "(string \<times> 'd AggregatedAccount) list \<Rightarrow> string \<Rightarrow> AccountType option" where
  "type_in m k = map_option aa_account_type (map_of m k)"

text \<open>A map of accounts: ordered, each account under its own code, with its net balance.\<close>

definition account_ok :: "string \<Rightarrow> 'd::linordered_field AggregatedAccount \<Rightarrow> bool" where
  "account_ok k a \<longleftrightarrow> aa_account_code a = k \<and> aa_net_balance a = aa_debit_total a - aa_credit_total a"

definition totals_wf :: "(string \<times> 'd::linordered_field AggregatedAccount) list \<Rightarrow> bool" where
  "totals_wf m \<longleftrightarrow> bt_wf m \<and> (\<forall>k a. map_of m k = Some a \<longrightarrow> account_ok k a)"

lemma account_fields [simp]:
  "aa_debit_total (zero_account k ty) = 0" "aa_credit_total (zero_account k ty) = 0"
  "aa_net_balance (zero_account k ty) = 0" "aa_account_code (zero_account k ty) = k"
  "aa_contributing_entities (zero_account k ty) = 0" "aa_account_type (zero_account k ty) = ty"
  "aa_debit_total (add_amounts d c a) = aa_debit_total a + d"
  "aa_credit_total (add_amounts d c a) = aa_credit_total a + c"
  "aa_net_balance (add_amounts d c a) = aa_debit_total a + d - (aa_credit_total a + c)"
  "aa_account_code (add_amounts d c a) = aa_account_code a"
  "aa_contributing_entities (add_amounts d c a) = aa_contributing_entities a"
  "aa_account_type (add_amounts d c a) = aa_account_type a"
  by (simp_all add: zero_account_def add_amounts_def)

lemma totals_wf_Nil [simp]: "totals_wf []"
  by (simp add: totals_wf_def)

lemma net_is_debit_minus_credit:
  "totals_wf m \<Longrightarrow> side_of aa_net_balance m k = side_of aa_debit_total m k - side_of aa_credit_total m k"
  by (auto simp: totals_wf_def side_of_def account_ok_def split: option.split)

section \<open>Postings to the consolidated accounts\<close>

text \<open>Everything after the sum of the entities is a list of postings: account, debit, credit.\<close>

definition apply_posting :: "'d::linordered_field AggregatedTb \<Rightarrow> string \<times> 'd \<times> 'd \<Rightarrow> 'd AggregatedTb" where
  "apply_posting agg p = apply_line_to_account agg (fst p) (fst (snd p)) (snd (snd p))"

interpretation posted_debits: posting_ledger apply_posting account_debit fst "fst \<circ> snd"
  by unfold_locales
     (simp add: apply_posting_def apply_line_to_account_def side_of_def map_of_bt_entry split: option.split)

interpretation posted_credits: posting_ledger apply_posting account_credit fst "snd \<circ> snd"
  by unfold_locales
     (simp add: apply_posting_def apply_line_to_account_def side_of_def map_of_bt_entry split: option.split)

lemma posting_rest [simp]:
  "ag_currency (apply_posting agg p) = ag_currency agg"
  "ag_group_id (apply_posting agg p) = ag_group_id agg"
  "ag_as_of_date (apply_posting agg p) = ag_as_of_date agg"
  "ag_contributing_entities (apply_posting agg p) = ag_contributing_entities agg"
  "ag_deferred_entities (apply_posting agg p) = ag_deferred_entities agg"
  "contributors (ag_account_totals (apply_posting agg p)) = contributors (ag_account_totals agg)"
  by (auto simp: apply_posting_def apply_line_to_account_def contributors_def map_of_bt_entry fun_eq_iff
      split: option.split)

lemma posting_wf [simp]:
  assumes "totals_wf (ag_account_totals agg)"
  shows "totals_wf (ag_account_totals (apply_posting agg p))"
  using assms
  by (auto simp: apply_posting_def apply_line_to_account_def totals_wf_def account_ok_def map_of_bt_entry
      split: option.splits if_splits)

lemma posting_sums:
  assumes "bt_wf (ag_account_totals agg)"
  shows "bt_sum aa_debit_total (ag_account_totals (apply_posting agg p))
           = bt_sum aa_debit_total (ag_account_totals agg) + fst (snd p)"
    and "bt_sum aa_credit_total (ag_account_totals (apply_posting agg p))
           = bt_sum aa_credit_total (ag_account_totals agg) + snd (snd p)"
  using assms by (simp_all add: apply_posting_def apply_line_to_account_def bt_sum_entry)

lemma postings_rest [simp]:
  "ag_currency (foldl apply_posting agg ps) = ag_currency agg"
  "ag_group_id (foldl apply_posting agg ps) = ag_group_id agg"
  "ag_as_of_date (foldl apply_posting agg ps) = ag_as_of_date agg"
  "ag_contributing_entities (foldl apply_posting agg ps) = ag_contributing_entities agg"
  "ag_deferred_entities (foldl apply_posting agg ps) = ag_deferred_entities agg"
  "contributors (ag_account_totals (foldl apply_posting agg ps)) = contributors (ag_account_totals agg)"
  by (induction ps arbitrary: agg) simp_all

lemma postings_wf:
  "totals_wf (ag_account_totals agg) \<Longrightarrow> totals_wf (ag_account_totals (foldl apply_posting agg ps))"
  by (induction ps arbitrary: agg) simp_all

lemma postings_sums:
  assumes "totals_wf (ag_account_totals agg)"
  shows "bt_sum aa_debit_total (ag_account_totals (foldl apply_posting agg ps))
           = bt_sum aa_debit_total (ag_account_totals agg) + sum_list (map (fst \<circ> snd) ps)"
    and "bt_sum aa_credit_total (ag_account_totals (foldl apply_posting agg ps))
           = bt_sum aa_credit_total (ag_account_totals agg) + sum_list (map (snd \<circ> snd) ps)"
proof -
  have "totals_wf m \<Longrightarrow> bt_wf m" for m :: "(string \<times> 'a AggregatedAccount) list"
    by (simp add: totals_wf_def)
  then show "bt_sum aa_debit_total (ag_account_totals (foldl apply_posting agg ps))
           = bt_sum aa_debit_total (ag_account_totals agg) + sum_list (map (fst \<circ> snd) ps)"
    and "bt_sum aa_credit_total (ag_account_totals (foldl apply_posting agg ps))
           = bt_sum aa_credit_total (ag_account_totals agg) + sum_list (map (snd \<circ> snd) ps)"
    using assms by (induction ps arbitrary: agg) (simp_all add: posting_sums algebra_simps)
qed

text \<open>What a list of postings does to the net balance of an account.\<close>

definition posting_net :: "(string \<times> 'd \<times> 'd::linordered_field) list \<Rightarrow> string \<Rightarrow> 'd" where
  "posting_net ps = key_sum fst (\<lambda>p. fst (snd p) - snd (snd p)) ps"

lemma postings_net:
  assumes "totals_wf (ag_account_totals agg)"
  shows "account_net (foldl apply_posting agg ps) k = account_net agg k + posting_net ps k"
proof -
  have "account_net (foldl apply_posting agg ps) k
      = account_debit agg k + key_sum fst (fst \<circ> snd) ps k
        - (account_credit agg k + key_sum fst (snd \<circ> snd) ps k)"
    using posted_debits.total_post_lines[of agg ps k] posted_credits.total_post_lines[of agg ps k]
    by (simp add: net_is_debit_minus_credit[OF postings_wf[OF assms]]
        posted_debits.post_lines_def posted_credits.post_lines_def)
  then show ?thesis
    by (simp add: posting_net_def key_sum_minus net_is_debit_minus_credit[OF assms] comp_def)
qed

lemma with_totals_fields [simp]:
  "ag_account_totals (with_totals agg) = ag_account_totals agg"
  "ag_contributing_entities (with_totals agg) = ag_contributing_entities agg"
  "ag_deferred_entities (with_totals agg) = ag_deferred_entities agg"
  "ag_currency (with_totals agg) = ag_currency agg"
  "ag_total_debits (with_totals agg) = bt_sum aa_debit_total (ag_account_totals agg)"
  "ag_total_credits (with_totals agg) = bt_sum aa_credit_total (ag_account_totals agg)"
  by (simp_all add: with_totals_def recompute_totals_def)

section \<open>Eliminations and overlay as postings\<close>

definition posting_of_line :: "(naive_date, 'd::linordered_field) JournalEntryLine \<Rightarrow> string \<times> 'd \<times> 'd" where
  "posting_of_line l = (gl_account l, debit_amount l, credit_amount l)"

definition elimination_postings ::
    "(naive_date, 'ts, 'd::linordered_field, 'wf) JournalEntry list \<Rightarrow> (string \<times> 'd \<times> 'd) list" where
  "elimination_postings jes =
     concat (map (\<lambda>je. map posting_of_line (lines je)) (filter (\<lambda>je. is_elimination (header je)) jes))"

definition foreign_elimination ::
    "string \<Rightarrow> (naive_date, 'ts, 'd::linordered_field, 'wf) JournalEntry \<Rightarrow> bool" where
  "foreign_elimination cur je \<longleftrightarrow> is_elimination (header je) \<and> currency (header je) \<noteq> cur"

lemma elimination_postings_simps [simp]:
  "elimination_postings [] = []"
  "elimination_postings (je # jes) =
     (if is_elimination (header je) then map posting_of_line (lines je) else []) @ elimination_postings jes"
  by (simp_all add: elimination_postings_def)

lemma elimination_lines:
  "foldl (\<lambda>p l. apply_line_to_account p (gl_account l) (debit_amount l) (credit_amount l)) agg ls
     = foldl apply_posting agg (map posting_of_line ls)"
  by (induction ls arbitrary: agg) (simp_all add: apply_posting_def posting_of_line_def)

lemma elimination_loop_eq:
  "elimination_loop jes agg =
     (case find (foreign_elimination (ag_currency agg)) jes of
        Some je \<Rightarrow> Inl (AggregateError (EliminationCurrencyMismatch (currency (header je)) (ag_currency agg)))
      | None \<Rightarrow> Inr (foldl apply_posting agg (elimination_postings jes)))"
proof (induction jes arbitrary: agg)
  case (Cons je jes)
  then show ?case
    by (auto simp: elimination_lines foreign_elimination_def split: option.split)
qed simp

lemma posting_net_append:
  "posting_net [] k = 0" "posting_net (ps @ qs) k = posting_net ps k + posting_net qs k"
  by (simp_all add: posting_net_def)

lemma line_postings_net:
  "posting_net (map posting_of_line ls) k = key_sum gl_account signed_amount ls k"
  by (induction ls) (simp_all add: posting_net_def posting_of_line_def signed_amount_def)

lemma elimination_postings_net:
  "posting_net (elimination_postings jes) k =
     sum_list (map (\<lambda>je. je_net je k) (filter (\<lambda>je. is_elimination (header je)) jes))"
  by (induction jes) (simp_all add: posting_net_append line_postings_net je_net_def)

lemma apply_eliminations_eq:
  "apply_eliminations_to_tb pre jes =
     (case find (foreign_elimination (ag_currency pre)) jes of
        Some je \<Rightarrow> Inl (AggregateError (EliminationCurrencyMismatch (currency (header je)) (ag_currency pre)))
      | None \<Rightarrow> Inr (with_totals (foldl apply_posting pre (elimination_postings jes))))"
  by (simp add: apply_eliminations_to_tb_def elimination_loop_eq verify_balance_invariant_def
      split: option.split)

text \<open>The overlay of the investments and of the non-controlling interests.\<close>

definition nci_postings :: "'d::linordered_field \<Rightarrow> (string \<times> 'd \<times> 'd) list" where
  "nci_postings closing =
     (if closing \<noteq> 0 then [(NCI_EQUITY, 0, closing), (RETAINED_EARNINGS, closing, 0)] else [])"

definition investment_postings :: "'d::linordered_field EquityMethodInvestment \<Rightarrow> (string \<times> 'd \<times> 'd) list" where
  "investment_postings i =
     (let carrying = em_closing_carrying_value i; share = em_share_of_profit i in
      (if carrying \<noteq> 0 then [(EQUITY_METHOD_INVESTMENT, carrying, 0), (RETAINED_EARNINGS, 0, carrying)] else [])
      @ (if share \<noteq> 0 then [(SHARE_OF_PROFIT_OF_ASSOCIATES, 0, share), (RETAINED_EARNINGS, share, 0)] else []))"

definition overlay_postings ::
    "'d::linordered_field NciRollforward list \<Rightarrow> 'd EquityMethodInvestment list \<Rightarrow> (string \<times> 'd \<times> 'd) list" where
  "overlay_postings ncis invs =
     nci_postings (sum_list (map nr_closing_nci ncis)) @ concat (map investment_postings invs)"

lemma overlay_investments_eq:
  "foldl overlay_investment agg invs = foldl apply_posting agg (concat (map investment_postings invs))"
proof (induction invs arbitrary: agg)
  case (Cons i invs)
  have "overlay_investment agg i = foldl apply_posting agg (investment_postings i)"
    by (simp add: overlay_investment_def investment_postings_def apply_posting_def Let_def)
  then show ?case using Cons by simp
qed simp

lemma try_map_checks:
  "try_map (\<lambda>x. if P x then Inl (f x) else Inr ()) xs =
     (case find P xs of Some x \<Rightarrow> Inl (f x) | None \<Rightarrow> Inr (map (\<lambda>_. ()) xs))"
  by (induction xs) (auto split: option.split)

lemma fold_sum: "foldl (\<lambda>acc x. acc + g x) z xs = z + sum_list (map g xs)"
  for z :: "'a::monoid_add"
  by (induction xs arbitrary: z) (simp_all add: add.assoc)

lemma overlay_eq:
  "apply_nci_and_equity_method post ncis invs =
     (case find (\<lambda>r. nr_currency r \<noteq> ag_currency post) ncis of
        Some r \<Rightarrow> Inl (AggregateError
                     (NciCurrencyMismatch (nr_entity_code r) (nr_currency r) (ag_currency post)))
      | None \<Rightarrow>
          (case find (\<lambda>i. em_currency i \<noteq> ag_currency post) invs of
             Some i \<Rightarrow> Inl (AggregateError
                     (InvestmentCurrencyMismatch (em_investee_code i) (em_currency i) (ag_currency post)))
           | None \<Rightarrow> Inr (with_totals (foldl apply_posting post (overlay_postings ncis invs)))))"
proof -
  have "overlay_nci post t = foldl apply_posting post (nci_postings t)" for t
    by (simp add: overlay_nci_def nci_postings_def apply_posting_def)
  then show ?thesis
    by (simp add: apply_nci_and_equity_method_def try_map_checks fold_sum Let_def overlay_investments_eq
        overlay_postings_def verify_balance_invariant_def split: option.split)
qed

text \<open>The overlay reclassifies: its debits are its credits.\<close>

lemma overlay_balances:
  "sum_list (map (fst \<circ> snd) (overlay_postings ncis invs)) = sum_list (map (snd \<circ> snd) (overlay_postings ncis invs))"
proof -
  have "sum_list (map (fst \<circ> snd) (investment_postings i)) = sum_list (map (snd \<circ> snd) (investment_postings i))"
    for i :: "'a EquityMethodInvestment"
    by (simp add: investment_postings_def Let_def)
  then have "sum_list (map (fst \<circ> snd) (concat (map investment_postings invs)))
      = sum_list (map (snd \<circ> snd) (concat (map investment_postings invs)))"
    by (induction invs) (simp_all del: map_map)
  then show ?thesis by (simp add: overlay_postings_def nci_postings_def)
qed

lemma overlay_net:
  "posting_net (overlay_postings ncis invs) k =
     (if k = NCI_EQUITY then - sum_list (map nr_closing_nci ncis)
      else if k = EQUITY_METHOD_INVESTMENT then sum_list (map em_closing_carrying_value invs)
      else if k = SHARE_OF_PROFIT_OF_ASSOCIATES then - sum_list (map em_share_of_profit invs)
      else if k = RETAINED_EARNINGS
      then sum_list (map nr_closing_nci ncis) + sum_list (map em_share_of_profit invs)
             - sum_list (map em_closing_carrying_value invs)
      else 0)"
proof -
  note accounts = NCI_EQUITY_def EQUITY_METHOD_INVESTMENT_def SHARE_OF_PROFIT_OF_ASSOCIATES_def
    RETAINED_EARNINGS_def
  have "posting_net (concat (map investment_postings invs)) k =
     (if k = EQUITY_METHOD_INVESTMENT then sum_list (map em_closing_carrying_value invs)
      else if k = SHARE_OF_PROFIT_OF_ASSOCIATES then - sum_list (map em_share_of_profit invs)
      else if k = RETAINED_EARNINGS
      then sum_list (map em_share_of_profit invs) - sum_list (map em_closing_carrying_value invs) else 0)"
    by (induction invs) (auto simp: posting_net_def investment_postings_def accounts Let_def)
  then show ?thesis
    by (auto simp: overlay_postings_def nci_postings_def posting_net_def accounts)
qed

section \<open>The sum of the entities\<close>

interpretation entity_debits: posting_ledger accumulate_line "\<lambda>st. side_of aa_debit_total (fst st)"
    tl_account_code tl_debit_balance
  by unfold_locales (simp add: accumulate_line_def side_of_def map_of_bt_entry Let_def split: option.split)

interpretation entity_credits: posting_ledger accumulate_line "\<lambda>st. side_of aa_credit_total (fst st)"
    tl_account_code tl_credit_balance
  by unfold_locales (simp add: accumulate_line_def side_of_def map_of_bt_entry Let_def split: option.split)

definition codes_of :: "'d TrialBalanceLine list \<Rightarrow> string set" where
  "codes_of ls = tl_account_code ` set ls"

definition first_type :: "'d TrialBalanceLine list \<Rightarrow> string \<Rightarrow> AccountType option" where
  "first_type ls k = map_option tl_account_type (find (\<lambda>l. tl_account_code l = k) ls)"

lemma codes_of_simps [simp]:
  "codes_of [] = {}" "codes_of (l # ls) = insert (tl_account_code l) (codes_of ls)"
  "codes_of (ls @ ls') = codes_of ls \<union> codes_of ls'"
  by (auto simp: codes_of_def)

lemma first_type_append:
  "first_type (ls @ ls') k = (case first_type ls k of None \<Rightarrow> first_type ls' k | Some t \<Rightarrow> Some t)"
  by (induction ls) (simp_all add: first_type_def)

lemma totals_wf_entry:
  assumes "totals_wf m" "account_ok k d" "\<And>a. account_ok k a \<Longrightarrow> account_ok k (f a)"
  shows "totals_wf (bt_entry k d f m)"
proof -
  have "account_ok k (f (case map_of m k of None \<Rightarrow> d | Some v \<Rightarrow> v))"
    using assms by (auto simp: totals_wf_def split: option.split)
  then show ?thesis using assms(1) by (simp add: totals_wf_def map_of_bt_entry)
qed

lemma accumulated_wf:
  "totals_wf (fst st) \<Longrightarrow> totals_wf (fst (foldl accumulate_line st ls))"
proof (induction ls arbitrary: st)
  case (Cons l ls)
  have "totals_wf (fst (accumulate_line st l))"
    using Cons.prems by (auto simp: accumulate_line_def Let_def account_ok_def intro!: totals_wf_entry)
  with Cons.IH show ?case by simp
qed simp

lemma accumulated_keys:
  "dom (map_of (fst (foldl accumulate_line st ls))) = dom (map_of (fst st)) \<union> codes_of ls"
proof (induction ls arbitrary: st)
  case (Cons l ls)
  then show ?case by (auto simp: accumulate_line_def map_of_bt_entry Let_def)
qed simp

lemma accumulated_contributors:
  "contributors (fst (foldl accumulate_line st ls)) k =
     contributors (fst st) k + (if k \<in> codes_of ls - snd st then 1 else 0)"
proof (induction ls arbitrary: st)
  case (Cons l ls)
  then show ?case
    by (auto simp: accumulate_line_def contributors_def map_of_bt_entry Let_def split: option.splits)
qed simp

lemma accumulated_type:
  "type_in (fst (foldl accumulate_line st ls)) k =
     (case type_in (fst st) k of Some t \<Rightarrow> Some t | None \<Rightarrow> first_type ls k)"
proof (induction ls arbitrary: st)
  case (Cons l ls)
  then show ?case
    by (auto simp: accumulate_line_def type_in_def first_type_def map_of_bt_entry Let_def split: option.splits)
qed (simp add: first_type_def split: option.split)

lemma accumulated_sides:
  "side_of aa_debit_total (fst (foldl accumulate_line st ls)) k =
     side_of aa_debit_total (fst st) k + key_sum tl_account_code tl_debit_balance ls k"
  "side_of aa_credit_total (fst (foldl accumulate_line st ls)) k =
     side_of aa_credit_total (fst st) k + key_sum tl_account_code tl_credit_balance ls k"
  using entity_debits.total_post_lines[of st ls k] entity_credits.total_post_lines[of st ls k]
  by (simp_all add: entity_debits.post_lines_def entity_credits.post_lines_def)

text \<open>All the consolidated entities: the lines of all their trial balances.\<close>

definition accumulate_all ::
    "'d::linordered_field AggregatedTb \<Rightarrow> (string \<times> (naive_date, 'ts, 'd) TrialBalance) list
     \<Rightarrow> 'd AggregatedTb" where
  "accumulate_all agg tbs = foldl (\<lambda>a p. accumulate_tb a (fst p) (snd p)) agg tbs"

definition all_lines :: "(string \<times> (naive_date, 'ts, 'd) TrialBalance) list \<Rightarrow> 'd TrialBalanceLine list" where
  "all_lines tbs = concat (map (tb_lines \<circ> snd) tbs)"

definition touching :: "(string \<times> (naive_date, 'ts, 'd) TrialBalance) list \<Rightarrow> string \<Rightarrow> nat" where
  "touching tbs k = length (filter (\<lambda>p. k \<in> codes_of (tb_lines (snd p))) tbs)"

lemma accumulate_all_Cons:
  "accumulate_all agg (p # tbs) = accumulate_all (accumulate_tb agg (fst p) (snd p)) tbs"
  by (simp add: accumulate_all_def)

lemma accumulate_all_lists:
  "ag_contributing_entities (accumulate_all agg tbs) = ag_contributing_entities agg @ map fst tbs"
  "ag_deferred_entities (accumulate_all agg tbs) = ag_deferred_entities agg"
  "ag_total_debits (accumulate_all agg tbs) = ag_total_debits agg + sum_list (map (tb_total_debits \<circ> snd) tbs)"
  "ag_total_credits (accumulate_all agg tbs) = ag_total_credits agg + sum_list (map (tb_total_credits \<circ> snd) tbs)"
  "ag_group_id (accumulate_all agg tbs) = ag_group_id agg"
  "ag_currency (accumulate_all agg tbs) = ag_currency agg"
  "ag_as_of_date (accumulate_all agg tbs) = ag_as_of_date agg"
  by (induction tbs arbitrary: agg)
     (simp_all add: accumulate_all_def accumulate_tb_def algebra_simps)

lemma accumulate_all_wf:
  "totals_wf (ag_account_totals agg) \<Longrightarrow> totals_wf (ag_account_totals (accumulate_all agg tbs))"
proof (induction tbs arbitrary: agg)
  case (Cons p tbs)
  then have "totals_wf (ag_account_totals (accumulate_tb agg (fst p) (snd p)))"
    by (simp add: accumulate_tb_def accumulated_wf)
  with Cons.IH show ?case by (simp add: accumulate_all_Cons)
qed (simp add: accumulate_all_def)

lemma accumulate_all_accounts:
  "dom (map_of (ag_account_totals (accumulate_all agg tbs)))
     = dom (map_of (ag_account_totals agg)) \<union> codes_of (all_lines tbs)"
  "account_debit (accumulate_all agg tbs) k
     = account_debit agg k + key_sum tl_account_code tl_debit_balance (all_lines tbs) k"
  "account_credit (accumulate_all agg tbs) k
     = account_credit agg k + key_sum tl_account_code tl_credit_balance (all_lines tbs) k"
  "contributors (ag_account_totals (accumulate_all agg tbs)) k
     = contributors (ag_account_totals agg) k + of_nat (touching tbs k)"
  "type_in (ag_account_totals (accumulate_all agg tbs)) k
     = (case type_in (ag_account_totals agg) k of Some t \<Rightarrow> Some t | None \<Rightarrow> first_type (all_lines tbs) k)"
proof (induction tbs arbitrary: agg)
  case Nil
  {
    case 1 show ?case by (simp add: accumulate_all_def all_lines_def)
  next
    case 2 show ?case by (simp add: accumulate_all_def all_lines_def)
  next
    case 3 show ?case by (simp add: accumulate_all_def all_lines_def)
  next
    case 4 show ?case by (simp add: accumulate_all_def touching_def)
  next
    case 5 show ?case by (simp add: accumulate_all_def all_lines_def first_type_def split: option.split)
  }
next
  case (Cons p tbs)
  note step = accumulate_all_Cons accumulate_tb_def all_lines_def touching_def accumulated_keys
    accumulated_sides accumulated_contributors accumulated_type first_type_append
  {
    case 1 show ?case unfolding accumulate_all_Cons Cons.IH(1) by (auto simp: step)
  next
    case 2 show ?case unfolding accumulate_all_Cons Cons.IH(2) by (simp add: step)
  next
    case 3 show ?case unfolding accumulate_all_Cons Cons.IH(3) by (simp add: step)
  next
    case 4 show ?case unfolding accumulate_all_Cons Cons.IH(4) by (simp add: step)
  next
    case 5 show ?case unfolding accumulate_all_Cons Cons.IH(5) by (simp add: step split: option.split)
  }
qed

text \<open>Splitting the entities by their method.\<close>

definition method_of :: "('f, 'd, 'x) GroupManifest \<Rightarrow> string \<Rightarrow> ConsolidationMethod option" where
  "method_of m code =
     map_option me_consolidation_method (find (\<lambda>e. me_code e = code) (og_entities (gm_ownership_graph m)))"

definition consolidated_tbs ::
    "('f, 'd, 'x) GroupManifest \<Rightarrow> (string \<times> (naive_date, 'ts, 'd) TrialBalance) list
     \<Rightarrow> (string \<times> (naive_date, 'ts, 'd) TrialBalance) list" where
  "consolidated_tbs m tbs = filter (\<lambda>p. method_of m (fst p) \<in> {Some Parent, Some Full}) tbs"

definition deferred_entities ::
    "('f, 'd, 'x) GroupManifest \<Rightarrow> (string \<times> (naive_date, 'ts, 'd) TrialBalance) list \<Rightarrow> DeferredEntity list" where
  "deferred_entities m tbs =
     map (\<lambda>p. \<lparr>de_entity_code = fst p, de_method = the (method_of m (fst p))\<rparr>)
       (filter (\<lambda>p. method_of m (fst p) \<notin> {Some Parent, Some Full}) tbs)"

lemma lookup_method_eq:
  "lookup_consolidation_method m code =
     (case method_of m code of None \<Rightarrow> Inl (AggregateError (EntityNotInManifest code)) | Some x \<Rightarrow> Inr x)"
  by (simp add: lookup_consolidation_method_def method_of_def split: option.split)

lemma accumulate_deferred:
  "accumulate_tb (agg\<lparr>ag_deferred_entities := ds\<rparr>) c tb = (accumulate_tb agg c tb)\<lparr>ag_deferred_entities := ds\<rparr>"
  by (simp add: accumulate_tb_def)

lemma accumulate_all_deferred:
  "accumulate_all (agg\<lparr>ag_deferred_entities := ds\<rparr>) tbs = (accumulate_all agg tbs)\<lparr>ag_deferred_entities := ds\<rparr>"
  by (induction tbs arbitrary: agg) (simp_all add: accumulate_all_def accumulate_deferred)

lemma aggregate_loop_eq:
  "aggregate_loop m tbs agg =
     (case find (\<lambda>p. method_of m (fst p) = None) tbs of
        Some p \<Rightarrow> Inl (AggregateError (EntityNotInManifest (fst p)))
      | None \<Rightarrow> Inr ((accumulate_all agg (consolidated_tbs m tbs))
                 \<lparr>ag_deferred_entities := ag_deferred_entities agg @ deferred_entities m tbs\<rparr>))"
proof (induction tbs arbitrary: agg)
  case Nil
  show ?case by (simp add: accumulate_all_def consolidated_tbs_def deferred_entities_def)
next
  case (Cons p tbs)
  obtain c tb where p: "p = (c, tb)" by force
  show ?case
    using Cons
    by (auto simp: p lookup_method_eq ensure_currency_matches_def consolidated_tbs_def accumulate_all_Cons
        deferred_entities_def defer_entity_def accumulate_all_deferred accumulate_tb_def split: option.splits)
qed

section \<open>The currency of the eliminations\<close>

lemma entry_line_currency [simp]: "ee_currency (elim_add_line e l) = ee_currency e"
  by (simp add: elim_add_line_def)

lemma new_elimination_currency [simp]:
  "ee_currency (new_elimination now i ty entity period dt cur) = cur"
  by (simp add: new_elimination_def)

lemma entries_of_pair_currency:
  "e \<in> set (entries_of_pair el now m p plan) \<Longrightarrow> ee_currency e = gm_presentation_currency m"
  by (cases "pl_transaction_type plan")
     (auto simp: entries_of_pair_def build_entries_for_pair_def Let_def build_balance_entry_def
       build_revenue_expense_entry_def build_interest_entry_def build_dividend_entry_def
       create_ic_balance_elimination_def create_ic_revenue_expense_elimination_def)

lemma generated_eliminations:
  fixes cv :: "(naive_date, 'ts) conversion_env"
  assumes s: "generate_eliminations env el now matched m = Inr s"
    and je: "je \<in> set (eliminations_to_journal_entries cv s :: (naive_date, 'ts, 'd::linordered_field, 'wf) JournalEntry list)"
  shows "is_elimination (header je)" "currency (header je) = gm_presentation_currency m"
proof -
  obtain k e where e: "(k, e) \<in> set (enumerate 0 (filter elim_is_balanced (rs_entries s)))"
      "je = elimination_to_journal_entry cv k e"
    using je by (auto simp: eliminations_to_journal_entries_def elimination_to_journal_entries_def)
  from e(1) have "e \<in> snd ` set (enumerate 0 (filter elim_is_balanced (rs_entries s)))"
    by (rule rev_image_eqI) simp
  then have "e \<in> set (rs_entries s)" unfolding set_map[symmetric] by simp
  then have "ee_currency e = gm_presentation_currency m"
    using mset_eq_setD[OF generate_eliminations_Inr(2)[OF s]] entries_of_pair_currency by fastforce
  then show "is_elimination (header je)" "currency (header je) = gm_presentation_currency m"
    by (simp_all add: e(2) converted_entry(1) converted_header)
qed

section \<open>Properties\<close>

lemma aggregate_fields:
  assumes "aggregate_pre_elimination m tbs = Inr agg"
  shows "find (\<lambda>p. method_of m (fst p) = None) tbs = None"
    and "agg = finalise_streaming_aggregate
           ((accumulate_all (empty_aggregate m) (consolidated_tbs m tbs))
              \<lparr>ag_deferred_entities := deferred_entities m tbs\<rparr>)"
  using assms
  by (auto simp: aggregate_pre_elimination_def aggregate_loop_eq empty_aggregate_def split: option.splits)

lemma finalise_fields [simp]:
  "ag_account_totals (finalise_streaming_aggregate agg) = ag_account_totals agg"
  "ag_total_debits (finalise_streaming_aggregate agg) = ag_total_debits agg"
  "ag_total_credits (finalise_streaming_aggregate agg) = ag_total_credits agg"
  "ag_currency (finalise_streaming_aggregate agg) = ag_currency agg"
  "ag_contributing_entities (finalise_streaming_aggregate agg) = sort (ag_contributing_entities agg)"
  "ag_deferred_entities (finalise_streaming_aggregate agg) = sort_key de_entity_code (ag_deferred_entities agg)"
  by (simp_all add: finalise_streaming_aggregate_def)

lemma empty_fields [simp]:
  "ag_account_totals (empty_aggregate m) = []" "ag_total_debits (empty_aggregate m) = 0"
  "ag_total_credits (empty_aggregate m) = 0" "ag_currency (empty_aggregate m) = gm_presentation_currency m"
  "ag_contributing_entities (empty_aggregate m) = []" "ag_deferred_entities (empty_aggregate m) = []"
  by (simp_all add: empty_aggregate_def)

lemma nothing_in_empty [simp]:
  "side_of f [] k = 0" "contributors [] k = 0" "type_in [] k = None"
  by (simp_all add: side_of_def contributors_def type_in_def)

lemma pre_elimination_net:
  assumes "aggregate_pre_elimination m tbs = Inr agg"
  shows "totals_wf (ag_account_totals agg)"
    and "account_net agg k = key_sum tl_account_code tl_net_balance (all_lines (consolidated_tbs m tbs)) k"
proof -
  let ?t = "ag_account_totals (accumulate_all (empty_aggregate m) (consolidated_tbs m tbs))"
  have wf: "totals_wf ?t" by (simp add: accumulate_all_wf)
  then show "totals_wf (ag_account_totals agg)" by (simp add: aggregate_fields(2)[OF assms])
  have net: "tl_net_balance = (\<lambda>l. tl_debit_balance l - tl_credit_balance l)"
    by (simp add: fun_eq_iff tl_net_balance_def)
  show "account_net agg k = key_sum tl_account_code tl_net_balance (all_lines (consolidated_tbs m tbs)) k"
    by (simp add: aggregate_fields(2)[OF assms] net_is_debit_minus_credit[OF wf] accumulate_all_accounts
        net key_sum_minus)
qed

lemma totals_ext:
  assumes "totals_wf m" "totals_wf m'"
    and "\<And>k. side_of aa_debit_total m k = side_of aa_debit_total m' k"
    and "\<And>k. side_of aa_credit_total m k = side_of aa_credit_total m' k"
    and "\<And>k. contributors m k = contributors m' k"
    and "\<And>k. type_in m k = type_in m' k"
  shows "m = m'"
proof (rule bt_ext)
  show "bt_wf m" "bt_wf m'" using assms(1,2) by (simp_all add: totals_wf_def)
  show "map_of m = map_of m'"
  proof
    fix k
    consider "map_of m k = None" "map_of m' k = None"
      | a a' where "map_of m k = Some a" "map_of m' k = Some a'"
      using assms(6)[of k] by (cases "map_of m k"; cases "map_of m' k") (auto simp: type_in_def)
    then show "map_of m k = map_of m' k"
    proof cases
      case (2 a a')
      have "account_ok k a" "account_ok k a'" using assms(1,2) 2 by (simp_all add: totals_wf_def)
      then have "a = a'"
        using assms(3-6)[of k] 2
        by (intro AggregatedAccount.equality)
           (simp_all add: side_of_def contributors_def type_in_def account_ok_def)
      with 2 show ?thesis by simp
    qed simp
  qed
qed

lemma first_type_permuted:
  assumes "set ls = set ls'"
    and "\<forall>l \<in> set ls. \<forall>l' \<in> set ls. tl_account_code l = tl_account_code l' \<longrightarrow> tl_account_type l = tl_account_type l'"
  shows "first_type ls k = first_type ls' k"
proof (cases "find (\<lambda>l. tl_account_code l = k) ls")
  case None
  then have "find (\<lambda>l. tl_account_code l = k) ls' = None" using assms(1) by (simp add: find_None_iff)
  with None show ?thesis by (simp add: first_type_def)
next
  case (Some l)
  then have l: "l \<in> set ls" "tl_account_code l = k"
    by (auto simp: find_Some_iff)
  then obtain l' where l': "find (\<lambda>l. tl_account_code l = k) ls' = Some l'"
    using assms(1) by (cases "find (\<lambda>l. tl_account_code l = k) ls'") (auto simp: find_None_iff)
  then have "l' \<in> set ls" "tl_account_code l' = k" unfolding assms(1) by (auto simp: find_Some_iff)
  then have "tl_account_type l = tl_account_type l'" using assms(2) l by blast
  then show ?thesis using Some l' by (simp add: first_type_def)
qed

lemma mset_concat_mset:
  assumes "mset xs = mset ys"
  shows "mset (concat (map f xs)) = mset (concat (map f ys))"
proof -
  have "mset (concat (map f zs)) = (\<Sum>x\<in>#mset zs. mset (f x))" for zs
    by (induction zs) (simp_all del: mset_concat)
  then show ?thesis using assms by simp
qed

text \<open>C13. The pre-elimination trial balance, for any list of entities: an entity that is not in
  the manifest is the only error, reported for the first one. Otherwise the accounts are exactly
  the accounts on the lines of the fully consolidated entities; the debits and the credits of an
  account are the sums over these lines, its net balance their difference, its number of
  contributing entities counts each entity once however many lines it has (modulo two to the 32),
  its type is that of the first line; the other entities are listed as deferred with their
  method, both lists sorted; and the totals add up the totals of the trial balances.\<close>

theorem pre_elimination_exact:
  "case aggregate_pre_elimination m tbs of
     Inl err \<Rightarrow> map_option (\<lambda>p. AggregateError (EntityNotInManifest (fst p)))
                  (find (\<lambda>p. method_of m (fst p) = None) tbs) = Some err
   | Inr agg \<Rightarrow>
       find (\<lambda>p. method_of m (fst p) = None) tbs = None
       \<and> totals_wf (ag_account_totals agg)
       \<and> dom (map_of (ag_account_totals agg)) = codes_of (all_lines (consolidated_tbs m tbs))
       \<and> (\<forall>k. account_debit agg k = key_sum tl_account_code tl_debit_balance (all_lines (consolidated_tbs m tbs)) k
            \<and> account_credit agg k = key_sum tl_account_code tl_credit_balance (all_lines (consolidated_tbs m tbs)) k
            \<and> contributors (ag_account_totals agg) k = of_nat (touching (consolidated_tbs m tbs) k)
            \<and> type_in (ag_account_totals agg) k = first_type (all_lines (consolidated_tbs m tbs)) k)
       \<and> ag_contributing_entities agg = sort (map fst (consolidated_tbs m tbs))
       \<and> ag_deferred_entities agg = sort_key de_entity_code (deferred_entities m tbs)
       \<and> ag_total_debits agg = sum_list (map (tb_total_debits \<circ> snd) (consolidated_tbs m tbs))
       \<and> ag_total_credits agg = sum_list (map (tb_total_credits \<circ> snd) (consolidated_tbs m tbs))"
proof (cases "aggregate_pre_elimination m tbs")
  case (Inl err)
  then show ?thesis
    by (auto simp: aggregate_pre_elimination_def aggregate_loop_eq split: option.splits)
next
  case (Inr agg)
  note fields = aggregate_fields[OF Inr]
  show ?thesis
    using pre_elimination_net(1)[OF Inr] fields(1)
    by (simp add: Inr fields(2) accumulate_all_accounts accumulate_all_lists del: find_None_iff)
qed

text \<open>C19. The order in which the entities are walked does not matter: when the entities agree on the
  types of their accounts, a permutation of the list gives the same trial balance, field by
  field.\<close>

theorem pre_elimination_order_independent:
  assumes "mset tbs = mset tbs'"
    and types: "\<forall>l \<in> set (all_lines tbs). \<forall>l' \<in> set (all_lines tbs).
                  tl_account_code l = tl_account_code l' \<longrightarrow> tl_account_type l = tl_account_type l'"
    and "aggregate_pre_elimination m tbs = Inr agg"
  shows "aggregate_pre_elimination m tbs' = Inr agg"
proof -
  have set: "set tbs = set tbs'" using assms(1) by (rule mset_eq_setD)
  have "find (\<lambda>p. method_of m (fst p) = None) tbs' = None"
    using aggregate_fields(1)[OF assms(3)] by (simp add: find_None_iff set)
  then obtain agg' where agg': "aggregate_pre_elimination m tbs' = Inr agg'"
    by (simp add: aggregate_pre_elimination_def aggregate_loop_eq)
  let ?c = "consolidated_tbs m tbs" and ?c' = "consolidated_tbs m tbs'"
  have c: "mset ?c = mset ?c'"
    using assms(1) by (simp add: consolidated_tbs_def)
  have lines: "mset (all_lines ?c) = mset (all_lines ?c')"
    unfolding all_lines_def by (rule mset_concat_mset[OF c])
  have sub: "set (all_lines ?c) \<subseteq> set (all_lines tbs)"
    by (auto simp: all_lines_def consolidated_tbs_def)
  have "ag_account_totals agg = ag_account_totals agg'"
  proof (rule totals_ext)
    show "totals_wf (ag_account_totals agg)" "totals_wf (ag_account_totals agg')"
      using pre_elimination_net(1) assms(3) agg' by blast+
    fix k
    note fields = aggregate_fields(2)[OF assms(3)] aggregate_fields(2)[OF agg']
    show "account_debit agg k = account_debit agg' k" "account_credit agg k = account_credit agg' k"
      by (simp_all add: fields accumulate_all_accounts key_sum_permuted[OF lines])
    show "contributors (ag_account_totals agg) k = contributors (ag_account_totals agg') k"
      using arg_cong[OF c, of "\<lambda>M. size (filter_mset (\<lambda>p. k \<in> codes_of (tb_lines (snd p))) M)"]
      by (simp add: fields accumulate_all_accounts touching_def flip: mset_filter)
    show "type_in (ag_account_totals agg) k = type_in (ag_account_totals agg') k"
      using first_type_permuted[OF mset_eq_setD[OF lines], of k] types sub
      by (simp add: fields accumulate_all_accounts) blast
  qed
  moreover have "sort (map fst ?c) = sort (map fst ?c')"
    by (rule sort_key_eq_sort_key) (use arg_cong[OF c, of "image_mset fst"] in simp_all)
  moreover have "sort_key de_entity_code (deferred_entities m tbs) = sort_key de_entity_code (deferred_entities m tbs')"
  proof (rule sort_key_eq_sort_key)
    show "mset (deferred_entities m tbs) = mset (deferred_entities m tbs')"
      using assms(1) by (simp add: deferred_entities_def)
    show "inj_on de_entity_code (set (deferred_entities m tbs))"
      by (auto simp: deferred_entities_def inj_on_def)
  qed
  moreover have "sum_list (map f ?c) = sum_list (map f ?c')" for f :: "_ \<Rightarrow> 'b"
    by (rule sum_list_mset_eq[OF c])
  ultimately have "agg = agg'"
    unfolding aggregate_fields(2)[OF assms(3)] aggregate_fields(2)[OF agg']
    by (intro AggregatedTb.equality) (simp_all add: accumulate_all_lists finalise_streaming_aggregate_def)
  then show ?thesis using agg' by simp
qed



section \<open>Intercompany trade leaves no trace\<close>

text \<open>A trial balance that holds exactly what the journal of its entity posted.\<close>

definition trial_balance_of ::
    "(naive_date, 'ts, 'd::linordered_field) TrialBalance \<Rightarrow> (naive_date, 'ts, 'd, 'wf) JournalEntry list \<Rightarrow> bool" where
  "trial_balance_of tb jes \<longleftrightarrow>
     (\<forall>k. key_sum tl_account_code tl_net_balance (tb_lines tb) k = sum_list (map (\<lambda>x. je_net x k) jes))"

lemma trial_balances_sum:
  assumes "list_all2 (\<lambda>p q. fst p = fst q \<and> trial_balance_of (snd p) (snd q)) tbs entity_jes"
  shows "key_sum tl_account_code tl_net_balance (all_lines tbs) k
           = sum_list (map (\<lambda>x. je_net x k) (concat (map snd entity_jes)))"
  using assms
  by (induction rule: list_all2_induct) (simp_all add: all_lines_def trial_balance_of_def)

lemma sum_list_split:
  fixes f :: "'a \<Rightarrow> 'b::comm_monoid_add"
  shows "sum_list (map f xs) = sum_list (map f (filter P xs)) + sum_list (map f (filter (\<lambda>x. \<not> P x) xs))"
  by (induction xs) (simp_all add: ac_simps)

lemma method_of_entity:
  assumes "\<forall>e \<in> set (og_entities (gm_ownership_graph m)). me_consolidation_method e \<in> {Parent, Full}"
    and "c \<in> me_code ` set (og_entities (gm_ownership_graph m))"
  shows "method_of m c \<in> {Some Parent, Some Full}"
proof -
  obtain e where e: "find (\<lambda>e. me_code e = c) (og_entities (gm_ownership_graph m)) = Some e"
    using assms(2) by (cases "find (\<lambda>e. me_code e = c) (og_entities (gm_ownership_graph m))")
      (auto simp: find_None_iff)
  then have "e \<in> set (og_entities (gm_ownership_graph m))" by (auto simp: find_Some_iff)
  then show ?thesis using e assms(1) by (auto simp: method_of_def)
qed

text \<open>C6. From the manifest to the consolidated trial balance: all entities are fully
  consolidated, every shard has posted the entries injected for its plans and closed with the
  trial balance of its journal, and no relationship pays dividends. Then the aggregation, the
  matching, the eliminations and their application all succeed, and on every account the
  consolidated net balance is the sum of the entries with third parties: the intercompany
  trade has left no trace.\<close>

theorem intercompany_leaves_no_trace:
  fixes m :: "('f::linordered_field, 'd::linordered_field, 'x) GroupManifest"
    and entity_jes :: "(string \<times> (naive_date, 'ts, 'd, 'wf) JournalEntry list) list"
  assumes "manifest_ok env m" "shards_complete env m je entity_jes"
    and "mc_strategy (gm_matching m) = ManifestDriven"
    and "\<forall>rel \<in> set (gm_ic_relationships m). hd (rel_types rel) \<noteq> Dividend"
    and full: "\<forall>e \<in> set (og_entities (gm_ownership_graph m)). me_consolidation_method e \<in> {Parent, Full}"
    and tbs: "list_all2 (\<lambda>p q. fst p = fst q \<and> trial_balance_of (snd p) (snd q)) tbs entity_jes"
  shows "\<exists>pre r s post.
           aggregate_pre_elimination m tbs = Inr pre
           \<and> match_ic_pairs env m entity_jes = Inr r
           \<and> generate_eliminations env el now (mr_matched r) m = Inr s
           \<and> apply_eliminations_to_tb pre
               (eliminations_to_journal_entries cv s :: (naive_date, 'ts, 'd, 'wf) JournalEntry list) = Inr post
           \<and> (\<forall>k. account_net post k
                = sum_list (map (\<lambda>x. je_net x k)
                    (filter (\<lambda>x. ic_pair_id (header x) = None) (concat (map snd entity_jes)))))"
proof -
  obtain r s where rs: "match_ic_pairs env m entity_jes = Inr r"
      "generate_eliminations env el now (mr_matched r) m = Inr s"
    and zero: "\<And>k. sum_list (map (\<lambda>x. je_net x k) (ic_entries entity_jes))
        + sum_list (map (\<lambda>x. je_net x k)
            (eliminations_to_journal_entries cv s :: (naive_date, 'ts, 'd, 'wf) JournalEntry list)) = 0"
    using intercompany_nets_to_zero[OF assms(1-4)] by blast
  let ?elims = "eliminations_to_journal_entries cv s :: (naive_date, 'ts, 'd, 'wf) JournalEntry list"
  have codes: "map fst tbs = map me_code (og_entities (gm_ownership_graph m))"
    using assms(2) list_all2_conv_all_nth[THEN iffD1, OF tbs]
    by (simp add: shards_complete_def list_eq_iff_nth_eq)
  have known: "method_of m (fst p) \<in> {Some Parent, Some Full}" if "p \<in> set tbs" for p
  proof (rule method_of_entity[OF full])
    have "fst p \<in> set (map fst tbs)" using that by simp
    then show "fst p \<in> me_code ` set (og_entities (gm_ownership_graph m))" unfolding codes by simp
  qed
  then have all: "consolidated_tbs m tbs = tbs"
    by (auto simp: consolidated_tbs_def filter_id_conv)
  have "find (\<lambda>p. method_of m (fst p) = None) tbs = None"
    using known by (fastforce simp: find_None_iff)
  then obtain pre where pre: "aggregate_pre_elimination m tbs = Inr pre"
    by (simp add: aggregate_pre_elimination_def aggregate_loop_eq)
  have cur: "ag_currency pre = gm_presentation_currency m"
    by (simp add: aggregate_fields(2)[OF pre] accumulate_all_lists)
  have elims: "is_elimination (header x) \<and> currency (header x) = gm_presentation_currency m"
    if "x \<in> set ?elims" for x
    using generated_eliminations[OF rs(2) that] by blast
  then have "find (foreign_elimination (ag_currency pre)) ?elims = None"
    by (simp add: find_None_iff foreign_elimination_def cur)
  then have post: "apply_eliminations_to_tb pre ?elims
      = Inr (with_totals (foldl apply_posting pre (elimination_postings ?elims)))"
    by (simp add: apply_eliminations_eq)
  have "filter (\<lambda>x. is_elimination (header x)) ?elims = ?elims"
    using elims by (simp add: filter_id_conv)
  then have "account_net (foldl apply_posting pre (elimination_postings ?elims)) k
      = sum_list (map (\<lambda>x. je_net x k) (concat (map snd entity_jes))) + sum_list (map (\<lambda>x. je_net x k) ?elims)" for k
    using pre_elimination_net(2)[OF pre, of k] trial_balances_sum[OF tbs, of k]
    by (simp only: postings_net[OF pre_elimination_net(1)[OF pre]] elimination_postings_net all)
  then have "account_net (with_totals (foldl apply_posting pre (elimination_postings ?elims))) k
      = sum_list (map (\<lambda>x. je_net x k)
          (filter (\<lambda>x. ic_pair_id (header x) = None) (concat (map snd entity_jes))))" for k
    using zero[of k] sum_list_split[of "\<lambda>x. je_net x k" "concat (map snd entity_jes)" "\<lambda>x. ic_pair_id (header x) \<noteq> None"]
    by (simp add: ic_entries_def)
  then show ?thesis using pre rs post by blast
qed


section \<open>Concrete instances\<close>

definition closing_line :: "(naive_date, rat) JournalEntryLine \<Rightarrow> rat TrialBalanceLine" where
  "closing_line l =
     \<lparr>tl_account_code = gl_account l, tl_account_description = '''', tl_category = CurrentAssets,
      tl_account_type = Asset, tl_opening_balance = 0, tl_period_debits = debit_amount l,
      tl_period_credits = credit_amount l, tl_closing_balance = 0, tl_debit_balance = debit_amount l,
      tl_credit_balance = credit_amount l, tl_cost_center = None, tl_profit_center = None\<rparr>"

definition closing_tb ::
    "string \<Rightarrow> (naive_date, nat, rat, unit) JournalEntry list \<Rightarrow> (naive_date, nat, rat) TrialBalance" where
  "closing_tb code jes =
     foldl tb_add_line (new_trial_balance 0 ''TB'' code 364 2024 12 ''CHF'' Adjusted)
       (map closing_line (concat (map lines jes)))"

lemma lines_of_closing [simp]: "tb_lines (closing_tb code jes) = map closing_line (concat (map lines jes))"
proof -
  have "tb_lines (foldl tb_add_line tb ls) = tb_lines tb @ ls"
    for tb :: "(naive_date, nat, rat) TrialBalance" and ls
    by (induction ls arbitrary: tb) simp_all
  then show ?thesis by (simp add: closing_tb_def new_trial_balance_def)
qed

lemma closing_tb_of: "trial_balance_of (closing_tb code jes) jes"
proof -
  have "key_sum tl_account_code tl_net_balance (map closing_line ls) k = key_sum gl_account signed_amount ls k" for ls k
    by (induction ls) (simp_all add: closing_line_def tl_net_balance_def signed_amount_def)
  then have "key_sum tl_account_code tl_net_balance (map closing_line (concat (map lines jes))) k
      = sum_list (map (\<lambda>x. je_net x k) jes)" for k
    by (induction jes) (simp_all add: je_net_def)
  then show ?thesis by (simp add: trial_balance_of_def)
qed

abbreviation sample_entries :: "(string \<times> (naive_date, nat, rat, unit) JournalEntry list) list" where
  "sample_entries \<equiv> posted_entries sample_group_env sample_manifest sample_je_env"

definition sample_tbs :: "(string \<times> (naive_date, nat, rat) TrialBalance) list" where
  "sample_tbs = map (\<lambda>p. (fst p, closing_tb (fst p) (snd p))) sample_entries"

lemma intercompany_leaves_no_trace_witness:
  "\<exists>pre r s post.
     aggregate_pre_elimination sample_manifest sample_tbs = Inr pre
     \<and> match_ic_pairs sample_group_env sample_manifest sample_entries = Inr r
     \<and> generate_eliminations sample_group_env sample_elim_env 0 (mr_matched r) sample_manifest = Inr s
     \<and> apply_eliminations_to_tb pre (eliminations_to_journal_entries sample_conversion_env s
          :: (naive_date, nat, rat, unit) JournalEntry list) = Inr post
     \<and> account_net post ''1150'' = 0"
proof -
  have ic: "filter (\<lambda>x. ic_pair_id (header x) = None) (concat (map snd sample_entries)) = []"
    by (auto simp: posted_entries_def inject_ic_journal_entries_def filter_empty_conv)
  have tbs: "list_all2 (\<lambda>p q. fst p = fst q \<and> trial_balance_of (snd p) (snd q)) sample_tbs sample_entries"
    by (simp add: sample_tbs_def list_all2_conv_all_nth closing_tb_of)
  have strategy: "mc_strategy (gm_matching sample_manifest) = ManifestDriven"
    by (simp add: sample_manifest_def default_matching_def)
  have full: "\<forall>e \<in> set (og_entities (gm_ownership_graph sample_manifest)).
      me_consolidation_method e \<in> {Parent, Full}"
    by (simp add: sample_manifest_def sample_manifest_entity_def)
  show ?thesis
    using intercompany_leaves_no_trace[OF sample_manifest_ok posted_entries_complete strategy
        sample_no_dividend full tbs, of sample_elim_env 0 sample_conversion_env]
    unfolding ic by auto
qed

definition sample_line :: "string \<Rightarrow> rat \<Rightarrow> rat TrialBalanceLine" where
  "sample_line code x =
     \<lparr>tl_account_code = code, tl_account_description = '''', tl_category = CurrentAssets,
      tl_account_type = Asset, tl_opening_balance = 0, tl_period_debits = x, tl_period_credits = 0,
      tl_closing_balance = x, tl_debit_balance = x, tl_credit_balance = 0, tl_cost_center = None,
      tl_profit_center = None\<rparr>"

definition sample_closing :: "rat \<Rightarrow> (naive_date, nat, rat) TrialBalance" where
  "sample_closing x =
     (new_trial_balance 0 ''TB'' ''A'' 364 2024 12 ''CHF'' Adjusted)
       \<lparr>tb_lines := [sample_line ''1000'' x, sample_line ''1000'' 1], tb_total_debits := x + 1\<rparr>"

definition sample_aggregate :: "rat AggregatedTb" where
  "sample_aggregate =
     \<lparr>ag_group_id = ''G'', ag_currency = ''CHF'', ag_as_of_date = 364,
      ag_account_totals = [(''1000'', \<lparr>aa_account_code = ''1000'', aa_debit_total = 12, aa_credit_total = 0,
         aa_net_balance = 12, aa_contributing_entities = 2, aa_account_type = Asset\<rparr>)],
      ag_contributing_entities = [''A'', ''B''], ag_deferred_entities = [], ag_total_debits = 12,
      ag_total_credits = 0\<rparr>"

lemmas sample_aggregate_defs =
  aggregate_pre_elimination_def aggregate_loop_eq method_of_def sample_manifest_def
  sample_manifest_entity_def consolidated_tbs_def deferred_entities_def accumulate_all_def
  accumulate_tb_def accumulate_line_def sample_closing_def new_trial_balance_def sample_line_def
  bt_entry_def zero_account_def add_amounts_def finalise_streaming_aggregate_def empty_aggregate_def
  sample_aggregate_def all_lines_def

lemma pre_elimination_order_independent_witness:
  "aggregate_pre_elimination sample_manifest [(''B'', sample_closing 8), (''A'', sample_closing 2)]
     = Inr sample_aggregate"
proof (rule pre_elimination_order_independent)
  show "mset [(''A'', sample_closing 2), (''B'', sample_closing 8)]
      = mset [(''B'', sample_closing 8), (''A'', sample_closing 2)]"
    by (simp add: add_mset_commute)
  show "\<forall>l \<in> set (all_lines [(''A'', sample_closing 2), (''B'', sample_closing 8)]).
      \<forall>l' \<in> set (all_lines [(''A'', sample_closing 2), (''B'', sample_closing 8)]).
        tl_account_code l = tl_account_code l' \<longrightarrow> tl_account_type l = tl_account_type l'"
    by (simp add: all_lines_def sample_closing_def sample_line_def)
  show "aggregate_pre_elimination sample_manifest [(''A'', sample_closing 2), (''B'', sample_closing 8)]
      = Inr sample_aggregate"
    by (simp add: sample_aggregate_defs Let_def)
qed

lemma sample_aggregate_wf: "totals_wf (ag_account_totals sample_aggregate)"
  by (simp add: totals_wf_def sample_aggregate_def bt_wf_def account_ok_def)

definition sample_elimination :: "(naive_date, nat, rat, unit) JournalEntry" where
  "sample_elimination =
     add_line (add_line (new_entry ((new_header (\<lambda>d. 2024) (\<lambda>d. 1) 0 [] ''G'' 364)
         \<lparr>currency := ''CHF'', is_elimination := True\<rparr>))
       (debit_line [] 1 ''2050'' 5)) (credit_line [] 2 ''1150'' 5)"


definition sample_interest :: "rat NciRollforward" where
  "sample_interest =
     \<lparr>nr_entity_code = ''B'', nr_parent_entity_code = ''A'', nr_ownership_percent = 4 / 5,
      nr_nci_percent = 1 / 5, nr_opening_nci = 0, nr_nci_share_of_profit = 3, nr_nci_share_of_oci = 0,
      nr_nci_dividends = 0, nr_equity_transaction_adjustments = 0, nr_pl_remeasurement_gain_or_loss = 0,
      nr_closing_nci = 3, nr_period_end = 364, nr_currency = ''CHF''\<rparr>"


end
