(* ===== verification/Statements.thy ===== *)
theory Statements
  imports Consolidation
begin

text \<open>
  Model of the consolidated financial statements in \<^verbatim>\<open>crates/datasynth-group/src/aggregate/fs\<close>:
  \<^verbatim>\<open>account_names.rs\<close>, \<^verbatim>\<open>balance_sheet.rs\<close>, \<^verbatim>\<open>income_statement.rs\<close>, \<^verbatim>\<open>cash_flow.rs\<close>,
  \<^verbatim>\<open>equity_changes.rs\<close> and \<^verbatim>\<open>consolidation_schedule.rs\<close>, over the consolidated trial balance. The
  builders return \<^verbatim>\<open>GroupResult\<close> but have no error path, so the model returns the statement itself.
  A chart of accounts is the list of the numbers and short descriptions of its accounts.
\<close>

section \<open>Account names\<close>

definition builtin_assets :: "(string \<times> string) list" where
  "builtin_assets =
     [(''1000'', ''Cash and cash equivalents''), (''1010'', ''Bank account''),
      (''1020'', ''Petty cash''), (''1100'', ''Trade receivables''),
      (''1150'', ''IC receivables''), (''1160'', ''Input VAT''), (''1200'', ''Inventory''),
      (''1300'', ''Prepaid expenses''), (''1410'', ''Finished goods''),
      (''1420'', ''Work in process''), (''1450'', ''Derivative asset''),
      (''1460'', ''Tax receivable''), (''1500'', ''Property, plant & equipment''),
      (''1510'', ''Accumulated depreciation''), (''1600'', ''Deferred tax asset''),
      (''1850'', ''Investment in associates / JVs''), (''1900'', ''Goodwill''),
      (''1910'', ''Customer relationships''), (''1920'', ''Trade name''),
      (''1930'', ''Technology''), (''1950'', ''Accumulated amortization'')]"

definition builtin_liabilities :: "(string \<times> string) list" where
  "builtin_liabilities =
     [(''2000'', ''Trade payables''), (''2050'', ''IC payables''),
      (''2100'', ''Sales tax payable''), (''2110'', ''VAT payable''),
      (''2130'', ''Income tax payable''), (''2160'', ''Interest payable''),
      (''2200'', ''Accrued expenses''), (''2210'', ''Accrued salaries''),
      (''2300'', ''Unearned revenue''), (''2400'', ''Short-term debt''),
      (''2450'', ''Provision liability''), (''2460'', ''Derivative liability''),
      (''2500'', ''Deferred tax liability''), (''2600'', ''Long-term debt''),
      (''2700'', ''IC payable (long-term)'')]"

definition builtin_equity :: "(string \<times> string) list" where
  "builtin_equity =
     [(''3000'', ''Common stock''), (''3100'', ''Additional paid-in capital''),
      (''3200'', ''Retained earnings (legacy)''), (''3300'', ''Retained earnings''),
      (''3500'', ''Non-controlling interest''),
      (''3510'', ''OCI '' @ [CHR 0xE2, CHR 0x80, CHR 0x94] @ '' cash flow hedge reserve'')]"

definition builtin_revenue :: "(string \<times> string) list" where
  "builtin_revenue =
     [(''4000'', ''Product revenue''), (''4010'', ''Sales discounts''),
      (''4020'', ''Sales returns and allowances''), (''4100'', ''Service revenue''),
      (''4500'', ''IC revenue''), (''4800'', ''Purchase discount income''),
      (''4850'', ''Bargain purchase gain''), (''4900'', ''Share of profit of associates'')]"

definition builtin_expenses :: "(string \<times> string) list" where
  "builtin_expenses =
     [(''5000'', ''Cost of goods sold''), (''5100'', ''Raw materials''),
      (''5200'', ''Direct labor''), (''5300'', ''Manufacturing overhead''),
      (''6000'', ''Depreciation expense''), (''6010'', ''Amortization expense''),
      (''6100'', ''Salaries and wages''), (''6200'', ''Benefits''), (''6300'', ''Rent''),
      (''6400'', ''Utilities''), (''6500'', ''Office supplies''),
      (''6600'', ''Travel and entertainment''), (''6700'', ''Professional fees''),
      (''6800'', ''Insurance''), (''6850'', ''Provision expense''),
      (''6900'', ''Bad debt expense''), (''7100'', ''Interest expense''),
      (''7400'', ''Purchase discounts''), (''7500'', ''FX gain/loss''),
      (''7510'', ''Hedge ineffectiveness''), (''8000'', ''Tax expense''),
      (''8100'', ''Deferred tax expense'')]"

definition builtin_canonical_map :: "(string \<times> string) list" where
  "builtin_canonical_map =
     bt_collect (builtin_assets @ builtin_liabilities @ builtin_equity @ builtin_revenue @ builtin_expenses)"

text \<open>A chart of accounts, as the pairs of number and short description of its accounts.\<close>

type_synonym chart = "(string \<times> string) list"

record ChartOfAccountsMaster =
  cm_primary_framework :: string
  cm_frameworks :: "(string \<times> chart) list"
  cm_coa_id :: string

type_synonym AccountNameDictionary = "(string \<times> string) list"

definition extend_with_chart :: "AccountNameDictionary \<Rightarrow> chart \<Rightarrow> AccountNameDictionary" where
  "extend_with_chart names coa = foldl (\<lambda>m (number, short). bt_insert number short m) names coa"

definition from_coa_master :: "ChartOfAccountsMaster \<Rightarrow> string \<Rightarrow> AccountNameDictionary" where
  "from_coa_master master framework =
     (case map_of (cm_frameworks master) framework of
        None \<Rightarrow> builtin_canonical_map
      | Some coa \<Rightarrow> extend_with_chart builtin_canonical_map coa)"

definition from_chart :: "chart \<Rightarrow> AccountNameDictionary" where
  "from_chart coa = extend_with_chart builtin_canonical_map coa"

definition account_label :: "AccountNameDictionary \<Rightarrow> string \<Rightarrow> string" where
  "account_label names code = (case map_of names code of None \<Rightarrow> code | Some label \<Rightarrow> label)"

section \<open>Balance sheet\<close>

datatype BsSection =
    CurrentAsset | NonCurrentAsset | CurrentLiability | NonCurrentLiability | BsEquity | BsNci | BsExcluded

record 'd BsLine =
  bl_account_code :: string
  bl_account_name :: string
  bl_amount :: 'd

record 'd ConsolidatedBalanceSheet =
  bs_group_id :: string
  bs_as_of_date :: naive_date
  bs_currency :: string
  bs_current_assets :: "'d BsLine list"
  bs_non_current_assets :: "'d BsLine list"
  bs_current_liabilities :: "'d BsLine list"
  bs_non_current_liabilities :: "'d BsLine list"
  bs_equity :: "'d BsLine list"
  bs_nci :: "'d BsLine list"
  bs_total_assets :: 'd
  bs_total_liabilities :: 'd
  bs_total_equity :: 'd
  bs_total_nci :: 'd
  bs_total_liabilities_plus_equity_plus_nci :: 'd

text \<open>\<^verbatim>\<open>code.parse::<u32>()\<close>, and whether the number lies in a range.\<close>

definition code_number :: "string \<Rightarrow> nat option" where
  "code_number code = parse_unsigned (2 ^ 32 - 1) code"

definition code_in :: "string \<Rightarrow> nat \<Rightarrow> nat \<Rightarrow> bool" where
  "code_in code lo hi \<longleftrightarrow> (case code_number code of None \<Rightarrow> False | Some n \<Rightarrow> lo \<le> n \<and> n \<le> hi)"

definition begins_with :: "char \<Rightarrow> string \<Rightarrow> bool" where
  "begins_with c code \<longleftrightarrow> (case code of [] \<Rightarrow> False | d # _ \<Rightarrow> d = c)"

definition classify_bs_section_from_account :: "string \<Rightarrow> 'd AggregatedAccount \<Rightarrow> BsSection" where
  "classify_bs_section_from_account code a =
     (if aa_account_type a = Asset \<or> aa_account_type a = ContraAsset
      then (if begins_with CHR ''0'' code \<or> code_in code 1500 1999
                \<or> begins_with CHR ''2'' code \<and> code_in code 200000 999999
            then NonCurrentAsset else CurrentAsset)
      else if aa_account_type a = Liability \<or> aa_account_type a = ContraLiability
      then (if code_in code 2300 2999 then NonCurrentLiability else CurrentLiability)
      else if aa_account_type a = Equity \<or> aa_account_type a = ContraEquity
      then (if code_in code 3500 3599 then BsNci else BsEquity)
      else BsExcluded)"

definition bs_line ::
    "AccountNameDictionary \<Rightarrow> string \<times> 'd::linordered_field AggregatedAccount \<Rightarrow> 'd BsLine" where
  "bs_line names ca =
     (let (code, a) = ca in
      \<lparr>bl_account_code = code, bl_account_name = account_label names code,
       bl_amount = (if classify_bs_section_from_account code a \<in> {CurrentAsset, NonCurrentAsset}
                    then aa_debit_total a - aa_credit_total a
                    else aa_credit_total a - aa_debit_total a)\<rparr>)"

text \<open>The vector of one section after the loop and the sort.\<close>

definition bs_section_lines ::
    "AccountNameDictionary \<Rightarrow> 'd::linordered_field AggregatedTb \<Rightarrow> BsSection \<Rightarrow> 'd BsLine list" where
  "bs_section_lines names tb sec =
     sort_key bl_account_code (map (bs_line names)
       (filter (\<lambda>(code, a). classify_bs_section_from_account code a = sec) (ag_account_totals tb)))"

definition bs_sum :: "'d::linordered_field BsLine list \<Rightarrow> 'd" where
  "bs_sum ls = foldl (\<lambda>acc l. acc + bl_amount l) 0 ls"

text \<open>An imbalance is only logged.\<close>

definition build_consolidated_balance_sheet_with_names ::
    "'d::linordered_field AggregatedTb \<Rightarrow> string \<Rightarrow> naive_date \<Rightarrow> AccountNameDictionary
     \<Rightarrow> 'd ConsolidatedBalanceSheet" where
  "build_consolidated_balance_sheet_with_names tb group_id as_of names =
     (let current_assets = bs_section_lines names tb CurrentAsset;
          non_current_assets = bs_section_lines names tb NonCurrentAsset;
          current_liabilities = bs_section_lines names tb CurrentLiability;
          non_current_liabilities = bs_section_lines names tb NonCurrentLiability;
          equity = bs_section_lines names tb BsEquity;
          nci = bs_section_lines names tb BsNci;
          total_assets = bs_sum current_assets + bs_sum non_current_assets;
          total_liabilities = bs_sum current_liabilities + bs_sum non_current_liabilities;
          total_equity = bs_sum equity;
          total_nci = bs_sum nci
      in \<lparr>bs_group_id = group_id, bs_as_of_date = as_of, bs_currency = ag_currency tb,
          bs_current_assets = current_assets, bs_non_current_assets = non_current_assets,
          bs_current_liabilities = current_liabilities,
          bs_non_current_liabilities = non_current_liabilities, bs_equity = equity, bs_nci = nci,
          bs_total_assets = total_assets, bs_total_liabilities = total_liabilities,
          bs_total_equity = total_equity, bs_total_nci = total_nci,
          bs_total_liabilities_plus_equity_plus_nci = total_liabilities + total_equity + total_nci\<rparr>)"

definition build_consolidated_balance_sheet ::
    "'d::linordered_field AggregatedTb \<Rightarrow> string \<Rightarrow> naive_date \<Rightarrow> 'd ConsolidatedBalanceSheet" where
  "build_consolidated_balance_sheet tb group_id as_of =
     build_consolidated_balance_sheet_with_names tb group_id as_of builtin_canonical_map"

section \<open>Income statement\<close>

datatype IsSection = IsRevenue | IsCogs | IsOpex | IsOther | IsTax | IsExcluded

record 'd IsLine =
  il_account_code :: string
  il_account_name :: string
  il_amount :: 'd

record 'd ConsolidatedIncomeStatement =
  is_group_id :: string
  is_period_end :: naive_date
  is_currency :: string
  is_revenue :: "'d IsLine list"
  is_cost_of_goods_sold :: "'d IsLine list"
  is_gross_profit :: 'd
  is_operating_expenses :: "'d IsLine list"
  is_operating_income :: 'd
  is_other_income_expense :: "'d IsLine list"
  is_net_income_before_tax :: 'd
  is_tax_expense :: 'd
  is_net_income :: 'd
  is_net_income_to_owners :: 'd
  is_net_income_to_nci :: 'd

definition classify_is_section :: "string \<Rightarrow> IsSection" where
  "classify_is_section code =
     (if code_in code 4000 4499 then IsRevenue
      else if code_in code 4500 4999 then IsOther
      else if code_in code 5000 5099 then IsCogs
      else if code_in code 5100 6999 then IsOpex
      else if code_in code 7000 7999 then IsOther
      else if code_in code 8000 8499 then IsTax
      else IsExcluded)"

definition is_line ::
    "AccountNameDictionary \<Rightarrow> string \<times> 'd::linordered_field AggregatedAccount \<Rightarrow> 'd IsLine" where
  "is_line names ca =
     (let (code, a) = ca in
      \<lparr>il_account_code = code, il_account_name = account_label names code,
       il_amount = (if classify_is_section code \<in> {IsCogs, IsOpex, IsTax}
                    then aa_debit_total a - aa_credit_total a
                    else aa_credit_total a - aa_debit_total a)\<rparr>)"

definition is_pushed ::
    "AccountNameDictionary \<Rightarrow> 'd::linordered_field AggregatedTb \<Rightarrow> IsSection \<Rightarrow> 'd IsLine list" where
  "is_pushed names tb sec =
     map (is_line names) (filter (\<lambda>(code, a). classify_is_section code = sec) (ag_account_totals tb))"

definition is_sum :: "'d::linordered_field IsLine list \<Rightarrow> 'd" where
  "is_sum ls = foldl (\<lambda>acc l. acc + il_amount l) 0 ls"

definition build_consolidated_income_statement_with_names ::
    "'d::linordered_field AggregatedTb \<Rightarrow> 'd NciRollforward list \<Rightarrow> string \<Rightarrow> naive_date
     \<Rightarrow> AccountNameDictionary \<Rightarrow> 'd ConsolidatedIncomeStatement" where
  "build_consolidated_income_statement_with_names tb ncis group_id p_end names =
     (let revenue = sort_key il_account_code (is_pushed names tb IsRevenue);
          cogs = sort_key il_account_code (is_pushed names tb IsCogs);
          opex = sort_key il_account_code (is_pushed names tb IsOpex);
          other = sort_key il_account_code (is_pushed names tb IsOther);
          tax_total = is_sum (is_pushed names tb IsTax);
          gross_profit = is_sum revenue - is_sum cogs;
          operating_income = gross_profit - is_sum opex;
          before_tax = operating_income + is_sum other;
          net_inc = before_tax - tax_total;
          to_nci = foldl (\<lambda>acc rf. acc + nr_nci_share_of_profit rf) 0 ncis
      in \<lparr>is_group_id = group_id, is_period_end = p_end, is_currency = ag_currency tb,
          is_revenue = revenue, is_cost_of_goods_sold = cogs, is_gross_profit = gross_profit,
          is_operating_expenses = opex, is_operating_income = operating_income,
          is_other_income_expense = other, is_net_income_before_tax = before_tax,
          is_tax_expense = tax_total, is_net_income = net_inc,
          is_net_income_to_owners = net_inc - to_nci, is_net_income_to_nci = to_nci\<rparr>)"

definition build_consolidated_income_statement ::
    "'d::linordered_field AggregatedTb \<Rightarrow> 'd NciRollforward list \<Rightarrow> string \<Rightarrow> naive_date
     \<Rightarrow> 'd ConsolidatedIncomeStatement" where
  "build_consolidated_income_statement tb ncis group_id p_end =
     build_consolidated_income_statement_with_names tb ncis group_id p_end builtin_canonical_map"

section \<open>Cash flow statement\<close>

record 'd CfLine =
  cl_label :: string
  cl_amount :: 'd

record 'd CfSection =
  cs_lines :: "'d CfLine list"
  cs_subtotal :: 'd

record 'd ConsolidatedCashFlow =
  cf_group_id :: string
  cf_period_start :: naive_date
  cf_period_end :: naive_date
  cf_currency :: string
  cf_operating :: "'d CfSection"
  cf_investing :: "'d CfSection"
  cf_financing :: "'d CfSection"
  cf_opening_cash :: 'd
  cf_closing_cash :: 'd
  cf_net_change_in_cash :: 'd
  cf_fx_effect_on_cash :: 'd

record 'd CashFlowInputs =
  ci_post_elim_tb_current :: "'d AggregatedTb"
  ci_post_elim_tb_prior :: "'d AggregatedTb option"
  ci_net_income :: 'd
  ci_depreciation_amortization :: 'd
  ci_impairment :: 'd
  ci_capex :: 'd
  ci_debt_issuance :: 'd
  ci_debt_repayment :: 'd
  ci_dividends_paid_to_owners :: 'd
  ci_dividends_paid_to_nci :: 'd
  ci_equity_issuance :: 'd

text \<open>A line that is pushed unless its amount is zero.\<close>

definition cf_optional :: "string \<Rightarrow> 'd::linordered_field \<Rightarrow> 'd \<Rightarrow> 'd CfLine list" where
  "cf_optional name test amount = (if test \<noteq> 0 then [\<lparr>cl_label = name, cl_amount = amount\<rparr>] else [])"

definition sum_lines :: "'d::linordered_field CfLine list \<Rightarrow> 'd" where
  "sum_lines ls = foldl (\<lambda>acc l. acc + cl_amount l) 0 ls"

definition is_cash :: "string \<Rightarrow> bool" where
  "is_cash code \<longleftrightarrow> code_in code 1000 1099"

definition sum_cash :: "'d::linordered_field AggregatedTb \<Rightarrow> 'd" where
  "sum_cash tb =
     foldl (\<lambda>acc (code, a). acc + (aa_debit_total a - aa_credit_total a)) 0
       (filter (\<lambda>(code, a). is_cash code) (ag_account_totals tb))"

definition sum_natural_balance :: "'d::linordered_field AggregatedTb \<Rightarrow> string \<Rightarrow> 'd" where
  "sum_natural_balance tb code =
     (case map_of (ag_account_totals tb) code of
        None \<Rightarrow> 0 | Some a \<Rightarrow> aa_debit_total a - aa_credit_total a)"

definition sum_natural_balance_credit :: "'d::linordered_field AggregatedTb \<Rightarrow> string \<Rightarrow> 'd" where
  "sum_natural_balance_credit tb code =
     (case map_of (ag_account_totals tb) code of
        None \<Rightarrow> 0 | Some a \<Rightarrow> aa_credit_total a - aa_debit_total a)"

text \<open>The changes of receivables, payables and inventory.\<close>

definition working_capital_changes ::
    "'d::linordered_field AggregatedTb \<Rightarrow> 'd AggregatedTb option \<Rightarrow> 'd \<times> 'd \<times> 'd" where
  "working_capital_changes current prior =
     (case prior of
        None \<Rightarrow> (0, 0, 0)
      | Some p \<Rightarrow>
          (sum_natural_balance current ''1100'' - sum_natural_balance p ''1100'',
           sum_natural_balance_credit current ''2000'' - sum_natural_balance_credit p ''2000'',
           sum_natural_balance current ''1200'' - sum_natural_balance p ''1200''))"

definition build_consolidated_cash_flow ::
    "'d::linordered_field CashFlowInputs \<Rightarrow> string \<Rightarrow> naive_date \<Rightarrow> naive_date \<Rightarrow> 'd ConsolidatedCashFlow" where
  "build_consolidated_cash_flow i group_id p_start p_end =
     (let (delta_ar, delta_ap, delta_inventory) =
            working_capital_changes (ci_post_elim_tb_current i) (ci_post_elim_tb_prior i);
          operating =
            [\<lparr>cl_label = ''Net income'', cl_amount = ci_net_income i\<rparr>]
            @ cf_optional ''Depreciation and amortization'' (ci_depreciation_amortization i)
                (ci_depreciation_amortization i)
            @ cf_optional ''Impairment'' (ci_impairment i) (ci_impairment i)
            @ cf_optional ''Change in trade receivables'' delta_ar (- delta_ar)
            @ cf_optional ''Change in inventory'' delta_inventory (- delta_inventory)
            @ cf_optional ''Change in trade payables'' delta_ap delta_ap;
          investing = cf_optional ''Capital expenditure'' (ci_capex i) (- ci_capex i);
          financing =
            cf_optional ''Debt issuance'' (ci_debt_issuance i) (ci_debt_issuance i)
            @ cf_optional ''Debt repayment'' (ci_debt_repayment i) (- ci_debt_repayment i)
            @ cf_optional ''Equity issuance'' (ci_equity_issuance i) (ci_equity_issuance i)
            @ cf_optional ''Dividends paid to owners'' (ci_dividends_paid_to_owners i)
                (- ci_dividends_paid_to_owners i)
            @ cf_optional ''Dividends paid to non-controlling interest'' (ci_dividends_paid_to_nci i)
                (- ci_dividends_paid_to_nci i);
          opening_cash = (case ci_post_elim_tb_prior i of Some p \<Rightarrow> sum_cash p | None \<Rightarrow> 0);
          closing_cash = sum_cash (ci_post_elim_tb_current i);
          net_change = sum_lines operating + sum_lines investing + sum_lines financing
      in \<lparr>cf_group_id = group_id, cf_period_start = p_start, cf_period_end = p_end,
          cf_currency = ag_currency (ci_post_elim_tb_current i),
          cf_operating = \<lparr>cs_lines = operating, cs_subtotal = sum_lines operating\<rparr>,
          cf_investing = \<lparr>cs_lines = investing, cs_subtotal = sum_lines investing\<rparr>,
          cf_financing = \<lparr>cs_lines = financing, cs_subtotal = sum_lines financing\<rparr>,
          cf_opening_cash = opening_cash, cf_closing_cash = closing_cash,
          cf_net_change_in_cash = net_change,
          cf_fx_effect_on_cash = closing_cash - opening_cash - net_change\<rparr>)"

section \<open>Changes in equity\<close>

record 'd EquityRollforward =
  er_opening :: 'd
  er_net_income :: 'd
  er_oci :: 'd
  er_dividends :: 'd
  er_other :: 'd
  er_closing :: 'd

record 'd StatementOfChangesInEquity =
  sc_group_id :: string
  sc_period_start :: naive_date
  sc_period_end :: naive_date
  sc_currency :: string
  sc_owners_equity :: "'d EquityRollforward"
  sc_nci :: "'d EquityRollforward"
  sc_total_equity :: "'d EquityRollforward"

record 'd EquityChangesInputs =
  ec_opening_owners_equity :: 'd
  ec_opening_nci :: 'd
  ec_net_income_to_owners :: 'd
  ec_net_income_to_nci :: 'd
  ec_oci_to_owners :: 'd
  ec_oci_to_nci :: 'd
  ec_dividends_to_owners :: 'd
  ec_dividends_to_nci :: 'd
  ec_other_owners :: 'd
  ec_other_nci :: 'd

definition rollforward ::
    "'d::linordered_field \<Rightarrow> 'd \<Rightarrow> 'd \<Rightarrow> 'd \<Rightarrow> 'd \<Rightarrow> 'd EquityRollforward" where
  "rollforward op inc oci divs oth =
     \<lparr>er_opening = op, er_net_income = inc, er_oci = oci, er_dividends = divs, er_other = oth,
      er_closing = op + inc + oci - divs + oth\<rparr>"

definition build_statement_of_changes_in_equity ::
    "'d::linordered_field EquityChangesInputs \<Rightarrow> string \<Rightarrow> naive_date \<Rightarrow> naive_date \<Rightarrow> string
     \<Rightarrow> 'd StatementOfChangesInEquity" where
  "build_statement_of_changes_in_equity i group_id p_start p_end cur =
     (let owners = rollforward (ec_opening_owners_equity i) (ec_net_income_to_owners i)
                     (ec_oci_to_owners i) (ec_dividends_to_owners i) (ec_other_owners i);
          nci = rollforward (ec_opening_nci i) (ec_net_income_to_nci i) (ec_oci_to_nci i)
                  (ec_dividends_to_nci i) (ec_other_nci i)
      in \<lparr>sc_group_id = group_id, sc_period_start = p_start, sc_period_end = p_end, sc_currency = cur,
          sc_owners_equity = owners, sc_nci = nci,
          sc_total_equity =
            \<lparr>er_opening = er_opening owners + er_opening nci,
             er_net_income = er_net_income owners + er_net_income nci,
             er_oci = er_oci owners + er_oci nci, er_dividends = er_dividends owners + er_dividends nci,
             er_other = er_other owners + er_other nci,
             er_closing = er_closing owners + er_closing nci\<rparr>\<rparr>)"

section \<open>Consolidation schedule\<close>

record 'd ScheduleLine =
  sl_account_category :: string
  sl_account_code :: string
  sl_entity_amounts :: "(string \<times> 'd) list"
  sl_pre_elimination_total :: 'd
  sl_elimination_adjustments :: 'd
  sl_post_elimination_total :: 'd

record 'd ConsolidationSchedule =
  cd_group_id :: string
  cd_as_of_date :: naive_date
  cd_currency :: string
  cd_lines :: "'d ScheduleLine list"

type_synonym 'd contributions = "(string \<times> (string \<times> 'd) list) list"

definition account_category_label :: "string \<Rightarrow> string" where
  "account_category_label code =
     (if code_in code 1000 1999 then ''Asset''
      else if code_in code 2000 2999 then ''Liability''
      else if code_in code 3000 3999 then ''Equity''
      else if code_in code 4000 4999 then ''Revenue''
      else if code_in code 5000 6999 then ''Expense''
      else if code_in code 7000 7999 then ''Other Income/Expense''
      else if code_in code 8000 8999 then ''Tax''
      else if code_in code 9000 9999 then ''Suspense''
      else ''Other'')"

text \<open>One line of an entity: \<^verbatim>\<open>insert\<close> replaces an earlier amount of the entity on the account.\<close>

definition contribute_line ::
    "string \<Rightarrow> 'd::linordered_field contributions \<Rightarrow> 'd TrialBalanceLine \<Rightarrow> 'd contributions" where
  "contribute_line entity m l =
     bt_entry (tl_account_code l) [] (bt_insert entity (tl_debit_balance l - tl_credit_balance l)) m"

definition contribute_tb ::
    "'d::linordered_field contributions \<Rightarrow> string \<times> (naive_date, 'ts, 'd) TrialBalance \<Rightarrow> 'd contributions" where
  "contribute_tb m ctb = foldl (contribute_line (fst ctb)) m (tb_lines (snd ctb))"

definition schedule_line ::
    "'d::linordered_field AggregatedTb \<Rightarrow> 'd AggregatedTb \<Rightarrow> 'd contributions \<Rightarrow> string \<Rightarrow> 'd ScheduleLine" where
  "schedule_line pre post contribs code =
     (let p = (case map_of (ag_account_totals pre) code of None \<Rightarrow> 0 | Some a \<Rightarrow> aa_net_balance a);
          q = (case map_of (ag_account_totals post) code of None \<Rightarrow> 0 | Some a \<Rightarrow> aa_net_balance a)
      in \<lparr>sl_account_category = account_category_label code, sl_account_code = code,
          sl_entity_amounts = get_or_empty contribs code, sl_pre_elimination_total = p,
          sl_elimination_adjustments = q - p, sl_post_elimination_total = q\<rparr>)"

definition build_consolidation_schedule_with_contributions ::
    "'d::linordered_field AggregatedTb \<Rightarrow> 'd AggregatedTb \<Rightarrow> 'd contributions \<Rightarrow> string \<Rightarrow> naive_date
     \<Rightarrow> 'd ConsolidationSchedule" where
  "build_consolidation_schedule_with_contributions pre post contribs group_id as_of =
     \<lparr>cd_group_id = group_id, cd_as_of_date = as_of, cd_currency = ag_currency pre,
      cd_lines = sort_key sl_account_code (map (schedule_line pre post contribs)
        (remdups (sort (map fst (ag_account_totals pre) @ map fst (ag_account_totals post)))))\<rparr>"

definition build_consolidation_schedule ::
    "'d::linordered_field AggregatedTb \<Rightarrow> 'd AggregatedTb \<Rightarrow> (string \<times> (naive_date, 'ts, 'd) TrialBalance) list
     \<Rightarrow> string \<Rightarrow> naive_date \<Rightarrow> 'd ConsolidationSchedule" where
  "build_consolidation_schedule pre post entity_tbs group_id as_of =
     build_consolidation_schedule_with_contributions pre post (foldl contribute_tb [] entity_tbs)
       group_id as_of"

section \<open>Sums of sections\<close>

text \<open>The credit balance of a list of accounts.\<close>

definition net_credit :: "(string \<times> 'd::linordered_field AggregatedAccount) list \<Rightarrow> 'd" where
  "net_credit m = sum_list (map (\<lambda>(code, a). aa_credit_total a - aa_debit_total a) m)"

lemma net_credit_simps [simp]:
  "net_credit [] = 0"
  "net_credit ((k, a) # m) = aa_credit_total a - aa_debit_total a + net_credit m"
  by (simp_all add: net_credit_def)

definition income_typed :: "string \<times> 'd AggregatedAccount \<Rightarrow> bool" where
  "income_typed ca \<longleftrightarrow> aa_account_type (snd ca) \<in> {Revenue, Expense}"

definition income_coded :: "string \<times> 'd AggregatedAccount \<Rightarrow> bool" where
  "income_coded ca \<longleftrightarrow> classify_is_section (fst ca) \<noteq> IsExcluded"

lemma bs_sum_eq: "bs_sum ls = sum_list (map bl_amount ls)"
  by (simp add: bs_sum_def fold_sum)

lemma is_sum_eq: "is_sum ls = sum_list (map il_amount ls)"
  by (simp add: is_sum_def fold_sum)

lemma sum_lines_eq: "sum_lines ls = sum_list (map cl_amount ls)"
  by (simp add: sum_lines_def fold_sum)

lemma sorted_sums [simp]:
  "bs_sum (sort_key f ls) = bs_sum ls" "is_sum (sort_key g ls') = is_sum ls'"
  by (simp_all add: bs_sum_eq is_sum_eq sum_list_sort_key)

lemma excluded_iff: "classify_bs_section_from_account k a = BsExcluded \<longleftrightarrow> income_typed (k, a)"
  by (cases "aa_account_type a") (simp_all add: classify_bs_section_from_account_def income_typed_def)

definition bs_part :: "AccountNameDictionary \<Rightarrow> (string \<times> 'd::linordered_field AggregatedAccount) list \<Rightarrow> BsSection \<Rightarrow> 'd" where
  "bs_part names m sec =
     bs_sum (map (bs_line names) (filter (\<lambda>(code, a). classify_bs_section_from_account code a = sec) m))"

lemma bs_part_simps [simp]:
  "bs_part names [] sec = 0"
  "bs_part names ((k, a) # m) sec =
     (if classify_bs_section_from_account k a = sec
      then (if sec \<in> {CurrentAsset, NonCurrentAsset} then aa_debit_total a - aa_credit_total a
            else aa_credit_total a - aa_debit_total a)
      else 0) + bs_part names m sec"
  by (simp_all add: bs_part_def bs_sum_eq bs_line_def)

lemma bs_parts_sum:
  "bs_part names m CurrentAsset + bs_part names m NonCurrentAsset
     - (bs_part names m CurrentLiability + bs_part names m NonCurrentLiability
        + bs_part names m BsEquity + bs_part names m BsNci)
   = net_credit (filter income_typed m) - net_credit m"
proof (induction m)
  case (Cons ca m)
  obtain k a where ca: "ca = (k, a)" by force
  show ?case
    using Cons excluded_iff[of k a]
    by (cases "classify_bs_section_from_account k a") (simp_all add: ca algebra_simps)
qed simp

lemma totals_net: "fst (recompute_totals tb) - snd (recompute_totals tb) = - net_credit (ag_account_totals tb)"
proof -
  have "bt_sum aa_debit_total m - bt_sum aa_credit_total m = - net_credit m" for m :: "(string \<times> 'a AggregatedAccount) list"
    by (induction m) (auto simp: bt_sum_def)
  then show ?thesis by (simp add: recompute_totals_def)
qed

lemma balance_sheet_sums:
  fixes tb :: "'d::linordered_field AggregatedTb"
  assumes "bs = build_consolidated_balance_sheet_with_names tb g dt names"
  shows "bs_total_assets bs = bs_part names (ag_account_totals tb) CurrentAsset
           + bs_part names (ag_account_totals tb) NonCurrentAsset"
    and "bs_total_liabilities bs = bs_part names (ag_account_totals tb) CurrentLiability
           + bs_part names (ag_account_totals tb) NonCurrentLiability"
    and "bs_total_equity bs = bs_part names (ag_account_totals tb) BsEquity"
    and "bs_total_nci bs = bs_part names (ag_account_totals tb) BsNci"
    and "bs_total_liabilities_plus_equity_plus_nci bs =
           bs_total_liabilities bs + bs_total_equity bs + bs_total_nci bs"
  by (simp_all add: assms build_consolidated_balance_sheet_with_names_def Let_def bs_section_lines_def bs_part_def)

lemma balance_sheet_gap:
  assumes "bs = build_consolidated_balance_sheet_with_names tb g dt names"
  shows "bs_total_assets bs - bs_total_liabilities_plus_equity_plus_nci bs =
     fst (recompute_totals tb) - snd (recompute_totals tb) + net_credit (filter income_typed (ag_account_totals tb))"
  using bs_parts_sum[of names "ag_account_totals tb"]
  by (simp add: balance_sheet_sums[OF assms] totals_net)

definition is_part :: "AccountNameDictionary \<Rightarrow> (string \<times> 'd::linordered_field AggregatedAccount) list \<Rightarrow> IsSection \<Rightarrow> 'd" where
  "is_part names m sec = is_sum (map (is_line names) (filter (\<lambda>(code, a). classify_is_section code = sec) m))"

lemma is_part_simps [simp]:
  "is_part names [] sec = 0"
  "is_part names ((k, a) # m) sec =
     (if classify_is_section k = sec
      then (if sec \<in> {IsCogs, IsOpex, IsTax} then aa_debit_total a - aa_credit_total a
            else aa_credit_total a - aa_debit_total a)
      else 0) + is_part names m sec"
  by (simp_all add: is_part_def is_sum_eq is_line_def)

lemma is_parts_sum:
  "is_part names m IsRevenue - is_part names m IsCogs - is_part names m IsOpex + is_part names m IsOther
     - is_part names m IsTax = net_credit (filter income_coded m)"
proof (induction m)
  case (Cons ca m)
  obtain k a where ca: "ca = (k, a)" by force
  show ?case
    using Cons by (cases "classify_is_section k") (simp_all add: ca income_coded_def algebra_simps)
qed simp

lemma net_income_eq:
  "is_net_income (build_consolidated_income_statement_with_names tb ncis g dt names) =
     net_credit (filter income_coded (ag_account_totals tb))"
  using is_parts_sum[of names "ag_account_totals tb"]
  by (simp add: build_consolidated_income_statement_with_names_def Let_def is_pushed_def is_part_def)

definition bs_sections :: "'d ConsolidatedBalanceSheet \<Rightarrow> 'd BsLine list list" where
  "bs_sections bs =
     [bs_current_assets bs, bs_non_current_assets bs, bs_current_liabilities bs,
      bs_non_current_liabilities bs, bs_equity bs, bs_nci bs]"

lemma bs_line_codes: "map bl_account_code (map (bs_line names) m) = map fst m"
  by (induction m) (auto simp: bs_line_def)

lemma section_codes:
  "mset (map bl_account_code (bs_section_lines names tb sec)) =
     mset (map fst (filter (\<lambda>(code, a). classify_bs_section_from_account code a = sec) (ag_account_totals tb)))"
proof -
  have "mset (map f (sort_key f ls)) = mset (map f ls)" for f :: "'a BsLine \<Rightarrow> string" and ls
    by simp
  then show ?thesis by (simp only: bs_section_lines_def bs_line_codes)
qed

lemma sections_cover:
  "mset (map bl_account_code (concat (bs_sections (build_consolidated_balance_sheet_with_names tb g dt names)))) =
     mset (map fst (filter (\<lambda>ca. \<not> income_typed ca) (ag_account_totals tb)))"
proof -
  define cls where "cls = (\<lambda>(code, a :: 'a AggregatedAccount). classify_bs_section_from_account code a)"
  have part: "(\<lambda>(code, a). classify_bs_section_from_account code a = sec) = (\<lambda>ca. cls ca = sec)" for sec
    by (auto simp: cls_def fun_eq_iff)
  have "mset (map fst (filter (\<lambda>ca. \<not> income_typed ca) m)) =
      (\<Sum>sec\<leftarrow>[CurrentAsset, NonCurrentAsset, CurrentLiability, NonCurrentLiability, BsEquity, BsNci].
         mset (map fst (filter (\<lambda>ca. cls ca = sec) m)))" for m
  proof (induction m)
    case (Cons ca m)
    then show ?case using excluded_iff[of "fst ca" "snd ca"]
      by (cases "cls ca") (simp_all add: cls_def split_beta)
  qed simp
  then show ?thesis
    by (simp add: build_consolidated_balance_sheet_with_names_def bs_sections_def Let_def section_codes part
        del: mset_map)
qed

section \<open>Properties\<close>

text \<open>C20. The consolidated balance sheet lists every account that is not a revenue or expense account
  exactly once, each section in the order of the codes, and assets differ from liabilities, equity
  and minority interests by the imbalance of the trial balance plus the balance of the income
  accounts: the sheet of a balanced trial balance is out by the profit that was not closed to equity.\<close>

theorem balance_sheet_exact:
  "let bs = build_consolidated_balance_sheet_with_names tb group_id as_of names
   in mset (map bl_account_code (concat (bs_sections bs)))
        = mset (map fst (filter (\<lambda>ca. \<not> income_typed ca) (ag_account_totals tb)))
      \<and> list_all (\<lambda>ls. sorted (map bl_account_code ls)) (bs_sections bs)
      \<and> bs_total_assets bs - bs_total_liabilities_plus_equity_plus_nci bs
          = fst (recompute_totals tb) - snd (recompute_totals tb)
            + net_credit (filter income_typed (ag_account_totals tb))"
  unfolding Let_def
  by (simp add: sections_cover balance_sheet_gap del: mset_map map_concat)
    (simp add: bs_sections_def build_consolidated_balance_sheet_with_names_def Let_def bs_section_lines_def)

lemma income_split:
  assumes "inc = build_consolidated_income_statement_with_names tb ncis g dt names"
  shows "is_net_income inc = is_net_income_to_owners inc + is_net_income_to_nci inc"
    and "is_net_income_to_nci inc = sum_list (map nr_nci_share_of_profit ncis)"
  by (simp_all add: assms build_consolidated_income_statement_with_names_def Let_def fold_sum)


text \<open>Opening cash, the net change and the exchange effect always add up to closing cash, because
  the effect is their difference, and the net change is net income with the adjustments, less
  the rise of receivables and inventory, plus that of payables, and the flows of investing and
  financing.\<close>

theorem cash_flow_bridge:
  "let cf = build_consolidated_cash_flow i group_id p_start p_end;
       (ar, ap, inventory) = working_capital_changes (ci_post_elim_tb_current i) (ci_post_elim_tb_prior i)
   in cf_closing_cash cf = cf_opening_cash cf + cf_net_change_in_cash cf + cf_fx_effect_on_cash cf
      \<and> cf_net_change_in_cash cf =
          ci_net_income i + ci_depreciation_amortization i + ci_impairment i - ar - inventory + ap
          - ci_capex i
          + ci_debt_issuance i - ci_debt_repayment i + ci_equity_issuance i
          - ci_dividends_paid_to_owners i - ci_dividends_paid_to_nci i
      \<and> list_all (\<lambda>s. cs_subtotal s = sum_list (map cl_amount (cs_lines s)))
          [cf_operating cf, cf_investing cf, cf_financing cf]"
proof -
  have optional: "sum_list (map cl_amount (cf_optional name x x)) = x"
      "sum_list (map cl_amount (cf_optional name x (- x))) = - x" for name :: string and x :: 'a
    by (simp_all add: cf_optional_def)
  obtain ar ap inventory where
    w: "working_capital_changes (ci_post_elim_tb_current i) (ci_post_elim_tb_prior i) = (ar, ap, inventory)"
    by (cases "working_capital_changes (ci_post_elim_tb_current i) (ci_post_elim_tb_prior i)")
  show ?thesis
    by (simp add: build_consolidated_cash_flow_def Let_def sum_lines_eq optional w)
qed

text \<open>The total column of the changes in equity rolls forward as the two columns do.\<close>

lemma equity_total_rolls_forward:
  "let t = sc_total_equity (build_statement_of_changes_in_equity i group_id p_start p_end cur)
   in er_closing t = er_opening t + er_net_income t + er_oci t - er_dividends t + er_other t"
  by (simp add: build_statement_of_changes_in_equity_def rollforward_def Let_def)

lemma extended_label:
  "map_of (extend_with_chart names coa) code =
     (case map_of (rev coa) code of None \<Rightarrow> map_of names code | Some label \<Rightarrow> Some label)"
proof -
  have "map_of (foldl (\<lambda>m (number, short). bt_insert number short m) names coa) =
      map_of names ++ map_of (rev coa)"
    by (induction coa arbitrary: names) (auto simp: map_add_def fun_eq_iff split: option.split)
  then show ?thesis by (simp add: extend_with_chart_def map_add_def)
qed

text \<open>The label of the engagement's chart wins, then the built-in one, then the code.\<close>

lemma account_label_priority:
  "account_label (from_coa_master master framework) code =
     (case Option.bind (map_of (cm_frameworks master) framework) (\<lambda>coa. map_of (rev coa) code) of
        Some label \<Rightarrow> label
      | None \<Rightarrow> account_label builtin_canonical_map code)"
  by (auto simp: account_label_def from_coa_master_def extended_label split: option.split)

section \<open>Postings and the sections of the balance sheet\<close>

text \<open>The section in which an account is shown, or would be once it is posted to.\<close>

definition section_at :: "'d::linordered_field AggregatedTb \<Rightarrow> string \<Rightarrow> BsSection" where
  "section_at agg code =
     classify_bs_section_from_account code
       (case map_of (ag_account_totals agg) code of None \<Rightarrow> zero_account code Asset | Some a \<Rightarrow> a)"

definition section_amount :: "BsSection \<Rightarrow> 'd::linordered_field AggregatedAccount \<Rightarrow> 'd" where
  "section_amount sec a =
     (if classify_bs_section_from_account (aa_account_code a) a = sec
      then (if sec \<in> {CurrentAsset, NonCurrentAsset} then aa_debit_total a - aa_credit_total a
            else aa_credit_total a - aa_debit_total a)
      else 0)"

lemma bs_part_sum:
  assumes "totals_wf m"
  shows "bs_part names m sec = bt_sum (section_amount sec) m"
proof -
  have "\<forall>(k, a) \<in> set m. aa_account_code a = k"
    using assms bt_wf_distinct by (fastforce simp: totals_wf_def account_ok_def)
  then show ?thesis
    by (induction m) (auto simp: bt_sum_def section_amount_def)
qed

lemma section_amount_posted:
  assumes "aa_account_code a = code"
  shows "section_amount sec (add_amounts d c a) = section_amount sec a
     + (if classify_bs_section_from_account code a = sec
        then (if sec \<in> {CurrentAsset, NonCurrentAsset} then d - c else c - d) else 0)"
  using assms by (simp add: section_amount_def classify_bs_section_from_account_def)

lemma section_at_posting [simp]: "section_at (apply_posting agg p) = section_at agg"
  by (auto simp: fun_eq_iff section_at_def apply_posting_def apply_line_to_account_def map_of_bt_entry
      classify_bs_section_from_account_def split: option.split)

definition section_net :: "(string \<Rightarrow> BsSection) \<Rightarrow> BsSection \<Rightarrow> (string \<times> 'd \<times> 'd::linordered_field) list \<Rightarrow> 'd" where
  "section_net sec_of sec ps =
     sum_list (map (\<lambda>(k, d, c). if sec_of k = sec
        then (if sec \<in> {CurrentAsset, NonCurrentAsset} then d - c else c - d) else 0) ps)"

lemma section_net_simps [simp]:
  "section_net sec_of sec [] = 0"
  "section_net sec_of sec (ps @ qs) = section_net sec_of sec ps + section_net sec_of sec qs"
  "section_net sec_of sec (concat pss) = sum_list (map (section_net sec_of sec) pss)"
  by (simp_all add: section_net_def) (induction pss, simp_all add: section_net_def)

lemma section_net_Cons:
  "section_net sec_of sec (p # ps) = section_net sec_of sec [p] + section_net sec_of sec ps"
  by (simp add: section_net_def)

lemma bs_part_posting:
  assumes "totals_wf (ag_account_totals agg)"
  shows "bs_part names (ag_account_totals (apply_posting agg p)) sec =
           bs_part names (ag_account_totals agg) sec + section_net (section_at agg) sec [p]"
proof -
  obtain k d c where p: "p = (k, d, c)" by (cases p)
  let ?a = "case map_of (ag_account_totals agg) k of None \<Rightarrow> zero_account k Asset | Some a \<Rightarrow> a"
  have "aa_account_code ?a = k"
    using assms by (auto simp: totals_wf_def account_ok_def split: option.split)
  moreover have "section_amount sec (zero_account k Asset) = (0 :: 'a)"
    by (simp add: section_amount_def)
  ultimately have "bt_sum (section_amount sec) (ag_account_totals (apply_posting agg p)) =
      bt_sum (section_amount sec) (ag_account_totals agg) + section_net (section_at agg) sec [p]"
    using assms
    by (simp add: p apply_posting_def apply_line_to_account_def bt_sum_entry section_amount_posted
        section_net_def section_at_def totals_wf_def)
  then show ?thesis using assms by (simp add: bs_part_sum)
qed

lemma bs_part_postings:
  assumes "totals_wf (ag_account_totals agg)"
  shows "bs_part names (ag_account_totals (foldl apply_posting agg ps)) sec =
           bs_part names (ag_account_totals agg) sec + section_net (section_at agg) sec ps"
  using assms
proof (induction ps arbitrary: agg)
  case (Cons p ps)
  then show ?case
    using bs_part_posting[OF Cons.prems, where p = p and names = names and sec = sec]
      section_net_Cons[where p = p and ps = ps and sec_of = "section_at agg" and sec = sec]
    by simp
qed simp


section \<open>The schedule reconciles\<close>

lemma key_sum_none: "k \<notin> key ` set ls \<Longrightarrow> key_sum key amount ls k = 0"
  by (induction ls) auto

lemma contribute_lines:
  assumes "distinct (map tl_account_code ls)"
  shows "get_or_empty (foldl (contribute_line e) m ls) code =
     (if code \<in> tl_account_code ` set ls
      then bt_insert e (key_sum tl_account_code tl_net_balance ls code) (get_or_empty m code)
      else get_or_empty m code)"
  using assms
proof (induction ls arbitrary: m)
  case (Cons l ls)
  have step: "get_or_empty (contribute_line e m l) code =
      (if code = tl_account_code l then bt_insert e (tl_net_balance l) (get_or_empty m code)
       else get_or_empty m code)" for code
    by (auto simp: contribute_line_def get_or_empty_def map_of_bt_entry tl_net_balance_def split: option.split)
  have "tl_account_code l \<notin> tl_account_code ` set ls" using Cons.prems by auto
  moreover from this have "key_sum tl_account_code tl_net_balance ls (tl_account_code l) = 0"
    by (rule key_sum_none)
  ultimately show ?case using Cons by (auto simp: step)
qed simp

definition contribution_ok :: "'d::linordered_field contributions \<Rightarrow> bool" where
  "contribution_ok m \<longleftrightarrow> (\<forall>code. bt_wf (get_or_empty m code))"

lemma contributions_sum:
  fixes tbs :: "(string \<times> (naive_date, 'ts, 'd::linordered_field) TrialBalance) list"
  assumes "distinct (map fst tbs)" "\<forall>p \<in> set tbs. distinct (map tl_account_code (tb_lines (snd p)))"
    and "contribution_ok m" "\<forall>code. fst ` set (get_or_empty m code) \<inter> fst ` set tbs = {}"
  shows "contribution_ok (foldl contribute_tb m tbs)"
    and "bt_sum (\<lambda>x. x) (get_or_empty (foldl contribute_tb m tbs) code) =
           bt_sum (\<lambda>x. x) (get_or_empty m code) + key_sum tl_account_code tl_net_balance (all_lines tbs) code"
proof -
  have "contribution_ok (foldl contribute_tb m tbs)
      \<and> bt_sum (\<lambda>x. x) (get_or_empty (foldl contribute_tb m tbs) code) =
           bt_sum (\<lambda>x. x) (get_or_empty m code) + key_sum tl_account_code tl_net_balance (all_lines tbs) code"
    using assms
  proof (induction tbs arbitrary: m)
    case (Cons p tbs)
    let ?m = "contribute_tb m p"
    have lines: "distinct (map tl_account_code (tb_lines (snd p)))" using Cons.prems(2) by simp
    note get = contribute_lines[OF lines, where e = "fst p" and m = m, folded contribute_tb_def]
    have new: "map_of (get_or_empty m c) (fst p) = None" for c
      using Cons.prems(4) by (auto simp: map_of_eq_None_iff)
    have ok: "contribution_ok ?m" using Cons.prems(3) by (auto simp: contribution_ok_def get)
    moreover have "fst ` set (get_or_empty ?m c) \<inter> fst ` set tbs = {}" for c
      using Cons.prems(1,4) by (auto simp: get image_iff dest: bspec)
    moreover have "bt_sum (\<lambda>x. x) (get_or_empty ?m code) = bt_sum (\<lambda>x. x) (get_or_empty m code)
        + key_sum tl_account_code tl_net_balance (tb_lines (snd p)) code"
    proof (cases "code \<in> tl_account_code ` set (tb_lines (snd p))")
      case True
      then show ?thesis using Cons.prems(3) new[of code] by (simp add: get bt_sum_insert contribution_ok_def)
    next
      case False
      then show ?thesis by (simp add: get key_sum_none)
    qed
    ultimately show ?case
      using Cons.IH[of ?m] Cons.prems(1,2) by (simp add: all_lines_def)
  qed (simp add: all_lines_def)
  then show "contribution_ok (foldl contribute_tb m tbs)"
    "bt_sum (\<lambda>x. x) (get_or_empty (foldl contribute_tb m tbs) code) =
       bt_sum (\<lambda>x. x) (get_or_empty m code) + key_sum tl_account_code tl_net_balance (all_lines tbs) code"
    by simp_all
qed

text \<open>C23. The consolidation schedule has one line for each account of the trial balance before or after
  the eliminations, in the order of the codes. On each line the amounts of the entities add up to
  the total before the eliminations, provided that no entity is listed twice or has two lines on one account,
  and the total and the adjustment to the total after them.\<close>

theorem schedule_reconciles:
  assumes "aggregate_pre_elimination m tbs = Inr pre" "distinct (map fst tbs)"
    and "\<forall>p \<in> set tbs. distinct (map tl_account_code (tb_lines (snd p)))"
  shows "let sched = build_consolidation_schedule pre post (consolidated_tbs m tbs) group_id as_of
         in map sl_account_code (cd_lines sched)
              = sorted_list_of_set (dom (map_of (ag_account_totals pre)) \<union> dom (map_of (ag_account_totals post)))
            \<and> list_all (\<lambda>sl. sum_list (map snd (sl_entity_amounts sl)) = sl_pre_elimination_total sl
                \<and> sl_pre_elimination_total sl = account_net pre (sl_account_code sl)
                \<and> sl_post_elimination_total sl = account_net post (sl_account_code sl)
                \<and> sl_pre_elimination_total sl + sl_elimination_adjustments sl = sl_post_elimination_total sl)
                (cd_lines sched)"
proof -
  let ?codes = "map fst (ag_account_totals pre) @ map fst (ag_account_totals post)"
  let ?contribs = "foldl contribute_tb [] (consolidated_tbs m tbs)"
  let ?lines = "map (schedule_line pre post ?contribs) (remdups (sort ?codes))"
  have codes: "map sl_account_code ?lines = remdups (sort ?codes)"
    by (simp add: schedule_line_def Let_def comp_def)
  have "sorted_list_of_set (set (remdups (sort ?codes))) = remdups (sort ?codes)"
    by (intro sorted_list_of_set.idem_if_sorted_distinct) (simp_all add: sorted_remdups)
  then have keys: "remdups (sort ?codes) =
      sorted_list_of_set (dom (map_of (ag_account_totals pre)) \<union> dom (map_of (ag_account_totals post)))"
    by (simp add: dom_map_of_conv_image_fst)
  have lines: "cd_lines (build_consolidation_schedule pre post (consolidated_tbs m tbs) group_id as_of) = ?lines"
    using codes
    by (simp add: build_consolidation_schedule_def build_consolidation_schedule_with_contributions_def
        sort_key_id_if_sorted sorted_remdups del: sort_append)
  have "bt_sum (\<lambda>x. x) (get_or_empty ?contribs code) =
      key_sum tl_account_code tl_net_balance (all_lines (consolidated_tbs m tbs)) code" for code
    using assms(2,3)
    by (subst contributions_sum(2)) (auto simp: consolidated_tbs_def contribution_ok_def distinct_map inj_on_def)
  then have amounts: "sum_list (map snd (get_or_empty ?contribs code)) = account_net pre code" for code
    by (simp add: pre_elimination_net(2)[OF assms(1)] bt_sum_def comp_def)
  show ?thesis
    unfolding Let_def lines codes
    by (simp add: keys list_all_iff schedule_line_def Let_def amounts) (simp add: side_of_def)
qed

section \<open>Concrete instances\<close>

definition sample_account :: "string \<Rightarrow> rat \<Rightarrow> rat \<Rightarrow> AccountType \<Rightarrow> string \<times> rat AggregatedAccount" where
  "sample_account code debit credit ty =
     (code, \<lparr>aa_account_code = code, aa_debit_total = debit, aa_credit_total = credit,
             aa_net_balance = debit - credit, aa_contributing_entities = 1, aa_account_type = ty\<rparr>)"

text \<open>Cash 12, equity 4, revenue 8.\<close>

definition sample_group_tb :: "rat AggregatedTb" where
  "sample_group_tb =
     sample_aggregate\<lparr>ag_account_totals :=
       [sample_account ''1000'' 12 0 Asset, sample_account ''3300'' 0 4 Equity,
        sample_account ''4000'' 0 8 Revenue]\<rparr>"

lemma sample_codes:
  "code_number ''1000'' = Some 1000" "code_number ''3300'' = Some 3300" "code_number ''4000'' = Some 4000"
  by (simp_all add: code_number_def parse_unsigned_def digit_value_def)



definition sample_small_tb :: "rat \<Rightarrow> (naive_date, nat, rat) TrialBalance" where
  "sample_small_tb x = (sample_closing x)\<lparr>tb_lines := [sample_line ''1000'' x]\<rparr>"

lemma schedule_reconciles_witness:
  "\<exists>pre. aggregate_pre_elimination sample_manifest [(''A'', sample_small_tb 2), (''B'', sample_small_tb 8)] = Inr pre
     \<and> list_all (\<lambda>sl. sum_list (map snd (sl_entity_amounts sl)) = sl_pre_elimination_total sl)
         (cd_lines (build_consolidation_schedule pre sample_aggregate
            (consolidated_tbs sample_manifest [(''A'', sample_small_tb 2), (''B'', sample_small_tb 8)]) ''G'' 364))"
proof -
  obtain pre where pre: "aggregate_pre_elimination sample_manifest
      [(''A'', sample_small_tb 2), (''B'', sample_small_tb 8)] = Inr pre"
    by (simp add: aggregate_pre_elimination_def aggregate_loop_eq method_of_def sample_manifest_def
        sample_manifest_entity_def)
  have "distinct (map fst [(''A'', sample_small_tb 2), (''B'', sample_small_tb 8)])" by simp
  moreover have "\<forall>p \<in> set [(''A'', sample_small_tb 2), (''B'', sample_small_tb 8)].
      distinct (map tl_account_code (tb_lines (snd p)))"
    by (simp add: sample_small_tb_def)
  ultimately show ?thesis
    using schedule_reconciles[OF pre, where post = sample_aggregate and group_id = "''G''" and as_of = 364] pre
    by (auto simp: Let_def list_all_iff)
qed

end
