(* ===== verification/Translation.thy ===== *)
theory Translation
  imports Investments Trial_Balance
begin

text \<open>
  Model of the currency translation of the group: \<^verbatim>\<open>manifest/fx_master.rs\<close> (the rates of the
  period), \<^verbatim>\<open>datasynth-core/src/models/hyperinflation.rs\<close> (price indices),
  \<^verbatim>\<open>aggregate/translation/classify.rs\<close>, \<^verbatim>\<open>restatement.rs\<close>, \<^verbatim>\<open>translate.rs\<close>, \<^verbatim>\<open>cta.rs\<close> and
  \<^verbatim>\<open>worksheet.rs\<close>. Rounding to cents is the argument \<open>rd\<close>, the division of \<^verbatim>\<open>Decimal\<close> the
  argument \<open>divide_dec\<close>; dates are day numbers. The range query of a rate table panics when the
  period ends before it starts; the model then finds no rate.
\<close>

section \<open>The rates of the period\<close>

datatype FxRateSource = Inline | UserSupplied | HistoricalSeries

datatype FxRateBasis = FxClosing | FxAverage | FxHistorical

record FxPolicyConfig =
  po_balance_sheet :: FxRateBasis
  po_income_statement :: FxRateBasis
  po_equity :: FxRateBasis

record 'd FxConfig =
  fx_base_currency :: string
  fx_rate_source :: FxRateSource
  fx_rates :: "(string \<times> (naive_date \<times> 'd) list) list"
  fx_policy :: FxPolicyConfig

record 'd FxRateMaster =
  fm_base_currency :: string
  fm_policy :: FxPolicyConfig
  fm_rates :: "(string \<times> (naive_date \<times> 'd) list) list"
  fm_closing_by_pair :: "(string \<times> 'd) list"
  fm_average_by_pair :: "(string \<times> 'd) list"

datatype FxMessage =
    HistoricalSeriesUnsupported
  | BaseCurrencyMismatch string string
  | MalformedPair string
  | RatesMissing string naive_date naive_date
  | NoClosingRate string

definition pair_key :: "string \<Rightarrow> string \<Rightarrow> string" where
  "pair_key func pres = func @ ''/'' @ pres"

definition split_pair :: "string \<Rightarrow> (FxMessage GroupError, string \<times> string) result" where
  "split_pair pair =
     (case dropWhile (\<lambda>c. c \<noteq> CHR ''/'') pair of
        [] \<Rightarrow> Inl (ConfigError (MalformedPair pair))
      | _ # pres \<Rightarrow> Inr (takeWhile (\<lambda>c. c \<noteq> CHR ''/'') pair, pres))"

text \<open>The pairs of the entities with a foreign functional currency, as a sorted set.\<close>

definition needed_pairs :: "string \<Rightarrow> 'd ExpandedEntity list \<Rightarrow> string list" where
  "needed_pairs pres entities =
     remdups (sort (map (\<lambda>e. pair_key (xe_functional_currency e) pres)
       (filter (\<lambda>e. xe_functional_currency e \<noteq> pres) entities)))"

text \<open>The rates of one pair within the period: given directly, or inverted, without zero rates.\<close>

definition period_range :: "naive_date \<Rightarrow> naive_date \<Rightarrow> (naive_date \<times> 'd) list \<Rightarrow> (naive_date \<times> 'd) list" where
  "period_range p_start p_end table = filter (\<lambda>(d, r). p_start \<le> d \<and> d \<le> p_end) table"

definition resolve_pair ::
    "('d \<Rightarrow> 'd \<Rightarrow> 'd) \<Rightarrow> 'd::linordered_field FxConfig \<Rightarrow> naive_date \<Rightarrow> naive_date \<Rightarrow> string
     \<Rightarrow> (FxMessage GroupError, string \<times> (naive_date \<times> 'd) list) result" where
  "resolve_pair divide_dec cfg p_start p_end pair =
     try_bind (split_pair pair) (\<lambda>(func, pres).
       try_bind
         (case map_of (fx_rates cfg) pair of
            Some table \<Rightarrow> Inr (period_range p_start p_end table)
          | None \<Rightarrow>
              (case map_of (fx_rates cfg) (pair_key pres func) of
                 Some table \<Rightarrow>
                   Inr (List.map_filter (\<lambda>(d, r). if r = 0 then None else Some (d, divide_dec 1 r))
                     (period_range p_start p_end table))
               | None \<Rightarrow> Inl (ConfigError (RatesMissing pair p_start p_end))))
         (\<lambda>table. if table = [] then Inl (ConfigError (RatesMissing pair p_start p_end))
                  else Inr (pair, table)))"

definition closing_rate ::
    "string \<times> (naive_date \<times> 'd) list \<Rightarrow> (FxMessage GroupError, string \<times> 'd) result" where
  "closing_rate pt =
     (if snd pt = [] then Inl (ConfigError (NoClosingRate (fst pt)))
      else Inr (fst pt, snd (List.last (snd pt))))"

definition average_rate ::
    "('d \<Rightarrow> 'd \<Rightarrow> 'd) \<Rightarrow> string \<times> (naive_date \<times> 'd::linordered_field) list \<Rightarrow> string \<times> 'd" where
  "average_rate divide_dec pt =
     (fst pt, divide_dec (sum_list (map snd (snd pt))) (of_nat (length (snd pt))))"

definition build_fx_master ::
    "('d \<Rightarrow> 'd \<Rightarrow> 'd) \<Rightarrow> 'd::linordered_field FxConfig \<Rightarrow> string \<Rightarrow> naive_date \<Rightarrow> naive_date
     \<Rightarrow> 'd ExpandedEntity list \<Rightarrow> (FxMessage GroupError, 'd FxRateMaster) result" where
  "build_fx_master divide_dec cfg pres p_start p_end entities =
     (if fx_rate_source cfg = HistoricalSeries then Inl (ConfigError HistoricalSeriesUnsupported)
      else if fx_base_currency cfg \<noteq> pres
      then Inl (ConfigError (BaseCurrencyMismatch (fx_base_currency cfg) pres))
      else if needed_pairs pres entities = []
      then Inr \<lparr>fm_base_currency = pres, fm_policy = fx_policy cfg, fm_rates = [],
                fm_closing_by_pair = [], fm_average_by_pair = []\<rparr>
      else try_bind (try_map (resolve_pair divide_dec cfg p_start p_end) (needed_pairs pres entities))
        (\<lambda>resolved. try_bind (try_map closing_rate resolved) (\<lambda>closing.
           Inr \<lparr>fm_base_currency = pres, fm_policy = fx_policy cfg, fm_rates = resolved,
                fm_closing_by_pair = closing,
                fm_average_by_pair = map (average_rate divide_dec) resolved\<rparr>)))"

section \<open>Price indices\<close>

definition requires_restatement :: "HyperinflationStatus \<Rightarrow> bool" where
  "requires_restatement s \<longleftrightarrow> s = Hyperinflationary"

record 'd GeneralPriceIndex =
  gi_currency :: string
  gi_source :: string
  gi_observations :: "(naive_date \<times> 'd) list"

definition new_price_index :: "string \<Rightarrow> string \<Rightarrow> 'd GeneralPriceIndex" where
  "new_price_index cur src = \<lparr>gi_currency = cur, gi_source = src, gi_observations = []\<rparr>"

definition observe :: "'d GeneralPriceIndex \<Rightarrow> naive_date \<Rightarrow> 'd \<Rightarrow> 'd GeneralPriceIndex" where
  "observe g d level = g\<lparr>gi_observations := gi_observations g @ [(d, level)]\<rparr>"

definition index_lookup :: "'d GeneralPriceIndex \<Rightarrow> naive_date \<Rightarrow> 'd option" where
  "index_lookup g d =
     map_option snd (find (\<lambda>(d', _). d' \<le> d) (rev (sort_key fst (gi_observations g))))"

definition indexation_factor ::
    "('d \<Rightarrow> 'd \<Rightarrow> 'd) \<Rightarrow> 'd::linordered_field GeneralPriceIndex \<Rightarrow> naive_date \<Rightarrow> naive_date \<Rightarrow> 'd option" where
  "indexation_factor divide_dec g from_date to_date =
     (case (index_lookup g from_date, index_lookup g to_date) of
        (Some f, Some t) \<Rightarrow> if f = 0 then None else Some (divide_dec t f)
      | _ \<Rightarrow> None)"

text \<open>The record \<^verbatim>\<open>IndexedRestatement\<close> of the core crate restates one item.\<close>

record 'd RestatedItem =
  ri_account_code :: string
  ri_historical_date :: naive_date
  ri_reporting_date :: naive_date
  ri_historical_amount :: 'd
  ri_indexation_factor :: 'd
  ri_restated_amount :: 'd
  ri_currency :: string

definition restate_item ::
    "('d \<Rightarrow> 'd) \<Rightarrow> ('d \<Rightarrow> 'd \<Rightarrow> 'd) \<Rightarrow> string \<Rightarrow> naive_date \<Rightarrow> naive_date \<Rightarrow> 'd
     \<Rightarrow> 'd::linordered_field GeneralPriceIndex \<Rightarrow> 'd RestatedItem option" where
  "restate_item rd divide_dec code hist rep amount g =
     (case indexation_factor divide_dec g hist rep of
        None \<Rightarrow> None
      | Some factor \<Rightarrow>
          Some \<lparr>ri_account_code = code, ri_historical_date = hist, ri_reporting_date = rep,
                ri_historical_amount = amount, ri_indexation_factor = factor,
                ri_restated_amount = rd (amount * factor), ri_currency = gi_currency g\<rparr>)"

definition restatement_adjustment :: "'d::linordered_field RestatedItem \<Rightarrow> 'd" where
  "restatement_adjustment r = ri_restated_amount r - ri_historical_amount r"

record 'd NetMonetaryPositionGainLoss =
  nm_reporting_date :: naive_date
  nm_opening_net_monetary_position :: 'd
  nm_closing_net_monetary_position :: 'd
  nm_period_indexation_factor :: 'd
  nm_gain_or_loss :: 'd
  nm_currency :: string

definition net_monetary_gain_loss ::
    "('d \<Rightarrow> 'd) \<Rightarrow> naive_date \<Rightarrow> 'd::linordered_field \<Rightarrow> 'd \<Rightarrow> 'd \<Rightarrow> string
     \<Rightarrow> 'd NetMonetaryPositionGainLoss" where
  "net_monetary_gain_loss rd dt net_open net_close factor cur =
     \<lparr>nm_reporting_date = dt, nm_opening_net_monetary_position = rd net_open,
      nm_closing_net_monetary_position = rd net_close, nm_period_indexation_factor = factor,
      nm_gain_or_loss = rd (net_close - net_open * factor), nm_currency = cur\<rparr>"

section \<open>Classification of accounts\<close>

datatype AccountingFramework = UsGaap | Ifrs | DualReporting | FrenchGaap | GermanGaap

datatype TranslationAccountType = BsMonetary | BsNonMonetary | PlRevenue | PlExpense | TrEquity | PlOci

text \<open>The named constants of \<^verbatim>\<open>datasynth_core::accounts\<close>, in the groups of the source.\<close>

definition named_monetary_assets :: "string list" where
  "named_monetary_assets =
     [''1000'', ''1010'', ''1020'', ''1030'', ''1100'', ''1150'', ''2900'', ''1160'', ''1460'',
      ''1600'', ''1450'', ''1155'']"

definition named_non_monetary :: "string list" where
  "named_non_monetary =
     [''1200'', ''1420'', ''1410'', ''1500'', ''1510'', ''1900'', ''1910'', ''1920'', ''1930'', ''1950'']"

definition named_liabilities :: "string list" where
  "named_liabilities =
     [''2000'', ''2050'', ''2200'', ''2210'', ''2220'', ''2300'', ''2400'', ''2600'', ''2700'',
      ''2100'', ''2110'', ''2120'', ''2130'', ''2500'', ''2150'', ''2410'', ''2450'', ''2160'',
      ''2610'', ''2620'', ''2460'', ''2055'']"

definition named_equity :: "string list" where
  "named_equity =
     [''3000'', ''3100'', ''3200'', ''3300'', ''3400'', ''3500'', ''3600'', ''3700'', ''3510'']"

definition named_revenue :: "string list" where
  "named_revenue =
     [''4000'', ''4100'', ''4500'', ''4800'', ''4900'', ''4010'', ''4020'', ''4850'']"

definition named_expenses :: "string list" where
  "named_expenses =
     [''5000'', ''5100'', ''5200'', ''5300'', ''6000'', ''6100'', ''6200'', ''6300'', ''6400'',
      ''6500'', ''6600'', ''6700'', ''6800'', ''6900'', ''7100'', ''7400'', ''7500'', ''6010'',
      ''6850'', ''7510'']"

definition classify_named :: "string \<Rightarrow> TranslationAccountType option" where
  "classify_named code =
     (if code \<in> set named_monetary_assets then Some BsMonetary
      else if code \<in> set named_non_monetary then Some BsNonMonetary
      else if code \<in> set named_liabilities then Some BsMonetary
      else if code \<in> set named_equity then Some TrEquity
      else if code \<in> set named_revenue then Some PlRevenue
      else if code \<in> set named_expenses then Some PlExpense
      else None)"

definition classify_asset_range :: "string \<Rightarrow> TranslationAccountType" where
  "classify_asset_range code =
     (case parse_unsigned (2 ^ 32 - 1) (take 4 code) of
        None \<Rightarrow> BsMonetary
      | Some n \<Rightarrow>
          if 1000 \<le> n \<and> n \<le> 1199 then BsMonetary
          else if 1200 \<le> n \<and> n \<le> 1299 then BsNonMonetary
          else if 1300 \<le> n \<and> n \<le> 1399 then BsNonMonetary
          else if 1400 \<le> n \<and> n \<le> 1499 then BsMonetary
          else if 1500 \<le> n \<and> n \<le> 1899 then BsNonMonetary
          else if 1900 \<le> n \<and> n \<le> 1999 then BsNonMonetary
          else BsMonetary)"

definition classify_by_range :: "string \<Rightarrow> TranslationAccountType" where
  "classify_by_range code =
     (case code of
        [] \<Rightarrow> BsMonetary
      | c # _ \<Rightarrow>
          if c = CHR ''1'' then classify_asset_range code
          else if c = CHR ''3'' then TrEquity
          else if c = CHR ''4'' then PlRevenue
          else if c = CHR ''5'' \<or> c = CHR ''6'' \<or> c = CHR ''7'' then PlExpense
          else if c = CHR ''8'' then PlOci
          else BsMonetary)"

text \<open>The framework is not looked at.\<close>

definition classify_account :: "string \<Rightarrow> AccountingFramework \<Rightarrow> TranslationAccountType" where
  "classify_account code framework =
     (case classify_named code of Some ty \<Rightarrow> ty | None \<Rightarrow> classify_by_range code)"

section \<open>Restatement\<close>

record 'd IndexedRestatement =
  ir_opening_index :: 'd
  ir_closing_index :: 'd
  ir_average_index :: 'd

datatype 'd IndexMessage = OpeningIndexNotPositive 'd | ClosingIndexNotPositive 'd | AverageIndexNotPositive 'd

definition new_indexed_restatement ::
    "'d::linordered_field \<Rightarrow> 'd \<Rightarrow> 'd \<Rightarrow> ('d IndexMessage, 'd IndexedRestatement) result" where
  "new_indexed_restatement op cl av =
     (if op \<le> 0 then Inl (OpeningIndexNotPositive op)
      else if cl \<le> 0 then Inl (ClosingIndexNotPositive cl)
      else if av \<le> 0 then Inl (AverageIndexNotPositive av)
      else Inr \<lparr>ir_opening_index = op, ir_closing_index = cl, ir_average_index = av\<rparr>)"

definition non_monetary_factor :: "('d \<Rightarrow> 'd \<Rightarrow> 'd) \<Rightarrow> 'd IndexedRestatement \<Rightarrow> 'd" where
  "non_monetary_factor divide_dec r = divide_dec (ir_closing_index r) (ir_opening_index r)"

definition pl_factor :: "('d \<Rightarrow> 'd \<Rightarrow> 'd) \<Rightarrow> 'd IndexedRestatement \<Rightarrow> 'd" where
  "pl_factor divide_dec r = divide_dec (ir_closing_index r) (ir_average_index r)"

fun factor_for ::
    "('d \<Rightarrow> 'd \<Rightarrow> 'd) \<Rightarrow> 'd::linordered_field IndexedRestatement \<Rightarrow> TranslationAccountType \<Rightarrow> 'd" where
  "factor_for divide_dec r BsMonetary = 1"
| "factor_for divide_dec r BsNonMonetary = non_monetary_factor divide_dec r"
| "factor_for divide_dec r TrEquity = non_monetary_factor divide_dec r"
| "factor_for divide_dec r PlRevenue = pl_factor divide_dec r"
| "factor_for divide_dec r PlExpense = pl_factor divide_dec r"
| "factor_for divide_dec r PlOci = pl_factor divide_dec r"

definition period_average ::
    "('d \<Rightarrow> 'd \<Rightarrow> 'd) \<Rightarrow> 'd::linordered_field \<Rightarrow> 'd \<Rightarrow> 'd list \<Rightarrow> 'd" where
  "period_average divide_dec op cl in_period =
     (if in_period = [] then divide_dec (op + cl) 2
      else divide_dec (sum_list in_period) (of_nat (length in_period)))"

definition from_cpi_series ::
    "('d \<Rightarrow> 'd \<Rightarrow> 'd) \<Rightarrow> 'd::linordered_field GeneralPriceIndex \<Rightarrow> naive_date \<Rightarrow> naive_date
     \<Rightarrow> 'd IndexedRestatement option" where
  "from_cpi_series divide_dec series p_start p_end =
     (case (index_lookup series p_start, index_lookup series p_end) of
        (Some op, Some cl) \<Rightarrow>
          (let in_period = map snd (filter (\<lambda>(d, _). d \<ge> p_start \<and> d \<le> p_end) (gi_observations series))
           in case new_indexed_restatement op cl (period_average divide_dec op cl in_period) of
                Inl _ \<Rightarrow> None
              | Inr r \<Rightarrow> Some r)
      | _ \<Rightarrow> None)"

datatype 'd RestatementPath = StandardPath | ClosingRatePath | IndexedPath "'d IndexedRestatement"

definition select_restatement_path ::
    "('d \<Rightarrow> 'd \<Rightarrow> 'd) \<Rightarrow> HyperinflationStatus \<Rightarrow> string
     \<Rightarrow> (string \<times> 'd::linordered_field GeneralPriceIndex) list option \<Rightarrow> naive_date \<Rightarrow> naive_date
     \<Rightarrow> 'd RestatementPath" where
  "select_restatement_path divide_dec hyper func cpi p_start p_end =
     (if \<not> requires_restatement hyper then StandardPath
      else (case cpi of
              None \<Rightarrow> ClosingRatePath
            | Some m \<Rightarrow>
                (case map_of m func of
                   None \<Rightarrow> ClosingRatePath
                 | Some series \<Rightarrow>
                     (case from_cpi_series divide_dec series p_start p_end of
                        Some ir \<Rightarrow> IndexedPath ir
                      | None \<Rightarrow> ClosingRatePath))))"

section \<open>Translation of a trial balance\<close>

datatype DrCr = Debit | Credit

datatype RateBasis = Closing | Historical | Average

record 'd TranslatedLine =
  trl_account_code :: string
  trl_local_amount :: 'd
  trl_local_dr_cr :: DrCr
  trl_fx_rate :: 'd
  trl_rate_basis :: RateBasis
  trl_translated_amount :: 'd
  trl_account_type :: TranslationAccountType

record 'd TranslatedTb =
  tr_entity_code :: string
  tr_functional_currency :: string
  tr_presentation_currency :: string
  tr_as_of_date :: naive_date
  tr_lines :: "'d TranslatedLine list"
  tr_total_translated_debits :: 'd
  tr_total_translated_credits :: 'd
  tr_cta :: 'd

datatype TranslationMessage = MissingFxRate string naive_date RateBasis

fun rate_basis_for :: "TranslationAccountType \<Rightarrow> RateBasis" where
  "rate_basis_for BsMonetary = Closing"
| "rate_basis_for BsNonMonetary = Historical"
| "rate_basis_for TrEquity = Historical"
| "rate_basis_for PlRevenue = Average"
| "rate_basis_for PlExpense = Average"
| "rate_basis_for PlOci = Average"

definition direction_and_amount :: "'d::linordered_field TrialBalanceLine \<Rightarrow> 'd \<times> DrCr" where
  "direction_and_amount l =
     (if tl_debit_balance l > 0 then (tl_debit_balance l, Debit)
      else if tl_credit_balance l > 0 then (tl_credit_balance l, Credit)
      else (0, if tl_account_type l \<in> {Liability, Equity, Revenue, ContraAsset} then Credit else Debit))"

definition lookup_rate ::
    "'d FxRateMaster \<Rightarrow> string \<Rightarrow> RateBasis \<Rightarrow> naive_date \<Rightarrow> (TranslationMessage GroupError, 'd) result" where
  "lookup_rate master pair basis p_end =
     (case (case basis of Closing \<Rightarrow> map_of (fm_closing_by_pair master) pair
                        | _ \<Rightarrow> map_of (fm_average_by_pair master) pair) of
        Some rate \<Rightarrow> Inr rate
      | None \<Rightarrow> Inl (AggregateError (MissingFxRate pair p_end basis)))"

text \<open>One turn of the loop over the lines.\<close>

definition translate_line ::
    "('d \<Rightarrow> 'd) \<Rightarrow> ('d \<Rightarrow> 'd \<Rightarrow> 'd) \<Rightarrow> string \<Rightarrow> string \<Rightarrow> 'd::linordered_field FxRateMaster \<Rightarrow> naive_date
     \<Rightarrow> AccountingFramework \<Rightarrow> HyperinflationStatus \<Rightarrow> 'd IndexedRestatement option
     \<Rightarrow> 'd TrialBalanceLine \<Rightarrow> (TranslationMessage GroupError, 'd TranslatedLine) result" where
  "translate_line rd divide_dec func pres master p_end framework hyper restatement l =
     (let ty = classify_account (tl_account_code l) framework;
          basis = (if requires_restatement hyper then Closing else rate_basis_for ty);
          (raw, side) = direction_and_amount l;
          factor = (case restatement of None \<Rightarrow> 1 | Some r \<Rightarrow> factor_for divide_dec r ty);
          local_amt = rd (raw * factor)
      in try_bind (if func = pres then Inr 1 else lookup_rate master (pair_key func pres) basis p_end)
           (\<lambda>rate. Inr \<lparr>trl_account_code = tl_account_code l, trl_local_amount = local_amt,
                        trl_local_dr_cr = side, trl_fx_rate = rate, trl_rate_basis = basis,
                        trl_translated_amount = rd (local_amt * rate), trl_account_type = ty\<rparr>))"

definition side_total :: "DrCr \<Rightarrow> 'd::linordered_field TranslatedLine list \<Rightarrow> 'd" where
  "side_total side ls = sum_list (map trl_translated_amount (filter (\<lambda>l. trl_local_dr_cr l = side) ls))"

definition translate_entity_tb_with_indexed_restatement ::
    "('d \<Rightarrow> 'd) \<Rightarrow> ('d \<Rightarrow> 'd \<Rightarrow> 'd) \<Rightarrow> (naive_date, 'ts, 'd) TrialBalance \<Rightarrow> string
     \<Rightarrow> 'd::linordered_field FxRateMaster \<Rightarrow> naive_date \<Rightarrow> string \<Rightarrow> AccountingFramework
     \<Rightarrow> HyperinflationStatus \<Rightarrow> 'd IndexedRestatement option
     \<Rightarrow> (TranslationMessage GroupError, 'd TranslatedTb) result" where
  "translate_entity_tb_with_indexed_restatement rd divide_dec tb func master p_end pres framework hyper
       restatement =
     try_bind (try_map (translate_line rd divide_dec func pres master p_end framework hyper restatement)
                 (tb_lines tb)) (\<lambda>ls.
       Inr \<lparr>tr_entity_code = tb_company_code tb, tr_functional_currency = func,
            tr_presentation_currency = pres, tr_as_of_date = tb_as_of_date tb, tr_lines = ls,
            tr_total_translated_debits = side_total Debit ls,
            tr_total_translated_credits = side_total Credit ls,
            tr_cta = side_total Debit ls - side_total Credit ls\<rparr>)"

definition translate_entity_tb_with_hyperinflation ::
    "('d \<Rightarrow> 'd) \<Rightarrow> ('d \<Rightarrow> 'd \<Rightarrow> 'd) \<Rightarrow> (naive_date, 'ts, 'd) TrialBalance \<Rightarrow> string
     \<Rightarrow> 'd::linordered_field FxRateMaster \<Rightarrow> naive_date \<Rightarrow> string \<Rightarrow> AccountingFramework
     \<Rightarrow> HyperinflationStatus \<Rightarrow> (TranslationMessage GroupError, 'd TranslatedTb) result" where
  "translate_entity_tb_with_hyperinflation rd divide_dec tb func master p_end pres framework hyper =
     translate_entity_tb_with_indexed_restatement rd divide_dec tb func master p_end pres framework
       hyper None"

definition translate_entity_tb ::
    "('d \<Rightarrow> 'd) \<Rightarrow> ('d \<Rightarrow> 'd \<Rightarrow> 'd) \<Rightarrow> (naive_date, 'ts, 'd) TrialBalance \<Rightarrow> string
     \<Rightarrow> 'd::linordered_field FxRateMaster \<Rightarrow> naive_date \<Rightarrow> string \<Rightarrow> AccountingFramework
     \<Rightarrow> (TranslationMessage GroupError, 'd TranslatedTb) result" where
  "translate_entity_tb rd divide_dec tb func master p_end pres framework =
     translate_entity_tb_with_hyperinflation rd divide_dec tb func master p_end pres framework
       NotHyperinflationary"

section \<open>Translation adjustments and worksheet\<close>

record 'd CtaRollforward =
  cr_entity_code :: string
  cr_functional_currency :: string
  cr_presentation_currency :: string
  cr_opening_cta :: 'd
  cr_period_cta :: 'd
  cr_closing_cta :: 'd

definition compute_cta :: "'d::linordered_field TranslatedTb \<Rightarrow> 'd" where
  "compute_cta t = tr_total_translated_debits t - tr_total_translated_credits t"

definition cta_rollforward ::
    "string \<Rightarrow> string \<Rightarrow> string \<Rightarrow> 'd::linordered_field \<Rightarrow> 'd \<Rightarrow> 'd CtaRollforward" where
  "cta_rollforward code func pres op period =
     \<lparr>cr_entity_code = code, cr_functional_currency = func, cr_presentation_currency = pres,
      cr_opening_cta = op, cr_period_cta = period, cr_closing_cta = op + period\<rparr>"

record 'd WorksheetLine =
  wl_account_code :: string
  wl_local_amount :: 'd
  wl_ccy_pair :: string
  wl_rate :: 'd
  wl_rate_basis :: RateBasis
  wl_translated_amount :: 'd

record 'd WorksheetEntity =
  we_entity_code :: string
  we_functional_currency :: string
  we_presentation_currency :: string
  we_as_of_date :: naive_date
  we_lines :: "'d WorksheetLine list"

definition worksheet_entity :: "'d TranslatedTb \<Rightarrow> 'd WorksheetEntity" where
  "worksheet_entity t =
     \<lparr>we_entity_code = tr_entity_code t, we_functional_currency = tr_functional_currency t,
      we_presentation_currency = tr_presentation_currency t, we_as_of_date = tr_as_of_date t,
      we_lines = map (\<lambda>l. \<lparr>wl_account_code = trl_account_code l, wl_local_amount = trl_local_amount l,
        wl_ccy_pair = pair_key (tr_functional_currency t) (tr_presentation_currency t),
        wl_rate = trl_fx_rate l, wl_rate_basis = trl_rate_basis l,
        wl_translated_amount = trl_translated_amount l\<rparr>) (tr_lines t)\<rparr>"

section \<open>The rates of the master\<close>

definition usable_rates ::
    "('d \<Rightarrow> 'd \<Rightarrow> 'd) \<Rightarrow> 'd::linordered_field FxConfig \<Rightarrow> naive_date \<Rightarrow> naive_date \<Rightarrow> string \<Rightarrow> string
     \<Rightarrow> (naive_date \<times> 'd) list" where
  "usable_rates divide_dec cfg p_start p_end func pres =
     (case map_of (fx_rates cfg) (pair_key func pres) of
        Some table \<Rightarrow> period_range p_start p_end table
      | None \<Rightarrow>
          (case map_of (fx_rates cfg) (pair_key pres func) of
             Some table \<Rightarrow>
               List.map_filter (\<lambda>(d, r). if r = 0 then None else Some (d, divide_dec 1 r))
                 (period_range p_start p_end table)
           | None \<Rightarrow> []))"

lemma split_at_slash:
  "CHR ''/'' \<notin> set func \<Longrightarrow> dropWhile (\<lambda>c. c \<noteq> CHR ''/'') (func @ CHR ''/'' # pres) = CHR ''/'' # pres"
  "CHR ''/'' \<notin> set func \<Longrightarrow> takeWhile (\<lambda>c. c \<noteq> CHR ''/'') (func @ CHR ''/'' # pres) = func"
  by (induction func) auto

lemma split_pair_key: "CHR ''/'' \<notin> set func \<Longrightarrow> split_pair (pair_key func pres) = Inr (func, pres)"
  by (simp add: split_pair_def pair_key_def split_at_slash)

lemma pair_key_inj: "pair_key f pres = pair_key f' pres \<Longrightarrow> f = f'"
  by (simp add: pair_key_def)

lemma resolve_pair_eq:
  assumes "CHR ''/'' \<notin> set func"
  shows "resolve_pair divide_dec cfg p_start p_end (pair_key func pres) =
           (if usable_rates divide_dec cfg p_start p_end func pres = []
            then Inl (ConfigError (RatesMissing (pair_key func pres) p_start p_end))
            else Inr (pair_key func pres, usable_rates divide_dec cfg p_start p_end func pres))"
  by (simp add: resolve_pair_def split_pair_key[OF assms] usable_rates_def split: option.split)

definition foreign_currencies :: "string \<Rightarrow> 'd ExpandedEntity list \<Rightarrow> string set" where
  "foreign_currencies pres entities = xe_functional_currency ` set entities - {pres}"

lemma needed_pairs_set: "set (needed_pairs pres entities) = (\<lambda>f. pair_key f pres) ` foreign_currencies pres entities"
  by (auto simp: needed_pairs_def foreign_currencies_def)

lemma try_map_closing:
  "\<forall>pt \<in> set pts. snd pt \<noteq> [] \<Longrightarrow>
     try_map closing_rate pts = Inr (map (\<lambda>pt. (fst pt, snd (List.last (snd pt)))) pts)"
  by (induction pts) (simp_all add: closing_rate_def)

lemma try_map_tabulated:
  assumes "\<forall>p \<in> set ps. f p = (if g p = [] then Inl (e p) else Inr (p, g p))"
  shows "try_map f ps =
           (case find (\<lambda>p. g p = []) ps of
              Some p \<Rightarrow> Inl (e p) | None \<Rightarrow> Inr (map (\<lambda>p. (p, g p)) ps))"
  using assms by (induction ps) (auto split: option.split)

lemma map_of_tabulated:
  "map_of (map (\<lambda>p. (p, g p)) ps) p = (if p \<in> set ps then Some (g p) else None)"
  by (induction ps) auto

definition master_rates ::
    "('d \<Rightarrow> 'd \<Rightarrow> 'd) \<Rightarrow> 'd::linordered_field FxRateMaster \<Rightarrow> string \<Rightarrow> (naive_date \<times> 'd) list \<Rightarrow> bool" where
  "master_rates divide_dec fm pair table \<longleftrightarrow>
     map_of (fm_rates fm) pair = Some table
     \<and> map_of (fm_closing_by_pair fm) pair = Some (snd (List.last table))
     \<and> map_of (fm_average_by_pair fm) pair
         = Some (divide_dec (sum_list (map snd table)) (of_nat (length table)))"

lemma fx_master_spec:
  fixes cfg :: "'d::linordered_field FxConfig"
  assumes slash: "\<forall>f \<in> foreign_currencies pres entities. CHR ''/'' \<notin> set f"
  shows "is_ok (build_fx_master divide_dec cfg pres p_start p_end entities) \<longleftrightarrow>
           fx_rate_source cfg \<noteq> HistoricalSeries \<and> fx_base_currency cfg = pres
           \<and> (\<forall>f \<in> foreign_currencies pres entities. usable_rates divide_dec cfg p_start p_end f pres \<noteq> [])"
    and "build_fx_master divide_dec cfg pres p_start p_end entities = Inr fm \<Longrightarrow>
           dom (map_of (fm_rates fm)) = (\<lambda>f. pair_key f pres) ` foreign_currencies pres entities
           \<and> (\<forall>f \<in> foreign_currencies pres entities.
                master_rates divide_dec fm (pair_key f pres) (usable_rates divide_dec cfg p_start p_end f pres))"
proof -
  let ?ps = "needed_pairs pres entities" and ?f = "resolve_pair divide_dec cfg p_start p_end"
  let ?u = "\<lambda>f. usable_rates divide_dec cfg p_start p_end f pres"
  define g where "g p = ?u (THE f. p = pair_key f pres)" for p
  have g: "g (pair_key f pres) = ?u f" for f
    unfolding g_def by (rule arg_cong[where f = ?u]) (auto dest: pair_key_inj)
  have resolved: "try_map ?f ?ps = (case find (\<lambda>p. g p = []) ?ps of
      Some p \<Rightarrow> Inl (ConfigError (RatesMissing p p_start p_end)) | None \<Rightarrow> Inr (map (\<lambda>p. (p, g p)) ?ps))"
    by (rule try_map_tabulated) (use slash in \<open>auto simp: needed_pairs_set g resolve_pair_eq\<close>)
  have usable: "find (\<lambda>p. g p = []) ?ps = None \<longleftrightarrow> (\<forall>f \<in> foreign_currencies pres entities. ?u f \<noteq> [])"
    by (simp add: find_None_iff needed_pairs_set g)
  define master where "master = \<lparr>fm_base_currency = pres, fm_policy = fx_policy cfg,
      fm_rates = map (\<lambda>p. (p, g p)) ?ps,
      fm_closing_by_pair = map (\<lambda>p. (p, snd (List.last (g p)))) ?ps,
      fm_average_by_pair =
        map (\<lambda>p. (p, divide_dec (sum_list (map snd (g p))) (of_nat (length (g p))))) ?ps\<rparr>"
  have build: "build_fx_master divide_dec cfg pres p_start p_end entities =
      (if fx_rate_source cfg = HistoricalSeries then Inl (ConfigError HistoricalSeriesUnsupported)
       else if fx_base_currency cfg \<noteq> pres
       then Inl (ConfigError (BaseCurrencyMismatch (fx_base_currency cfg) pres))
       else (case find (\<lambda>p. g p = []) ?ps of
               Some p \<Rightarrow> Inl (ConfigError (RatesMissing p p_start p_end)) | None \<Rightarrow> Inr master))"
  proof (cases "find (\<lambda>p. g p = []) ?ps")
    case None
    then have "\<forall>pt \<in> set (map (\<lambda>p. (p, g p)) ?ps). snd pt \<noteq> []" by (auto simp: find_None_iff)
    then show ?thesis
      using None by (simp add: build_fx_master_def resolved try_map_closing master_def average_rate_def comp_def)
  qed (auto simp: build_fx_master_def resolved)
  show "is_ok (build_fx_master divide_dec cfg pres p_start p_end entities) \<longleftrightarrow>
           fx_rate_source cfg \<noteq> HistoricalSeries \<and> fx_base_currency cfg = pres
           \<and> (\<forall>f \<in> foreign_currencies pres entities. ?u f \<noteq> [])"
    unfolding build using usable by (auto split: option.split)
  show "build_fx_master divide_dec cfg pres p_start p_end entities = Inr fm \<Longrightarrow>
           dom (map_of (fm_rates fm)) = (\<lambda>f. pair_key f pres) ` foreign_currencies pres entities
           \<and> (\<forall>f \<in> foreign_currencies pres entities. master_rates divide_dec fm (pair_key f pres) (?u f))"
  proof -
    assume "build_fx_master divide_dec cfg pres p_start p_end entities = Inr fm"
    then have "fm = master" by (auto simp: build split: if_splits option.splits)
    moreover have "master_rates divide_dec master (pair_key f pres) (?u f)"
      if "f \<in> foreign_currencies pres entities" for f
    proof -
      have "pair_key f pres \<in> set ?ps" using that by (auto simp: needed_pairs_set)
      then show ?thesis by (simp add: master_rates_def master_def map_of_tabulated g)
    qed
    moreover have "dom (map_of (fm_rates master)) = set ?ps"
      by (auto simp: master_def map_of_tabulated split: if_splits)
    ultimately show ?thesis by (simp add: needed_pairs_set)
  qed
qed

section \<open>Price indices\<close>

lemma last_at_or_before:
  fixes obs :: "(naive_date \<times> 'd) list"
  assumes "sorted (map fst obs)"
  shows "case find (\<lambda>(d', _). d' \<le> d) (rev obs) of
           None \<Rightarrow> \<forall>(d', _) \<in> set obs. d < d'
         | Some (d0, x) \<Rightarrow> (d0, x) \<in> set obs \<and> d0 \<le> d \<and> (\<forall>(d', _) \<in> set obs. d' \<le> d \<longrightarrow> d' \<le> d0)"
  using assms
proof (induction obs rule: rev_induct)
  case (snoc p obs)
  obtain d0 x where p: "p = (d0, x)" by force
  have "sorted (map fst obs)" "\<forall>(d', _) \<in> set obs. d' \<le> d0"
    using snoc.prems by (auto simp: p sorted_append)
  with snoc.IH show ?case
    by (auto simp: p split: option.splits)
qed simp

lemma index_lookup_spec:
  "case index_lookup g d of
     None \<Rightarrow> \<forall>(d', _) \<in> set (gi_observations g). d < d'
   | Some x \<Rightarrow> \<exists>d0. (d0, x) \<in> set (gi_observations g) \<and> d0 \<le> d
       \<and> (\<forall>(d', _) \<in> set (gi_observations g). d' \<le> d \<longrightarrow> d' \<le> d0)"
  using last_at_or_before[of "sort_key fst (gi_observations g)" d]
  by (auto simp: index_lookup_def split: option.splits)

section \<open>Translated lines\<close>

definition factor_of ::
    "('d \<Rightarrow> 'd \<Rightarrow> 'd) \<Rightarrow> 'd::linordered_field IndexedRestatement option \<Rightarrow> TranslationAccountType \<Rightarrow> 'd" where
  "factor_of divide_dec restatement ty =
     (case restatement of None \<Rightarrow> 1 | Some r \<Rightarrow> factor_for divide_dec r ty)"

definition basis_of :: "HyperinflationStatus \<Rightarrow> TranslationAccountType \<Rightarrow> RateBasis" where
  "basis_of hyper ty = (if requires_restatement hyper then Closing else rate_basis_for ty)"

definition rate_of :: "'d FxRateMaster \<Rightarrow> string \<Rightarrow> string \<Rightarrow> RateBasis \<Rightarrow> 'd::linordered_field option" where
  "rate_of master func pres basis =
     (if func = pres then Some 1
      else if basis = Closing then map_of (fm_closing_by_pair master) (pair_key func pres)
      else map_of (fm_average_by_pair master) (pair_key func pres))"

text \<open>The signed amount of a line before translation, and after it.\<close>

definition raw_signed :: "'d::linordered_field TrialBalanceLine \<Rightarrow> 'd" where
  "raw_signed l = (case direction_and_amount l of (x, Debit) \<Rightarrow> x | (x, Credit) \<Rightarrow> - x)"

definition trl_signed :: "'d::linordered_field TranslatedLine \<Rightarrow> 'd" where
  "trl_signed l = (if trl_local_dr_cr l = Debit then trl_translated_amount l else - trl_translated_amount l)"

lemma translate_line_eq:
  "translate_line rd divide_dec func pres master p_end framework hyper restatement l =
     (let ty = classify_account (tl_account_code l) framework; basis = basis_of hyper ty;
          local_amt = rd (fst (direction_and_amount l) * factor_of divide_dec restatement ty)
      in case rate_of master func pres basis of
           None \<Rightarrow> Inl (AggregateError (MissingFxRate (pair_key func pres) p_end basis))
         | Some rate \<Rightarrow>
             Inr \<lparr>trl_account_code = tl_account_code l, trl_local_amount = local_amt,
                  trl_local_dr_cr = snd (direction_and_amount l), trl_fx_rate = rate,
                  trl_rate_basis = basis, trl_translated_amount = rd (local_amt * rate),
                  trl_account_type = ty\<rparr>)"
  by (simp add: translate_line_def basis_of_def factor_of_def rate_of_def lookup_rate_def Let_def split_beta
      split: option.split RateBasis.split)

definition translated_ok ::
    "('d \<Rightarrow> 'd) \<Rightarrow> ('d \<Rightarrow> 'd \<Rightarrow> 'd) \<Rightarrow> string \<Rightarrow> string \<Rightarrow> 'd::linordered_field FxRateMaster
     \<Rightarrow> AccountingFramework \<Rightarrow> HyperinflationStatus \<Rightarrow> 'd IndexedRestatement option
     \<Rightarrow> 'd TrialBalanceLine \<Rightarrow> 'd TranslatedLine \<Rightarrow> bool" where
  "translated_ok rd divide_dec func pres master framework hyper restatement l t \<longleftrightarrow>
     trl_account_code t = tl_account_code l
     \<and> trl_account_type t = classify_account (tl_account_code l) framework
     \<and> trl_rate_basis t = basis_of hyper (trl_account_type t)
     \<and> rate_of master func pres (trl_rate_basis t) = Some (trl_fx_rate t)
     \<and> trl_local_dr_cr t = snd (direction_and_amount l)
     \<and> trl_local_amount t
         = rd (fst (direction_and_amount l) * factor_of divide_dec restatement (trl_account_type t))
     \<and> trl_translated_amount t = rd (trl_local_amount t * trl_fx_rate t)"

lemma translate_line_Inr:
  "translate_line rd divide_dec func pres master p_end framework hyper restatement l = Inr t \<longleftrightarrow>
     translated_ok rd divide_dec func pres master framework hyper restatement l t"
  by (cases t) (auto simp: translate_line_eq translated_ok_def Let_def split: option.split)

lemma not_Debit [simp]: "side \<noteq> Debit \<longleftrightarrow> side = Credit" "Debit \<noteq> side \<longleftrightarrow> side = Credit"
  by (cases side; simp)+

lemma side_totals: "side_total Debit ls - side_total Credit ls = sum_list (map trl_signed ls)"
  by (induction ls) (auto simp: side_total_def trl_signed_def)

lemma direction_nonneg: "0 \<le> fst (direction_and_amount l)"
  by (simp add: direction_and_amount_def)

text \<open>A translated line is off by at most half a cent, and half a cent times the rate.\<close>

lemma translated_line_error:
  assumes rd: "rounds_to_cents rd"
    and t: "translated_ok rd divide_dec func pres master framework hyper restatement l t"
  shows "\<bar>trl_signed t - raw_signed l * factor_of divide_dec restatement (trl_account_type t) * trl_fx_rate t\<bar>
           \<le> (1 + \<bar>trl_fx_rate t\<bar>) / 200"
proof -
  have r: "\<bar>rd x - x\<bar> \<le> 1 / 200" for x using rd by (simp add: rounds_to_cents_def)
  obtain a side where d: "direction_and_amount l = (a, side)" by force
  let ?k = "factor_of divide_dec restatement (trl_account_type t)" and ?f = "trl_fx_rate t"
  have "\<bar>rd (a * ?k) * ?f - a * ?k * ?f\<bar> = \<bar>rd (a * ?k) - a * ?k\<bar> * \<bar>?f\<bar>"
    by (simp add: abs_mult flip: left_diff_distrib)
  also have "\<dots> \<le> 1 / 200 * \<bar>?f\<bar>" by (intro mult_right_mono r) simp
  finally have "\<bar>rd (rd (a * ?k) * ?f) - a * ?k * ?f\<bar> \<le> 1 / 200 + 1 / 200 * \<bar>?f\<bar>"
    using r[of "rd (a * ?k) * ?f"] by linarith
  then have bound: "\<bar>trl_translated_amount t - a * ?k * ?f\<bar> \<le> (1 + \<bar>?f\<bar>) / 200"
    using t by (simp add: translated_ok_def d add_divide_distrib)
  then show ?thesis
  proof (cases side)
    case Credit
    have "\<bar>- trl_translated_amount t - - a * ?k * ?f\<bar> = \<bar>trl_translated_amount t - a * ?k * ?f\<bar>"
      by (simp add: abs_minus_commute)
    with Credit bound show ?thesis using t by (simp add: translated_ok_def d trl_signed_def raw_signed_def)
  qed (use t in \<open>simp add: translated_ok_def d trl_signed_def raw_signed_def\<close>)
qed

lemma sum_of_errors:
  fixes f h :: "'b \<Rightarrow> 'd::linordered_idom" and g :: "'a \<Rightarrow> 'b \<Rightarrow> 'd"
  assumes "list_all2 P xs ys" "\<And>x y. P x y \<Longrightarrow> \<bar>f y - g x y\<bar> \<le> h y"
  shows "\<bar>sum_list (map f ys) - sum_list (map2 g xs ys)\<bar> \<le> sum_list (map h ys)"
  using assms(1)
proof (induction rule: list_all2_induct)
  case (Cons x xs y ys)
  have "\<bar>f y - g x y\<bar> \<le> h y" using Cons(1) assms(2) by blast
  with Cons(3) show ?case by simp
qed simp

lemma translate_tb_Inr:
  "translate_entity_tb_with_indexed_restatement rd divide_dec tb func master p_end pres framework hyper restatement
     = Inr t \<longleftrightarrow>
   list_all2 (translated_ok rd divide_dec func pres master framework hyper restatement) (tb_lines tb) (tr_lines t)
   \<and> tr_entity_code t = tb_company_code tb \<and> tr_functional_currency t = func
   \<and> tr_presentation_currency t = pres \<and> tr_as_of_date t = tb_as_of_date tb
   \<and> tr_total_translated_debits t = side_total Debit (tr_lines t)
   \<and> tr_total_translated_credits t = side_total Credit (tr_lines t)
   \<and> tr_cta t = side_total Debit (tr_lines t) - side_total Credit (tr_lines t)"
proof -
  have "try_map (translate_line rd divide_dec func pres master p_end framework hyper restatement) (tb_lines tb) = Inr ls
      \<longleftrightarrow> list_all2 (translated_ok rd divide_dec func pres master framework hyper restatement) (tb_lines tb) ls" for ls
    by (simp add: try_map_Inr_iff translate_line_Inr)
  then show ?thesis
    unfolding translate_entity_tb_with_indexed_restatement_def try_bind_eq_Inr by (cases t) auto
qed

section \<open>Properties\<close>

lemma try_map_total:
  assumes "\<And>x. \<exists>y. f x = Inr y"
  shows "\<exists>ys. try_map f xs = Inr ys"
proof (induction xs)
  case (Cons x xs)
  obtain y where "f x = Inr y" using assms by blast
  with Cons show ?case by auto
qed simp

text \<open>C26. The rate master of the manifest, for currency codes without a slash: it is built exactly
  when the source is supported, the base currency is the presentation currency, and every foreign
  functional currency has at least one usable rate in the period (given, or inverted and not
  zero). It then holds exactly the pairs of these currencies, with the rate of the last date and
  the mean of the period, and with it the translation of any trial balance of any of the entities
  succeeds, whatever the accounts, the framework and the restatement.\<close>

theorem fx_master_serves_every_entity:
  fixes cfg :: "'d::linordered_field FxConfig" and tb :: "(naive_date, 'ts, 'd) TrialBalance"
  assumes slash: "\<forall>f \<in> foreign_currencies pres entities. CHR ''/'' \<notin> set f"
  shows "(is_ok (build_fx_master divide_dec cfg pres p_start p_end entities) \<longleftrightarrow>
           fx_rate_source cfg \<noteq> HistoricalSeries \<and> fx_base_currency cfg = pres
           \<and> (\<forall>f \<in> foreign_currencies pres entities. usable_rates divide_dec cfg p_start p_end f pres \<noteq> []))
         \<and> (\<forall>fm. build_fx_master divide_dec cfg pres p_start p_end entities = Inr fm \<longrightarrow>
           dom (map_of (fm_rates fm)) = (\<lambda>f. pair_key f pres) ` foreign_currencies pres entities
           \<and> (\<forall>f \<in> foreign_currencies pres entities.
                master_rates divide_dec fm (pair_key f pres) (usable_rates divide_dec cfg p_start p_end f pres))
           \<and> (\<forall>e \<in> set entities. is_ok (translate_entity_tb_with_indexed_restatement rd divide_dec tb
                (xe_functional_currency e) fm d pres framework hyper restatement)))"
proof (intro conjI allI impI)
  show "is_ok (build_fx_master divide_dec cfg pres p_start p_end entities) \<longleftrightarrow>
      fx_rate_source cfg \<noteq> HistoricalSeries \<and> fx_base_currency cfg = pres
      \<and> (\<forall>f \<in> foreign_currencies pres entities. usable_rates divide_dec cfg p_start p_end f pres \<noteq> [])"
    by (rule fx_master_spec(1)[OF slash])
next
  fix fm assume built: "build_fx_master divide_dec cfg pres p_start p_end entities = Inr fm"
  note spec = fx_master_spec(2)[OF slash built]
  have rate: "\<exists>r. rate_of fm (xe_functional_currency e) pres basis = Some r" if "e \<in> set entities" for e basis
  proof (cases "xe_functional_currency e = pres")
    case False
    then have "xe_functional_currency e \<in> foreign_currencies pres entities"
      using that by (simp add: foreign_currencies_def)
    then show ?thesis using spec by (auto simp: rate_of_def master_rates_def)
  qed (simp add: rate_of_def)
  have line: "\<exists>t. translate_line rd divide_dec (xe_functional_currency e) pres fm d framework hyper restatement l = Inr t"
    if e: "e \<in> set entities" for e l
  proof -
    obtain r where "rate_of fm (xe_functional_currency e) pres
        (basis_of hyper (classify_account (tl_account_code l) framework)) = Some r"
      using rate[OF e] by blast
    then show ?thesis by (simp add: translate_line_eq Let_def)
  qed
  have "is_ok (try_map (translate_line rd divide_dec (xe_functional_currency e) pres fm d framework hyper restatement) ls)"
    if "e \<in> set entities" for e ls
    using try_map_total[OF line[OF that]] by (simp add: is_ok_iff)
  then show "\<forall>e \<in> set entities. is_ok (translate_entity_tb_with_indexed_restatement rd divide_dec tb
      (xe_functional_currency e) fm d pres framework hyper restatement)"
    by (auto simp: translate_entity_tb_with_indexed_restatement_def result_simps)
qed (use fx_master_spec(2)[OF slash] in blast)+


lemma identity_translation_keeps_imbalance:
  assumes t: "translate_entity_tb rd divide_dec tb pres master p_end pres framework = Inr t"
    and cents: "\<forall>l \<in> set (tb_lines tb). rd (fst (direction_and_amount l)) = fst (direction_and_amount l)"
  shows "tr_cta t = sum_list (map raw_signed (tb_lines tb))"
proof -
  have lines: "list_all2 (translated_ok rd divide_dec pres pres master framework NotHyperinflationary None)
      (tb_lines tb) (tr_lines t)" and "tr_cta t = sum_list (map trl_signed (tr_lines t))"
    using t by (simp_all add: translate_entity_tb_def translate_entity_tb_with_hyperinflation_def
        translate_tb_Inr side_totals)
  moreover have "sum_list (map trl_signed (tr_lines t)) = sum_list (map raw_signed (tb_lines tb))"
    using lines cents
  proof (induction rule: list_all2_induct)
    case (Cons l ls y ys)
    have "trl_signed y = raw_signed l"
      using Cons(1,4) by (auto simp: translated_ok_def rate_of_def factor_of_def trl_signed_def raw_signed_def
          split: prod.split DrCr.split)
    with Cons show ?case by simp
  qed simp
  ultimately show ?thesis by simp
qed

text \<open>C27. The named accounts of the classifier agree with its ranges in all but three: finished
  goods and work in progress are kept out of the monetary range, and account 1600 is taken for a
  deferred tax asset.\<close>

theorem classification_by_range:
  "classify_account code framework =
     (if code = ''1410'' \<or> code = ''1420'' then BsNonMonetary
      else if code = ''1600'' then BsMonetary
      else classify_by_range code)"
proof -
  have named: "classify_account code framework = classify_by_range code"
    if "code \<in> set (named_monetary_assets @ named_non_monetary @ named_liabilities @ named_equity
          @ named_revenue @ named_expenses) - {''1410'', ''1420'', ''1600''}"
    using that
    by (auto simp: classify_account_def classify_named_def named_monetary_assets_def named_non_monetary_def
        named_liabilities_def named_equity_def named_revenue_def named_expenses_def classify_by_range_def
        classify_asset_range_def parse_unsigned_def digit_value_def)
  show ?thesis
  proof (cases "classify_named code")
    case None
    then have "code \<notin> {''1410'', ''1420'', ''1600''}"
      by (auto simp: classify_named_def named_non_monetary_def named_monetary_assets_def)
    with None show ?thesis by (simp add: classify_account_def)
  next
    case (Some ty)
    then have "code \<in> set (named_monetary_assets @ named_non_monetary @ named_liabilities @ named_equity
          @ named_revenue @ named_expenses)"
      by (auto simp: classify_named_def split: if_splits)
    moreover have "classify_account ''1410'' framework = BsNonMonetary"
      "classify_account ''1420'' framework = BsNonMonetary" "classify_account ''1600'' framework = BsMonetary"
      by (simp_all add: classify_account_def classify_named_def named_monetary_assets_def named_non_monetary_def)
    ultimately show ?thesis using named by (cases "code \<in> {''1410'', ''1420'', ''1600''}") auto
  qed
qed

text \<open>The tax expense account is classified as other comprehensive income.\<close>

lemma tax_expense_is_oci: "classify_account ''8000'' framework = PlOci"
  by (simp add: classification_by_range classify_by_range_def)

lemma mean_between:
  fixes xs :: "'d::linordered_field list"
  assumes "xs \<noteq> []" "\<forall>x \<in> set xs. a \<le> x \<and> x \<le> b"
  shows "a \<le> sum_list xs / of_nat (length xs) \<and> sum_list xs / of_nat (length xs) \<le> b"
proof -
  have "of_nat (length xs) * a \<le> sum_list xs \<and> sum_list xs \<le> of_nat (length xs) * b"
    using assms(2) by (induction xs) (auto simp: algebra_simps intro: add_mono)
  moreover have "0 < (of_nat (length xs) :: 'd)" using assms(1) by simp
  ultimately show ?thesis by (simp add: field_simps)
qed



section \<open>Concrete instances\<close>

definition sample_fx_config :: "rat FxConfig" where
  "sample_fx_config =
     \<lparr>fx_base_currency = ''CHF'', fx_rate_source = Inline,
      fx_rates = [(''CHF/USD'', [(10, 1), (20, 2), (400, 3)])],
      fx_policy = \<lparr>po_balance_sheet = FxClosing, po_income_statement = FxAverage, po_equity = FxHistorical\<rparr>\<rparr>"

definition sample_foreign_entity :: "rat ExpandedEntity" where
  "sample_foreign_entity =
     \<lparr>xe_code = ''B'', xe_name = None, xe_country = ''US'', xe_functional_currency = ''USD'',
      xe_scoping_profile = ''minor'', xe_consolidation_method = Full, xe_ownership_percent = Some 1,
      xe_parent_code = Some ''A'', xe_accounting_framework = None, xe_industry = None,
      xe_hyperinflation_status = NotHyperinflationary, xe_ownership_changes = [], xe_source = ExplicitEntity,
      xe_generated_block_index = None, xe_rows = None\<rparr>"

lemma sample_foreign: "foreign_currencies ''CHF'' [sample_foreign_entity] = {''USD''}"
  by (auto simp: foreign_currencies_def sample_foreign_entity_def)

lemma sample_usable:
  "usable_rates (/) sample_fx_config 0 364 ''USD'' ''CHF'' = [(10, 1), (20, 1 / 2)]"
  by (simp add: usable_rates_def sample_fx_config_def pair_key_def period_range_def List.map_filter_simps)

lemma fx_master_serves_every_entity_witness:
  "\<exists>fm. build_fx_master (/) sample_fx_config ''CHF'' 0 364 [sample_foreign_entity] = Inr fm
     \<and> master_rates (/) fm ''USD/CHF'' [(10, 1), (20, 1 / 2)]"
proof -
  have slash: "\<forall>f \<in> foreign_currencies ''CHF'' [sample_foreign_entity]. CHR ''/'' \<notin> set f"
    by (simp add: sample_foreign)
  have "is_ok (build_fx_master (/) sample_fx_config ''CHF'' 0 364 [sample_foreign_entity])"
    unfolding fx_master_serves_every_entity[OF slash, THEN conjunct1]
    by (simp add: sample_foreign sample_usable) (simp add: sample_fx_config_def)
  then obtain fm where fm: "build_fx_master (/) sample_fx_config ''CHF'' 0 364 [sample_foreign_entity] = Inr fm"
    by (auto simp: is_ok_iff)
  have "pair_key ''USD'' ''CHF'' = ''USD/CHF''" by (simp add: pair_key_def)
  then show ?thesis
    using fm fx_master_serves_every_entity[OF slash, THEN conjunct2, rule_format, OF fm, THEN conjunct2, THEN conjunct1]
    by (simp add: sample_foreign sample_usable)
qed

definition sample_trial :: "(naive_date, nat, rat) TrialBalance" where
  "sample_trial =
     foldl tb_add_line (new_trial_balance 0 ''TB'' ''B'' 364 2024 12 ''USD'' Adjusted)
       [\<lparr>tl_account_code = ''1000'', tl_account_description = '''', tl_category = CurrentAssets,
         tl_account_type = Asset, tl_opening_balance = 0, tl_period_debits = 10, tl_period_credits = 0,
         tl_closing_balance = 10, tl_debit_balance = 10, tl_credit_balance = 0, tl_cost_center = None,
         tl_profit_center = None\<rparr>]"

definition sample_master :: "rat FxRateMaster" where
  "sample_master =
     \<lparr>fm_base_currency = ''CHF'', fm_policy = fx_policy sample_fx_config, fm_rates = [],
      fm_closing_by_pair = [(''USD/CHF'', 2)], fm_average_by_pair = [(''USD/CHF'', 3 / 4)]\<rparr>"


definition sample_index :: "rat GeneralPriceIndex" where
  "sample_index = observe (observe (new_price_index ''ARS'' ''CPI'') 300 200) 0 100"


end
