(* ===== verification/Impairment.thy ===== *)
theory Impairment
  imports Translation
begin

text \<open>
  Model of the goodwill impairment tests: \<^verbatim>\<open>datasynth-core/src/models/cgu.rs\<close> (cash-generating
  units and one test), \<^verbatim>\<open>crates/datasynth-group/src/manifest/cgu_plan.rs\<close> (the plan of the
  manifest) and \<^verbatim>\<open>aggregate/cgu_impairment.rs\<close> (the tests of a period), with the net assets that
  \<^verbatim>\<open>driver.rs\<close> takes from the translated trial balances.
\<close>

section \<open>Units and goodwill\<close>

record CashGeneratingUnit =
  cu_cgu_id :: string
  cu_name :: string
  cu_member_entity_codes :: "string list"
  cu_segment_code :: "string option"

definition new_cgu :: "string \<Rightarrow> string \<Rightarrow> string list \<Rightarrow> CashGeneratingUnit" where
  "new_cgu cgu_id name members =
     \<lparr>cu_cgu_id = cgu_id, cu_name = name, cu_member_entity_codes = members, cu_segment_code = None\<rparr>"

definition with_segment :: "CashGeneratingUnit \<Rightarrow> string \<Rightarrow> CashGeneratingUnit" where
  "with_segment cgu seg = cgu\<lparr>cu_segment_code := Some seg\<rparr>"

record 'd GoodwillAllocation =
  gw_cgu_id :: string
  gw_business_combination_id :: string
  gw_goodwill_amount :: 'd
  gw_allocation_date :: naive_date

record 'd CguImpairmentTest =
  ct_cgu_id :: string
  ct_test_date :: naive_date
  ct_allocated_goodwill :: 'd
  ct_other_carrying :: 'd
  ct_fair_value_less_costs :: 'd
  ct_value_in_use :: 'd
  ct_currency :: string

record 'd CguImpairmentResult =
  cr_cgu_id :: string
  cr_test_date :: naive_date
  cr_carrying_total :: 'd
  cr_recoverable_amount :: 'd
  cr_impairment_loss_total :: 'd
  cr_impairment_loss_to_goodwill :: 'd
  cr_impairment_loss_to_other_assets :: 'd
  cr_currency :: string

definition run_impairment_test :: "'d::linordered_field CguImpairmentTest \<Rightarrow> 'd CguImpairmentResult" where
  "run_impairment_test t =
     (let carrying_total = ct_allocated_goodwill t + ct_other_carrying t;
          recoverable_amount = max (ct_fair_value_less_costs t) (ct_value_in_use t);
          loss_total = max (carrying_total - recoverable_amount) 0;
          to_goodwill = min loss_total (ct_allocated_goodwill t)
      in \<lparr>cr_cgu_id = ct_cgu_id t, cr_test_date = ct_test_date t, cr_carrying_total = carrying_total,
          cr_recoverable_amount = recoverable_amount, cr_impairment_loss_total = loss_total,
          cr_impairment_loss_to_goodwill = to_goodwill,
          cr_impairment_loss_to_other_assets = loss_total - to_goodwill, cr_currency = ct_currency t\<rparr>)"

section \<open>The plan of the manifest\<close>

record CguDefinitionEntry =
  ce_cgu_id :: string
  ce_name :: string
  ce_member_entity_codes :: "string list"
  ce_segment_code :: "string option"

record 'd CguGoodwillAllocationEntry =
  ga_cgu_id :: string
  ga_business_combination_id :: string
  ga_goodwill_amount :: 'd
  ga_allocation_date :: naive_date

record 'd CguConfig =
  cc_cgus :: "CguDefinitionEntry list"
  cc_goodwill_allocations :: "'d CguGoodwillAllocationEntry list"

record 'd CguPlan =
  cp_cgus :: "CashGeneratingUnit list"
  cp_goodwill_allocations :: "'d GoodwillAllocation list"

datatype 'd CguMessage =
    DuplicateCgu string
  | CguWithoutMembers string
  | CguMemberUnknown string string
  | AllocationWithoutCgu string string
  | NegativeGoodwill string string 'd
  | CguNotInPlan string
  | NegativeOtherCarrying string 'd
  | NegativeRecoverableRatio string 'd
  | FairValueMissing string
  | ValueInUseMissing string
  | NegativeEstimate string string 'd

text \<open>The loop over the definitions, with the set of the identifiers seen.\<close>

fun check_cgus ::
    "string set \<Rightarrow> string set \<Rightarrow> CguDefinitionEntry list \<Rightarrow> ('d CguMessage GroupError, string set) result" where
  "check_cgus entity_codes seen [] = Inr seen"
| "check_cgus entity_codes seen (c # cs) =
     (if ce_cgu_id c \<in> seen then Inl (ConfigError (DuplicateCgu (ce_cgu_id c)))
      else if ce_member_entity_codes c = [] then Inl (ConfigError (CguWithoutMembers (ce_cgu_id c)))
      else (case List.find (\<lambda>e. e \<notin> entity_codes) (ce_member_entity_codes c) of
              Some e \<Rightarrow> Inl (ConfigError (CguMemberUnknown (ce_cgu_id c) e))
            | None \<Rightarrow> check_cgus entity_codes (insert (ce_cgu_id c) seen) cs))"

definition check_allocation ::
    "string set \<Rightarrow> 'd::linordered_field CguGoodwillAllocationEntry \<Rightarrow> ('d CguMessage GroupError, unit) result" where
  "check_allocation seen a =
     (if ga_cgu_id a \<notin> seen
      then Inl (ConfigError (AllocationWithoutCgu (ga_cgu_id a) (ga_business_combination_id a)))
      else if ga_goodwill_amount a < 0
      then Inl (ConfigError (NegativeGoodwill (ga_cgu_id a) (ga_business_combination_id a) (ga_goodwill_amount a)))
      else Inr ())"

definition lift_cgu :: "CguDefinitionEntry \<Rightarrow> CashGeneratingUnit" where
  "lift_cgu c =
     (let cgu = new_cgu (ce_cgu_id c) (ce_name c) (ce_member_entity_codes c) in
      case ce_segment_code c of Some seg \<Rightarrow> with_segment cgu seg | None \<Rightarrow> cgu)"

definition lift_allocation :: "'d CguGoodwillAllocationEntry \<Rightarrow> 'd GoodwillAllocation" where
  "lift_allocation a =
     \<lparr>gw_cgu_id = ga_cgu_id a, gw_business_combination_id = ga_business_combination_id a,
      gw_goodwill_amount = ga_goodwill_amount a, gw_allocation_date = ga_allocation_date a\<rparr>"

definition build_cgu_plan ::
    "'d::linordered_field CguConfig \<Rightarrow> 'd ExpandedEntity list \<Rightarrow> ('d CguMessage GroupError, 'd CguPlan) result" where
  "build_cgu_plan cfg entities =
     (if cc_cgus cfg = [] \<and> cc_goodwill_allocations cfg = []
      then Inr \<lparr>cp_cgus = [], cp_goodwill_allocations = []\<rparr>
      else try_bind (check_cgus (set (map xe_code entities)) {} (cc_cgus cfg)) (\<lambda>seen.
           try_bind (try_map (check_allocation seen) (cc_goodwill_allocations cfg)) (\<lambda>_.
           Inr \<lparr>cp_cgus = sort_key cu_cgu_id (map lift_cgu (cc_cgus cfg)),
                cp_goodwill_allocations =
                  sort_key (\<lambda>a. (gw_cgu_id a, gw_business_combination_id a))
                    (map lift_allocation (cc_goodwill_allocations cfg))\<rparr>)))"

section \<open>The tests of a period\<close>

record 'd CguTestInputs =
  ti_cgu_id :: string
  ti_other_carrying :: "'d option"
  ti_fair_value_less_costs :: "'d option"
  ti_value_in_use :: "'d option"
  ti_recoverable_ratio :: "'d option"

text \<open>The net assets of the entities of a translated trial balance, in \<^verbatim>\<open>driver.rs\<close>.\<close>

definition net_assets :: "'d::linordered_field TranslatedTb \<Rightarrow> 'd" where
  "net_assets t =
     sum_list (map (\<lambda>l. case trl_local_dr_cr l of
                          Debit \<Rightarrow> trl_translated_amount l
                        | Credit \<Rightarrow> - trl_translated_amount l)
       (filter (\<lambda>l. trl_account_type l = BsMonetary \<or> trl_account_type l = BsNonMonetary) (tr_lines t)))"

definition entity_net_assets :: "'d::linordered_field TranslatedTb list \<Rightarrow> (string \<times> 'd) list" where
  "entity_net_assets ts = bt_collect (map (\<lambda>t. (tr_entity_code t, net_assets t)) ts)"

definition allocated_goodwill :: "'d::linordered_field CguPlan \<Rightarrow> string \<Rightarrow> 'd" where
  "allocated_goodwill plan cgu_id =
     sum_list (map gw_goodwill_amount (filter (\<lambda>a. gw_cgu_id a = cgu_id) (cp_goodwill_allocations plan)))"

definition other_carrying ::
    "(string \<times> 'd::linordered_field) list \<Rightarrow> 'd \<Rightarrow> CashGeneratingUnit \<Rightarrow> 'd CguTestInputs \<Rightarrow> 'd" where
  "other_carrying assets goodwill cgu i =
     (case ti_other_carrying i of
        Some c \<Rightarrow> c
      | None \<Rightarrow>
          max (sum_list (map (\<lambda>e. case map_of assets e of None \<Rightarrow> 0 | Some x \<Rightarrow> x)
                 (cu_member_entity_codes cgu)) - goodwill) 0)"

text \<open>Fair value less costs, and value in use.\<close>

definition recoverable_estimates ::
    "'d::linordered_field \<Rightarrow> 'd CguTestInputs \<Rightarrow> ('d CguMessage GroupError, 'd \<times> 'd) result" where
  "recoverable_estimates carrying i =
     (case ti_recoverable_ratio i of
        Some ratio \<Rightarrow>
          if ratio < 0 then Inl (AggregateError (NegativeRecoverableRatio (ti_cgu_id i) ratio))
          else Inr (carrying * ratio, carrying * ratio)
      | None \<Rightarrow>
          (case ti_fair_value_less_costs i of
             None \<Rightarrow> Inl (AggregateError (FairValueMissing (ti_cgu_id i)))
           | Some fvlc \<Rightarrow>
               (case ti_value_in_use i of
                  None \<Rightarrow> Inl (AggregateError (ValueInUseMissing (ti_cgu_id i)))
                | Some viu \<Rightarrow>
                    if fvlc < 0
                    then Inl (AggregateError (NegativeEstimate (ti_cgu_id i) ''fair_value_less_costs'' fvlc))
                    else if viu < 0
                    then Inl (AggregateError (NegativeEstimate (ti_cgu_id i) ''value_in_use'' viu))
                    else Inr (fvlc, viu))))"

definition run_one_test ::
    "'d::linordered_field CguPlan \<Rightarrow> (string \<times> 'd) list \<Rightarrow> naive_date \<Rightarrow> string \<Rightarrow> 'd CguTestInputs
     \<Rightarrow> ('d CguMessage GroupError, 'd CguImpairmentResult) result" where
  "run_one_test plan assets test_date cur i =
     (case List.find (\<lambda>c. cu_cgu_id c = ti_cgu_id i) (cp_cgus plan) of
        None \<Rightarrow> Inl (AggregateError (CguNotInPlan (ti_cgu_id i)))
      | Some cgu \<Rightarrow>
          (let goodwill = allocated_goodwill plan (ti_cgu_id i);
               other = other_carrying assets goodwill cgu i
           in if other < 0 then Inl (AggregateError (NegativeOtherCarrying (ti_cgu_id i) other))
              else try_bind (recoverable_estimates (goodwill + other) i) (\<lambda>(fvlc, viu).
                Inr (run_impairment_test
                  \<lparr>ct_cgu_id = ti_cgu_id i, ct_test_date = test_date, ct_allocated_goodwill = goodwill,
                   ct_other_carrying = other, ct_fair_value_less_costs = fvlc, ct_value_in_use = viu,
                   ct_currency = cur\<rparr>))))"

definition run_cgu_impairment_tests ::
    "'d::linordered_field CguPlan \<Rightarrow> 'd CguTestInputs list \<Rightarrow> (string \<times> 'd) list \<Rightarrow> naive_date \<Rightarrow> string
     \<Rightarrow> ('d CguMessage GroupError, 'd CguImpairmentResult list) result" where
  "run_cgu_impairment_tests plan inputs assets test_date cur =
     (if inputs = [] then Inr []
      else try_bind (try_map (run_one_test plan assets test_date cur) inputs) (\<lambda>results.
             Inr (sort_key cr_cgu_id results)))"

section \<open>The plan is sound\<close>

lemma find_SomeD: "List.find P xs = Some x \<Longrightarrow> x \<in> set xs \<and> P x"
  by (auto simp: find_Some_iff)

lemma check_cgus_Inr:
  "check_cgus ec seen cs = Inr s \<longleftrightarrow>
     distinct (map ce_cgu_id cs) \<and> ce_cgu_id ` set cs \<inter> seen = {}
     \<and> (\<forall>c \<in> set cs. ce_member_entity_codes c \<noteq> [] \<and> set (ce_member_entity_codes c) \<subseteq> ec)
     \<and> s = seen \<union> ce_cgu_id ` set cs"
  by (induction cs arbitrary: seen) (auto simp: find_None_iff split: option.splits dest!: find_SomeD)

lemma lift_cgu_simps [simp]:
  "cu_cgu_id (lift_cgu c) = ce_cgu_id c" "cu_member_entity_codes (lift_cgu c) = ce_member_entity_codes c"
  by (simp_all add: lift_cgu_def new_cgu_def with_segment_def Let_def split: option.split)

definition plan_ok :: "string set \<Rightarrow> 'd::linordered_field CguPlan \<Rightarrow> bool" where
  "plan_ok entity_codes plan \<longleftrightarrow>
     distinct (map cu_cgu_id (cp_cgus plan)) \<and> sorted (map cu_cgu_id (cp_cgus plan))
     \<and> (\<forall>c \<in> set (cp_cgus plan). cu_member_entity_codes c \<noteq> [] \<and> set (cu_member_entity_codes c) \<subseteq> entity_codes)
     \<and> (\<forall>a \<in> set (cp_goodwill_allocations plan). gw_cgu_id a \<in> cu_cgu_id ` set (cp_cgus plan) \<and> 0 \<le> gw_goodwill_amount a)"

lemma built_plan_ok:
  assumes "build_cgu_plan cfg entities = Inr plan"
  shows "plan_ok (set (map xe_code entities)) plan"
proof -
  have distinct_sorted: "distinct (map f (sort_key f xs)) \<longleftrightarrow> distinct (map f xs)" for f :: "'x \<Rightarrow> string" and xs
    by (metis distinct_sort distinct_map set_sort)
  have allocs: "list_all2 (\<lambda>a u. check_allocation seen a = Inr u) as us \<Longrightarrow>
      \<forall>a \<in> set as. ga_cgu_id a \<in> seen \<and> 0 \<le> ga_goodwill_amount a" for seen and as :: "'a CguGoodwillAllocationEntry list" and us
    by (induction rule: list_all2_induct) (auto simp: check_allocation_def split: if_splits)
  show ?thesis
  proof (cases "cc_cgus cfg = [] \<and> cc_goodwill_allocations cfg = []")
    case True
    with assms show ?thesis by (auto simp: build_cgu_plan_def plan_ok_def)
  next
    case False
    then obtain seen us where s: "check_cgus (set (map xe_code entities)) {} (cc_cgus cfg)
           = (Inr seen :: ('a CguMessage GroupError, string set) result)"
        "try_map (check_allocation seen) (cc_goodwill_allocations cfg) = Inr us"
        "cp_cgus plan = sort_key cu_cgu_id (map lift_cgu (cc_cgus cfg))"
        "set (cp_goodwill_allocations plan) = lift_allocation ` set (cc_goodwill_allocations cfg)"
      using assms by (auto simp: build_cgu_plan_def result_simps)
    have "distinct (map cu_cgu_id (map lift_cgu (cc_cgus cfg)))"
      using s(1) by (simp add: check_cgus_Inr comp_def)
    then show ?thesis
      using s(1) allocs[OF s(2)[unfolded try_map_Inr_iff]]
      by (auto simp: plan_ok_def s(3,4) distinct_sorted check_cgus_Inr lift_allocation_def image_image)
  qed
qed

lemma goodwill_nonneg: "plan_ok ec plan \<Longrightarrow> 0 \<le> allocated_goodwill plan cgu_id"
  by (auto simp: plan_ok_def allocated_goodwill_def intro!: sum_list_nonneg)

section \<open>The tests\<close>

definition estimates_ok :: "'d::linordered_field CguTestInputs \<Rightarrow> bool" where
  "estimates_ok i \<longleftrightarrow>
     (case ti_recoverable_ratio i of
        Some ratio \<Rightarrow> 0 \<le> ratio
      | None \<Rightarrow> (case (ti_fair_value_less_costs i, ti_value_in_use i) of
                   (Some fvlc, Some viu) \<Rightarrow> 0 \<le> fvlc \<and> 0 \<le> viu
                 | _ \<Rightarrow> False))"

definition test_input_ok :: "'d::linordered_field CguPlan \<Rightarrow> 'd CguTestInputs \<Rightarrow> bool" where
  "test_input_ok plan i \<longleftrightarrow>
     ti_cgu_id i \<in> cu_cgu_id ` set (cp_cgus plan)
     \<and> (case ti_other_carrying i of None \<Rightarrow> True | Some c \<Rightarrow> 0 \<le> c) \<and> estimates_ok i"

text \<open>The loss brings the unit down to its recoverable amount, goodwill first.\<close>

definition loss_ok :: "'d::linordered_field CguPlan \<Rightarrow> 'd CguImpairmentResult \<Rightarrow> bool" where
  "loss_ok plan r \<longleftrightarrow>
     cr_impairment_loss_total r = cr_impairment_loss_to_goodwill r + cr_impairment_loss_to_other_assets r
     \<and> cr_carrying_total r - cr_impairment_loss_total r = min (cr_carrying_total r) (cr_recoverable_amount r)
     \<and> 0 \<le> cr_impairment_loss_to_goodwill r
     \<and> cr_impairment_loss_to_goodwill r \<le> allocated_goodwill plan (cr_cgu_id r)
     \<and> 0 \<le> cr_impairment_loss_to_other_assets r
     \<and> cr_impairment_loss_to_other_assets r \<le> cr_carrying_total r - allocated_goodwill plan (cr_cgu_id r)
     \<and> (0 < cr_impairment_loss_to_other_assets r \<longrightarrow>
          cr_impairment_loss_to_goodwill r = allocated_goodwill plan (cr_cgu_id r))"

lemma estimates_Inr:
  "is_ok (recoverable_estimates carrying i) \<longleftrightarrow> estimates_ok i"
  "0 \<le> carrying \<Longrightarrow> recoverable_estimates carrying i = Inr (f, v) \<Longrightarrow> 0 \<le> f \<and> 0 \<le> v"
  by (auto simp: recoverable_estimates_def estimates_ok_def is_ok_def split: option.splits if_splits)

lemma run_test_loss:
  fixes t :: "'d::linordered_field CguImpairmentTest"
  assumes "0 \<le> ct_allocated_goodwill t" "0 \<le> ct_other_carrying t"
    and "0 \<le> ct_fair_value_less_costs t" "ct_allocated_goodwill t = allocated_goodwill plan (ct_cgu_id t)"
  shows "loss_ok plan (run_impairment_test t)"
proof -
  have "0 \<le> max (ct_fair_value_less_costs t) (ct_value_in_use t)" using assms(3) by (simp add: le_max_iff_disj)
  then show ?thesis
    using assms(1,2) unfolding loss_ok_def run_impairment_test_def Let_def assms(4)[symmetric]
    by (auto simp: min_def max_def assms(4)[symmetric] split: if_splits)
qed

lemma other_nonneg:
  "\<not> other_carrying assets g c i < 0 \<longleftrightarrow> (case ti_other_carrying i of None \<Rightarrow> True | Some c \<Rightarrow> 0 \<le> c)"
  by (auto simp: other_carrying_def not_less split: option.split)

lemma run_one_test_spec:
  assumes "plan_ok ec plan"
  shows "is_ok (run_one_test plan assets d cur i) \<longleftrightarrow> test_input_ok plan i"
    and "run_one_test plan assets d cur i = Inr r \<Longrightarrow> cr_cgu_id r = ti_cgu_id i \<and> loss_ok plan r"
proof -
  show "is_ok (run_one_test plan assets d cur i) \<longleftrightarrow> test_input_ok plan i"
  proof (cases "List.find (\<lambda>c. cu_cgu_id c = ti_cgu_id i) (cp_cgus plan)")
    case None
    then have "ti_cgu_id i \<notin> cu_cgu_id ` set (cp_cgus plan)" by (auto simp: find_None_iff)
    with None show ?thesis by (simp add: run_one_test_def test_input_ok_def del: find_None_iff)
  next
    case (Some c)
    let ?g = "allocated_goodwill plan (ti_cgu_id i)"
    let ?o = "other_carrying assets ?g c i"
    have "ti_cgu_id i \<in> cu_cgu_id ` set (cp_cgus plan)"
      using find_SomeD[OF Some] by force
    then show ?thesis
      using other_nonneg[of assets ?g c i] estimates_Inr(1)[of "?g + ?o" i]
      by (cases "recoverable_estimates (?g + ?o) i")
        (auto simp: run_one_test_def Some test_input_ok_def Let_def is_ok_def split_beta)
  qed
next
  assume r: "run_one_test plan assets d cur i = Inr r"
  let ?g = "allocated_goodwill plan (ti_cgu_id i)"
  obtain c f v where s: "\<not> other_carrying assets ?g c i < 0"
      "recoverable_estimates (?g + other_carrying assets ?g c i) i = Inr (f, v)"
      "r = run_impairment_test \<lparr>ct_cgu_id = ti_cgu_id i, ct_test_date = d, ct_allocated_goodwill = ?g,
             ct_other_carrying = other_carrying assets ?g c i, ct_fair_value_less_costs = f, ct_value_in_use = v,
             ct_currency = cur\<rparr>"
    using r by (auto simp: run_one_test_def Let_def result_simps split: option.splits if_splits)
  have g: "0 \<le> ?g" using assms by (rule goodwill_nonneg)
  moreover have "0 \<le> f" using s(1) g estimates_Inr(2)[OF _ s(2)] by (simp add: not_less)
  ultimately have "loss_ok plan r"
    unfolding s(3) using s(1) by (intro run_test_loss) (simp_all add: not_less)
  moreover have "cr_cgu_id r = ti_cgu_id i" by (simp add: s(3) run_impairment_test_def Let_def)
  ultimately show "cr_cgu_id r = ti_cgu_id i \<and> loss_ok plan r" by simp
qed

lemma try_map_ok_iff: "is_ok (try_map f xs) \<longleftrightarrow> list_all (\<lambda>x. is_ok (f x)) xs"
proof (induction xs)
  case (Cons x xs)
  then show ?case by (cases "f x"; cases "try_map f xs") (auto simp: is_ok_def)
qed (simp add: is_ok_def)


section \<open>Concrete instances\<close>

definition sample_cgu_config :: "rat CguConfig" where
  "sample_cgu_config =
     \<lparr>cc_cgus = [\<lparr>ce_cgu_id = ''U'', ce_name = ''unit'', ce_member_entity_codes = [''B''], ce_segment_code = None\<rparr>],
      cc_goodwill_allocations = [\<lparr>ga_cgu_id = ''U'', ga_business_combination_id = ''BC'',
        ga_goodwill_amount = 10, ga_allocation_date = 0\<rparr>]\<rparr>"

definition sample_test_input :: "rat CguTestInputs" where
  "sample_test_input =
     \<lparr>ti_cgu_id = ''U'', ti_other_carrying = None, ti_fair_value_less_costs = Some 70, ti_value_in_use = Some 80,
      ti_recoverable_ratio = None\<rparr>"


end
