(* ===== verification/Driver.thy ===== *)
theory Driver
  imports Statements Impairment
begin

text \<open>
  Model of \<^verbatim>\<open>crates/datasynth-group/src/aggregate/driver.rs\<close> with \<^verbatim>\<open>tb_loader.rs\<close>: the run that
  consolidates one period, from the archives of the entities to the financial statements, and the
  chain of periods in which each one opens with the records of the one before. The walk over the
  entities is modelled twice, in one pass as the driver runs it (\<open>walk_aggregate_streaming\<close>) and in
  the separate passes it replaced (\<open>walk_entity_archives\<close>, \<open>translate_all_contributing\<close>). An archive
  or the directory of a prior period is a record of what its files hold; the network of journal
  entries, the notes and the writing of files are left out.
\<close>

section \<open>Inputs\<close>

text \<open>The parameters of the parts: the environment of the matcher, of the eliminations and of their
  conversion, the time of generation and the rounding to cents.\<close>

record ('ts, 'd) driver_env =
  dv_group :: "'d group_env"
  dv_elim :: "'ts elim_env"
  dv_now :: 'ts
  dv_conversion :: "(naive_date, 'ts) conversion_env"
  dv_round :: "'d \<Rightarrow> 'd"

text \<open>The plans of the manifest that the driver reads; the others are one field.\<close>

record ('d, 'y) AggregatePlans =
  ap_chart_of_accounts_master :: ChartOfAccountsMaster
  ap_fx_rate_master :: "'d FxRateMaster"
  ap_cgu_plan :: "'d CguPlan"
  ap_others :: 'y

type_synonym ('f, 'd, 'y) aggregate_manifest = "('f, 'd, ('d, 'y) AggregatePlans) GroupManifest"

text \<open>The archive of an entity: \<open>None\<close> for a file that does not exist, and for the last two also for
  one that cannot be read. A business combination is the pair of its acquiree and its fair value.\<close>

record ('ts, 'd, 'wf) shard_archive =
  sh_trial_balances :: "(naive_date, 'ts, 'd) TrialBalance list option"
  sh_journal_entries :: "(naive_date, 'ts, 'd, 'wf) JournalEntry list option"
  sh_business_combinations :: "(string option \<times> 'd option) list option"
  sh_ownership_change_events :: "'d OwnershipChangeEvent list option"

text \<open>The records in the directory of the prior period.\<close>

record 'd prior_period =
  pp_nci_rollforward :: "'d NciRollforward list option"
  pp_equity_method_investments :: "'d EquityMethodInvestment list option"
  pp_cta_rollforward :: "'d CtaRollforward list option"

record 'd AggregateOptions =
  ao_prior_period_aggregate :: "'d prior_period option"
  ao_tolerate_missing_shards :: bool
  ao_cgu_test_inputs :: "'d CguTestInputs list"
  ao_cpi_series_by_currency :: "(string \<times> 'd GeneralPriceIndex) list"

datatype 'd DriverMessage =
    MissingShard string
  | EmptyTrialBalances
  | EntityNotInGraph string
  | NoTranslatedTb string
  | FromConsolidation ConsolidationMessage
  | FromTranslation TranslationMessage
  | FromMatcher MatchMessage
  | FromElimination "'d EliminationMessage"
  | FromInvestment InvestmentMessage
  | FromOpening OpeningMessage
  | FromImpairment "'d CguMessage"

definition lift_error ::
    "('m \<Rightarrow> 'n) \<Rightarrow> ('m GroupError, 'a) result \<Rightarrow> ('n GroupError, 'a) result" where
  "lift_error f r = (case r of Inl e \<Rightarrow> Inl (map_GroupError f e) | Inr x \<Rightarrow> Inr x)"

section \<open>Reading an entity\<close>

text \<open>\<^verbatim>\<open>max_by_key\<close> returns the last of the greatest elements.\<close>

definition max_by_key :: "('a \<Rightarrow> 'k::linorder) \<Rightarrow> 'a \<Rightarrow> 'a list \<Rightarrow> 'a" where
  "max_by_key key x xs = foldl (\<lambda>best y. if key best \<le> key y then y else best) x xs"

text \<open>The imbalance of the trial balance is only logged.\<close>

definition load_entity_trial_balance ::
    "(naive_date, 'ts, 'd) TrialBalance list
     \<Rightarrow> ('m DriverMessage GroupError, (naive_date, 'ts, 'd) TrialBalance) result" where
  "load_entity_trial_balance tbs =
     (case tbs of
        [] \<Rightarrow> Inl (AggregateError EmptyTrialBalances)
      | tb # rest \<Rightarrow>
          Inr (max_by_key (\<lambda>tb. (sint (tb_fiscal_year tb), unat (tb_fiscal_period tb))) tb rest))"

definition load_entity_journal_entries ::
    "('ts, 'd, 'wf) shard_archive \<Rightarrow> (naive_date, 'ts, 'd, 'wf) JournalEntry list" where
  "load_entity_journal_entries sh = (case sh_journal_entries sh of None \<Rightarrow> [] | Some jes \<Rightarrow> jes)"

text \<open>The entries that survive the streamed parse: those of an intercompany pair.\<close>

definition stream_ic_entries ::
    "('ts, 'd, 'wf) shard_archive \<Rightarrow> (naive_date, 'ts, 'd, 'wf) JournalEntry list" where
  "stream_ic_entries sh =
     filter (\<lambda>je. ic_pair_id (header je) \<noteq> None) (load_entity_journal_entries sh)"

definition entity_lookup :: "('f, 'd, 'x) GroupManifest \<Rightarrow> (string \<times> 'd ManifestEntity) list" where
  "entity_lookup m = bt_collect (map (\<lambda>e. (me_code e, e)) (og_entities (gm_ownership_graph m)))"

definition translate_one_entity ::
    "('ts, 'd) driver_env \<Rightarrow> (naive_date, 'ts, 'd::linordered_field) TrialBalance \<Rightarrow> 'd ManifestEntity
     \<Rightarrow> ('f, 'd, 'y) aggregate_manifest \<Rightarrow> AccountingFramework
     \<Rightarrow> (string \<times> 'd GeneralPriceIndex) list option \<Rightarrow> (TranslationMessage GroupError, 'd TranslatedTb) result" where
  "translate_one_entity env tb e m framework cpi =
     (let master = ap_fx_rate_master (gm_other_plans m);
          p_end = mp_end (gm_period m);
          pres = gm_presentation_currency m
      in case select_restatement_path (dec_div (dv_group env)) (me_hyperinflation_status e)
                (me_functional_currency e) cpi (mp_start (gm_period m)) p_end of
           IndexedPath ir \<Rightarrow>
             translate_entity_tb_with_indexed_restatement (dv_round env) (dec_div (dv_group env)) tb
               (me_functional_currency e) master p_end pres framework (me_hyperinflation_status e) (Some ir)
         | _ \<Rightarrow>
             translate_entity_tb_with_hyperinflation (dv_round env) (dec_div (dv_group env)) tb
               (me_functional_currency e) master p_end pres framework (me_hyperinflation_status e))"

definition cpi_option :: "(string \<times> 'd GeneralPriceIndex) list \<Rightarrow> (string \<times> 'd GeneralPriceIndex) list option" where
  "cpi_option cpi = (if cpi = [] then None else Some cpi)"

section \<open>The walk in one pass\<close>

record ('ts, 'd, 'wf) StreamingWalkOutcome =
  so_pre_elim :: "'d AggregatedTb"
  so_translated_tbs :: "'d TranslatedTb list"
  so_entity_contributions :: "'d contributions"
  so_deferred_tbs :: "(string \<times> (naive_date, 'ts, 'd) TrialBalance) list"
  so_ic_journal_entries :: "(string \<times> (naive_date, 'ts, 'd, 'wf) JournalEntry list) list"
  so_entities_missing :: "string list"

text \<open>One turn of the loop over the entities; the network of the journal entries that is written on
  the way is left out.\<close>

definition streaming_step ::
    "('ts, 'd::linordered_field) driver_env \<Rightarrow> ('f, 'd, 'y) aggregate_manifest \<Rightarrow> (string \<Rightarrow> ('ts, 'd, 'wf) shard_archive)
     \<Rightarrow> AccountingFramework \<Rightarrow> (string \<times> 'd GeneralPriceIndex) list option \<Rightarrow> bool
     \<Rightarrow> 'd ManifestEntity \<Rightarrow> ('ts, 'd, 'wf) StreamingWalkOutcome
     \<Rightarrow> ('d DriverMessage GroupError, ('ts, 'd, 'wf) StreamingWalkOutcome) result" where
  "streaming_step env m shards framework cpi tolerate e s =
     (case sh_trial_balances (shards (me_code e)) of
        None \<Rightarrow>
          if tolerate then Inr (s\<lparr>so_entities_missing := so_entities_missing s @ [me_code e]\<rparr>)
          else Inl (AggregateError (MissingShard (me_code e)))
      | Some file \<Rightarrow>
          try_bind (load_entity_trial_balance file) (\<lambda>tb.
          if me_consolidation_method e = Parent \<or> me_consolidation_method e = Full
          then try_bind (lift_error FromConsolidation
                  (accumulate_entity_into_aggregate (so_pre_elim s) m (me_code e) tb)) (\<lambda>pre.
               case map_of (entity_lookup m) (me_code e) of
                 None \<Rightarrow> Inl (AggregateError (EntityNotInGraph (me_code e)))
               | Some meta \<Rightarrow>
                   try_bind (lift_error FromTranslation (translate_one_entity env tb meta m framework cpi)) (\<lambda>t.
                   Inr (s\<lparr>so_pre_elim := pre,
                          so_entity_contributions := contribute_tb (so_entity_contributions s) (me_code e, tb),
                          so_translated_tbs := so_translated_tbs s @ [t],
                          so_ic_journal_entries :=
                            so_ic_journal_entries s @ [(me_code e, stream_ic_entries (shards (me_code e)))]\<rparr>)))
          else try_bind (lift_error FromConsolidation
                  (accumulate_entity_into_aggregate (so_pre_elim s) m (me_code e) tb)) (\<lambda>pre.
               Inr (s\<lparr>so_pre_elim := pre, so_deferred_tbs := so_deferred_tbs s @ [(me_code e, tb)]\<rparr>))))"

fun try_fold :: "('x \<Rightarrow> 's \<Rightarrow> ('e, 's) result) \<Rightarrow> 'x list \<Rightarrow> 's \<Rightarrow> ('e, 's) result" where
  "try_fold f [] s = Inr s"
| "try_fold f (x # xs) s = try_bind (f x s) (try_fold f xs)"

definition walk_aggregate_streaming ::
    "('ts, 'd::linordered_field) driver_env \<Rightarrow> ('f, 'd, 'y) aggregate_manifest \<Rightarrow> (string \<Rightarrow> ('ts, 'd, 'wf) shard_archive)
     \<Rightarrow> AccountingFramework \<Rightarrow> (string \<times> 'd GeneralPriceIndex) list \<Rightarrow> bool
     \<Rightarrow> ('d DriverMessage GroupError, ('ts, 'd, 'wf) StreamingWalkOutcome) result" where
  "walk_aggregate_streaming env m shards framework cpi tolerate =
     try_bind (try_fold (streaming_step env m shards framework (cpi_option cpi) tolerate)
         (og_entities (gm_ownership_graph m))
         \<lparr>so_pre_elim = empty_aggregate m, so_translated_tbs = [], so_entity_contributions = [],
          so_deferred_tbs = [], so_ic_journal_entries = [], so_entities_missing = []\<rparr>) (\<lambda>s.
       Inr (s\<lparr>so_entities_missing := sort (so_entities_missing s),
              so_pre_elim := finalise_streaming_aggregate (so_pre_elim s)\<rparr>))"

section \<open>The walk in separate passes\<close>

record ('ts, 'd, 'wf) WalkOutcome =
  wo_contributing_tbs :: "(string \<times> (naive_date, 'ts, 'd) TrialBalance) list"
  wo_contributing_jes :: "(string \<times> (naive_date, 'ts, 'd, 'wf) JournalEntry list) list"
  wo_deferred_tbs :: "(string \<times> (naive_date, 'ts, 'd) TrialBalance) list"
  wo_entities_missing :: "string list"

definition archive_step ::
    "(string \<Rightarrow> ('ts, 'd, 'wf) shard_archive) \<Rightarrow> bool \<Rightarrow> 'd ManifestEntity \<Rightarrow> ('ts, 'd, 'wf) WalkOutcome
     \<Rightarrow> ('d DriverMessage GroupError, ('ts, 'd, 'wf) WalkOutcome) result" where
  "archive_step shards tolerate e w =
     (case sh_trial_balances (shards (me_code e)) of
        None \<Rightarrow>
          if tolerate then Inr (w\<lparr>wo_entities_missing := wo_entities_missing w @ [me_code e]\<rparr>)
          else Inl (AggregateError (MissingShard (me_code e)))
      | Some file \<Rightarrow>
          try_bind (load_entity_trial_balance file) (\<lambda>tb.
          let jes = load_entity_journal_entries (shards (me_code e))
          in if me_consolidation_method e = Parent \<or> me_consolidation_method e = Full
             then Inr (w\<lparr>wo_contributing_tbs := wo_contributing_tbs w @ [(me_code e, tb)],
                         wo_contributing_jes := wo_contributing_jes w @ [(me_code e, jes)]\<rparr>)
             else Inr (w\<lparr>wo_deferred_tbs := wo_deferred_tbs w @ [(me_code e, tb)]\<rparr>)))"

definition walk_entity_archives ::
    "('f, 'd, 'x) GroupManifest \<Rightarrow> (string \<Rightarrow> ('ts, 'd, 'wf) shard_archive) \<Rightarrow> bool
     \<Rightarrow> ('d DriverMessage GroupError, ('ts, 'd, 'wf) WalkOutcome) result" where
  "walk_entity_archives m shards tolerate =
     try_bind (try_fold (archive_step shards tolerate) (og_entities (gm_ownership_graph m))
         \<lparr>wo_contributing_tbs = [], wo_contributing_jes = [], wo_deferred_tbs = [], wo_entities_missing = []\<rparr>) (\<lambda>w.
       Inr (w\<lparr>wo_entities_missing := sort (wo_entities_missing w)\<rparr>))"

definition translate_contributing ::
    "('ts, 'd) driver_env \<Rightarrow> ('f, 'd::linordered_field, 'y) aggregate_manifest \<Rightarrow> AccountingFramework
     \<Rightarrow> (string \<times> 'd ManifestEntity) list \<Rightarrow> (string \<times> 'd GeneralPriceIndex) list option
     \<Rightarrow> string \<times> (naive_date, 'ts, 'd) TrialBalance \<Rightarrow> ('d DriverMessage GroupError, 'd TranslatedTb) result" where
  "translate_contributing env m framework lookup cpi ctb =
     (case map_of lookup (fst ctb) of
        None \<Rightarrow> Inl (AggregateError (EntityNotInGraph (fst ctb)))
      | Some meta \<Rightarrow> lift_error FromTranslation (translate_one_entity env (snd ctb) meta m framework cpi))"

definition translate_all_contributing ::
    "('ts, 'd) driver_env \<Rightarrow> (string \<times> (naive_date, 'ts, 'd::linordered_field) TrialBalance) list
     \<Rightarrow> ('f, 'd, 'y) aggregate_manifest \<Rightarrow> AccountingFramework \<Rightarrow> (string \<times> 'd ManifestEntity) list
     \<Rightarrow> (string \<times> 'd GeneralPriceIndex) list \<Rightarrow> ('d DriverMessage GroupError, 'd TranslatedTb list) result" where
  "translate_all_contributing env tbs m framework lookup cpi =
     try_map (translate_contributing env m framework lookup (cpi_option cpi)) tbs"

section \<open>Rollforwards\<close>

definition prior_file :: "('d prior_period \<Rightarrow> 'r list option) \<Rightarrow> 'd prior_period option \<Rightarrow> 'r list option" where
  "prior_file file prior = Option.bind prior file"

definition ingest_opening_cta_balances ::
    "'d prior_period option \<Rightarrow> (OpeningMessage GroupError, (string \<times> 'd) list) result" where
  "ingest_opening_cta_balances prior =
     (case prior_file pp_cta_rollforward prior of
        None \<Rightarrow> Inr []
      | Some rolls \<Rightarrow> ingest_opening (map (\<lambda>r. (cr_entity_code r, cr_closing_cta r)) rolls) [])"

definition amount_or_zero :: "(string \<times> 'd::zero) list \<Rightarrow> string \<Rightarrow> 'd" where
  "amount_or_zero m code = (case map_of m code of None \<Rightarrow> 0 | Some x \<Rightarrow> x)"

definition build_cta_rollforwards ::
    "'d::linordered_field TranslatedTb list \<Rightarrow> string \<Rightarrow> 'd prior_period option
     \<Rightarrow> (OpeningMessage GroupError, 'd CtaRollforward list) result" where
  "build_cta_rollforwards ts pres prior =
     try_bind (ingest_opening_cta_balances prior) (\<lambda>opening_map.
       Inr (map (\<lambda>t. cta_rollforward (tr_entity_code t) (tr_functional_currency t) (tr_presentation_currency t)
                      (amount_or_zero opening_map (tr_entity_code t)) (tr_cta t))
             (filter (\<lambda>t. tr_functional_currency t \<noteq> pres) ts)))"

text \<open>The first fair value of an acquiree wins.\<close>

definition record_fair_value ::
    "(string \<times> 'd) list \<Rightarrow> string option \<times> 'd option \<Rightarrow> (string \<times> 'd) list" where
  "record_fair_value m bc =
     (case bc of
        (Some acquiree, Some fv) \<Rightarrow> if map_of m acquiree = None then bt_insert acquiree fv m else m
      | _ \<Rightarrow> m)"

definition ingest_acquisition_date_nci_fair_values ::
    "('f, 'd, 'x) GroupManifest \<Rightarrow> (string \<Rightarrow> ('ts, 'd, 'wf) shard_archive) \<Rightarrow> (string \<times> 'd) list" where
  "ingest_acquisition_date_nci_fair_values m shards =
     foldl (\<lambda>acc e. case sh_business_combinations (shards (me_code e)) of
                      None \<Rightarrow> acc
                    | Some bcs \<Rightarrow> foldl record_fair_value acc bcs) [] (og_entities (gm_ownership_graph m))"

definition ingest_ownership_change_events ::
    "('f, 'd, 'x) GroupManifest \<Rightarrow> (string \<Rightarrow> ('ts, 'd, 'wf) shard_archive)
     \<Rightarrow> (string \<times> 'd OwnershipChangeEvent list) list" where
  "ingest_ownership_change_events m shards =
     foldl (\<lambda>acc e. case sh_ownership_change_events (shards (me_code e)) of
                      None \<Rightarrow> acc
                    | Some evs \<Rightarrow> if evs = [] then acc else bt_insert (me_code e) evs acc)
       [] (og_entities (gm_ownership_graph m))"

text \<open>Debits positive, credits negative.\<close>

definition signed_translated :: "'d::linordered_field TranslatedLine \<Rightarrow> 'd" where
  "signed_translated l =
     (case trl_local_dr_cr l of Debit \<Rightarrow> trl_translated_amount l | Credit \<Rightarrow> - trl_translated_amount l)"

definition net_income_from_translated :: "'d::linordered_field TranslatedTb \<Rightarrow> 'd" where
  "net_income_from_translated t =
     foldl (\<lambda>net l. case trl_account_type l of
                      PlRevenue \<Rightarrow> net - signed_translated l
                    | PlExpense \<Rightarrow> net - signed_translated l
                    | _ \<Rightarrow> net) 0 (tr_lines t)"

definition oci_from_translated :: "'d::linordered_field TranslatedTb \<Rightarrow> 'd" where
  "oci_from_translated t =
     foldl (\<lambda>oci l. if trl_account_type l = PlOci then oci - signed_translated l else oci) 0 (tr_lines t)"

definition net_income_from_tb ::
    "(naive_date, 'ts, 'd::linordered_field) TrialBalance \<Rightarrow> AccountingFramework \<Rightarrow> 'd" where
  "net_income_from_tb tb framework =
     foldl (\<lambda>net l. case classify_account (tl_account_code l) framework of
                      PlRevenue \<Rightarrow> net + (tl_credit_balance l - tl_debit_balance l)
                    | PlExpense \<Rightarrow> net - (tl_debit_balance l - tl_credit_balance l)
                    | _ \<Rightarrow> net) 0 (tb_lines tb)"

definition DIVIDENDS_PAID :: string where "DIVIDENDS_PAID = ''3700''"

definition dividends_from_tb :: "(naive_date, 'ts, 'd::linordered_field) TrialBalance \<Rightarrow> 'd" where
  "dividends_from_tb tb =
     foldl (\<lambda>acc l. acc + (tl_debit_balance l - tl_credit_balance l)) 0
       (filter (\<lambda>l. tl_account_code l = DIVIDENDS_PAID) (tb_lines tb))"

text \<open>Full subsidiaries that are not wholly owned. The period starts at its own end.\<close>

definition has_minority :: "'d::linordered_field ManifestEntity \<Rightarrow> bool" where
  "has_minority e \<longleftrightarrow>
     me_consolidation_method e = Full
     \<and> (case me_ownership_percent e of None \<Rightarrow> False | Some own \<Rightarrow> own < 1)"

definition nci_of_entity ::
    "('ts, 'd) driver_env \<Rightarrow> ('f, 'd, 'x) GroupManifest \<Rightarrow> (string \<times> 'd TranslatedTb) list
     \<Rightarrow> (string \<times> 'd) list \<Rightarrow> (string \<times> 'd) list \<Rightarrow> (string \<times> 'd OwnershipChangeEvent list) list
     \<Rightarrow> 'd::linordered_field ManifestEntity \<Rightarrow> ('d DriverMessage GroupError, 'd NciRollforward) result" where
  "nci_of_entity env m translated opening_map acquisitions changes e =
     (case map_of translated (me_code e) of
        None \<Rightarrow> Inl (AggregateError (NoTranslatedTb (me_code e)))
      | Some t \<Rightarrow>
          lift_error FromInvestment (compute_nci_rollforward (dv_round env) (dec_div (dv_group env))
            \<lparr>ni_entity = e, ni_period_net_income = net_income_from_translated t,
             ni_period_oci = oci_from_translated t, ni_total_dividends_paid = 0,
             ni_opening_nci = amount_or_zero opening_map (me_code e),
             ni_acquisition_date_nci_fair_value = map_of acquisitions (me_code e),
             ni_ownership_changes = get_or_empty changes (me_code e),
             ni_period_start = mp_end (gm_period m), ni_period_end = mp_end (gm_period m),
             ni_currency = gm_presentation_currency m\<rparr>))"

definition build_nci_rollforwards ::
    "('ts, 'd) driver_env \<Rightarrow> ('f, 'd, 'x) GroupManifest \<Rightarrow> 'd TranslatedTb list \<Rightarrow> 'd prior_period option
     \<Rightarrow> (string \<times> 'd) list \<Rightarrow> (string \<times> 'd OwnershipChangeEvent list) list
     \<Rightarrow> ('d::linordered_field DriverMessage GroupError, 'd NciRollforward list) result" where
  "build_nci_rollforwards env m ts prior acquisitions changes =
     try_bind (lift_error FromOpening (ingest_opening_nci_balances (prior_file pp_nci_rollforward prior))) (\<lambda>opening_map.
       try_map (nci_of_entity env m (bt_collect (map (\<lambda>t. (tr_entity_code t, t)) ts)) opening_map acquisitions changes)
         (filter has_minority (og_entities (gm_ownership_graph m))))"

definition investment_of_entity ::
    "('ts, 'd) driver_env \<Rightarrow> ('f, 'd, 'x) GroupManifest \<Rightarrow> (string \<times> (naive_date, 'ts, 'd) TrialBalance) list
     \<Rightarrow> AccountingFramework \<Rightarrow> (string \<times> 'd) list \<Rightarrow> (string \<times> 'd) list
     \<Rightarrow> 'd::linordered_field ManifestEntity \<times> string \<Rightarrow> ('d DriverMessage GroupError, 'd EquityMethodInvestment) result" where
  "investment_of_entity env m deferred framework opening_map suppressed_map ep =
     (let (e, parent) = ep;
          (inc, dividends) = (case map_of deferred (me_code e) of
                                Some tb \<Rightarrow> (net_income_from_tb tb framework, dividends_from_tb tb)
                              | None \<Rightarrow> (0, 0))
      in lift_error FromInvestment (compute_equity_method_investment (dv_round env)
           \<lparr>ei_investee = e, ei_investor_entity_code = parent, ei_investee_net_income = inc,
            ei_investee_dividends_paid = dividends,
            ei_opening_carrying_value = amount_or_zero opening_map (me_code e),
            ei_opening_suppressed_loss = amount_or_zero suppressed_map (me_code e),
            ei_impairment = 0, ei_period_end = mp_end (gm_period m),
            ei_currency = gm_presentation_currency m\<rparr>))"

definition build_equity_method_investments ::
    "('ts, 'd) driver_env \<Rightarrow> ('f, 'd, 'x) GroupManifest \<Rightarrow> (string \<times> (naive_date, 'ts, 'd) TrialBalance) list
     \<Rightarrow> AccountingFramework \<Rightarrow> 'd prior_period option
     \<Rightarrow> ('d::linordered_field DriverMessage GroupError, 'd EquityMethodInvestment list) result" where
  "build_equity_method_investments env m deferred framework prior =
     try_bind (lift_error FromOpening
         (ingest_opening_equity_method_carrying_values (prior_file pp_equity_method_investments prior))) (\<lambda>opening_map.
     try_bind (lift_error FromOpening
         (ingest_opening_suppressed_losses (prior_file pp_equity_method_investments prior))) (\<lambda>suppressed_map.
       try_map (investment_of_entity env m (bt_collect deferred) framework opening_map suppressed_map)
         (List.map_filter (\<lambda>e. if me_consolidation_method e = EquityMethod
                               then map_option (Pair e) (me_parent_code e) else None)
           (og_entities (gm_ownership_graph m)))))"

definition resolve_primary_framework :: "('f, 'd, 'y) aggregate_manifest \<Rightarrow> AccountingFramework" where
  "resolve_primary_framework m =
     (let label = map ascii_lower (cm_primary_framework (ap_chart_of_accounts_master (gm_other_plans m))) in
      if label = ''ifrs'' then Ifrs
      else if label \<in> {''us_gaap'', ''usgaap'', ''us-gaap''} then UsGaap
      else if label \<in> {''dual_reporting'', ''dual''} then DualReporting
      else if label \<in> {''french_gaap'', ''frenchgaap'', ''pcg''} then FrenchGaap
      else if label \<in> {''german_gaap'', ''germangaap'', ''hgb''} then GermanGaap
      else UsGaap)"

section \<open>One period\<close>

text \<open>The summary leaves out the paths of the files.\<close>

record ('f, 'd) AggregateSummary =
  su_group_id :: string
  su_presentation_currency :: string
  su_as_of_date :: naive_date
  su_entities_processed :: "string list"
  su_entities_missing :: "string list"
  su_deferred_entities :: "string list"
  su_matched_pairs :: nat
  su_coverage :: 'f
  su_total_assets :: 'd
  su_total_liabilities :: 'd
  su_total_equity :: 'd
  su_total_nci :: 'd

record 'd ConsolidatedFinancialStatements =
  fs_balance_sheet :: "'d ConsolidatedBalanceSheet"
  fs_income_statement :: "'d ConsolidatedIncomeStatement"
  fs_cash_flow :: "'d ConsolidatedCashFlow"
  fs_changes_in_equity :: "'d StatementOfChangesInEquity"

text \<open>The files of a period, its summary, and the three trial balances that are not written.\<close>

record ('ts, 'f, 'd, 'wf) AggregateOutcome =
  oc_summary :: "('f, 'd) AggregateSummary"
  oc_coverage_report :: "('ts, 'f, 'd, 'wf) CoverageReport"
  oc_pre_elim :: "'d AggregatedTb"
  oc_post_elim :: "'d AggregatedTb"
  oc_post_overlay :: "'d AggregatedTb"
  oc_translated_tbs :: "'d TranslatedTb list"
  oc_cta_rollforward :: "'d CtaRollforward list"
  oc_nci_rollforward :: "'d NciRollforward list"
  oc_equity_method_investments :: "'d EquityMethodInvestment list"
  oc_statements :: "'d ConsolidatedFinancialStatements"
  oc_schedule :: "'d ConsolidationSchedule"
  oc_cgu_results :: "'d CguImpairmentResult list"

text \<open>Steps 4 to 8: the intercompany pairs are matched, eliminated and posted.\<close>

definition eliminate_intercompany ::
    "('ts, 'd::linordered_field) driver_env \<Rightarrow> ('f::linordered_field, 'd, 'y) aggregate_manifest
     \<Rightarrow> ('ts, 'd, 'wf) StreamingWalkOutcome
     \<Rightarrow> ('d DriverMessage GroupError, ('ts, 'f, 'd, 'wf) IcMatchResult \<times> 'd AggregatedTb) result" where
  "eliminate_intercompany env m w =
     try_bind (lift_error FromMatcher (match_ic_pairs (dv_group env) m (so_ic_journal_entries w))) (\<lambda>matched.
     try_bind (lift_error FromElimination
         (generate_eliminations (dv_group env) (dv_elim env) (dv_now env) (mr_matched matched) m)) (\<lambda>elim.
     let elim_jes = (eliminations_to_journal_entries (dv_conversion env) elim
                       :: (naive_date, 'ts, 'd, 'wf) JournalEntry list) in
     try_bind (lift_error FromConsolidation (apply_eliminations_to_tb (so_pre_elim w) elim_jes)) (\<lambda>post.
       Inr (matched, post))))"

text \<open>Step 15: the inputs that the driver does not derive are zero, and there are no prior balances.\<close>

definition consolidated_statements ::
    "('f, 'd, 'y) aggregate_manifest \<Rightarrow> 'd::linordered_field AggregatedTb \<Rightarrow> 'd CtaRollforward list
     \<Rightarrow> 'd NciRollforward list \<Rightarrow> 'd ConsolidatedFinancialStatements" where
  "consolidated_statements m post ctas ncis =
     (let master = ap_chart_of_accounts_master (gm_other_plans m);
          names = from_coa_master master (cm_primary_framework master);
          p_start = mp_start (gm_period m);
          p_end = mp_end (gm_period m);
          bs = build_consolidated_balance_sheet_with_names post (gm_group_id m) p_end names;
          inc = build_consolidated_income_statement_with_names post ncis (gm_group_id m) p_end names;
          cf = build_consolidated_cash_flow
                 \<lparr>ci_post_elim_tb_current = post, ci_post_elim_tb_prior = None,
                  ci_net_income = is_net_income inc, ci_depreciation_amortization = 0, ci_impairment = 0,
                  ci_capex = 0, ci_debt_issuance = 0, ci_debt_repayment = 0,
                  ci_dividends_paid_to_owners = 0, ci_dividends_paid_to_nci = 0, ci_equity_issuance = 0\<rparr>
                 (gm_group_id m) p_start p_end;
          eq = build_statement_of_changes_in_equity
                 \<lparr>ec_opening_owners_equity = 0,
                  ec_opening_nci = foldl (\<lambda>acc r. acc + nr_opening_nci r) 0 ncis,
                  ec_net_income_to_owners = is_net_income_to_owners inc,
                  ec_net_income_to_nci = is_net_income_to_nci inc,
                  ec_oci_to_owners = foldl (\<lambda>acc r. acc + cr_period_cta r) 0 ctas,
                  ec_oci_to_nci = foldl (\<lambda>acc r. acc + nr_nci_share_of_oci r) 0 ncis,
                  ec_dividends_to_owners = 0,
                  ec_dividends_to_nci = foldl (\<lambda>acc r. acc + nr_nci_dividends r) 0 ncis,
                  ec_other_owners = 0, ec_other_nci = 0\<rparr>
                 (gm_group_id m) p_start p_end (gm_presentation_currency m)
      in \<lparr>fs_balance_sheet = bs, fs_income_statement = inc, fs_cash_flow = cf, fs_changes_in_equity = eq\<rparr>)"

definition aggregate_summary ::
    "('f, 'd, 'y) aggregate_manifest \<Rightarrow> ('ts, 'd, 'wf) StreamingWalkOutcome
     \<Rightarrow> ('ts, 'f, 'd, 'wf) IcMatchResult \<Rightarrow> 'd ConsolidatedBalanceSheet \<Rightarrow> ('f, 'd) AggregateSummary" where
  "aggregate_summary m w matched bs =
     \<lparr>su_group_id = gm_group_id m, su_presentation_currency = gm_presentation_currency m,
      su_as_of_date = mp_end (gm_period m),
      su_entities_processed = remdups_adj
        (sort (ag_contributing_entities (so_pre_elim w) @ map fst (so_deferred_tbs w))),
      su_entities_missing = so_entities_missing w,
      su_deferred_entities = remdups_adj (sort (map fst (so_deferred_tbs w))),
      su_matched_pairs = length (mr_matched matched), su_coverage = mr_coverage matched,
      su_total_assets = bs_total_assets bs, su_total_liabilities = bs_total_liabilities bs,
      su_total_equity = bs_total_equity bs, su_total_nci = bs_total_nci bs\<rparr>"

definition run_aggregate ::
    "('ts, 'd::linordered_field) driver_env \<Rightarrow> ('f::linordered_field, 'd, 'y) aggregate_manifest
     \<Rightarrow> (string \<Rightarrow> ('ts, 'd, 'wf) shard_archive) \<Rightarrow> 'd AggregateOptions
     \<Rightarrow> ('d DriverMessage GroupError, ('ts, 'f, 'd, 'wf) AggregateOutcome) result" where
  "run_aggregate env m shards opts =
     (let framework = resolve_primary_framework m; prior = ao_prior_period_aggregate opts in
      try_bind (walk_aggregate_streaming env m shards framework (ao_cpi_series_by_currency opts)
          (ao_tolerate_missing_shards opts)) (\<lambda>w.
      try_bind (eliminate_intercompany env m w) (\<lambda>(matched, post_elim).
      try_bind (lift_error FromOpening
          (build_cta_rollforwards (so_translated_tbs w) (gm_presentation_currency m) prior)) (\<lambda>ctas.
      try_bind (build_nci_rollforwards env m (so_translated_tbs w) prior
          (ingest_acquisition_date_nci_fair_values m shards)
          (ingest_ownership_change_events m shards)) (\<lambda>ncis.
      try_bind (build_equity_method_investments env m (so_deferred_tbs w) framework prior) (\<lambda>invs.
      try_bind (lift_error FromConsolidation (apply_nci_and_equity_method post_elim ncis invs)) (\<lambda>post_overlay.
      let statements = consolidated_statements m post_overlay ctas ncis;
          sched = build_consolidation_schedule_with_contributions (so_pre_elim w) post_overlay
                    (so_entity_contributions w) (gm_group_id m) (mp_end (gm_period m)) in
      try_bind (lift_error FromImpairment
          (run_cgu_impairment_tests (ap_cgu_plan (gm_other_plans m)) (ao_cgu_test_inputs opts)
             (entity_net_assets (so_translated_tbs w)) (mp_end (gm_period m)) (gm_presentation_currency m))) (\<lambda>cgus.
        Inr \<lparr>oc_summary = aggregate_summary m w matched (fs_balance_sheet statements),
             oc_coverage_report = build_coverage_report matched, oc_pre_elim = so_pre_elim w,
             oc_post_elim = post_elim, oc_post_overlay = post_overlay,
             oc_translated_tbs = so_translated_tbs w, oc_cta_rollforward = ctas,
             oc_nci_rollforward = ncis, oc_equity_method_investments = invs,
             oc_statements = statements, oc_schedule = sched, oc_cgu_results = cgus\<rparr>))))))))"

section \<open>A chain of periods\<close>

record ('ts, 'f, 'd, 'y, 'wf) PeriodSpec =
  ps_manifest :: "('f, 'd, 'y) aggregate_manifest"
  ps_shards :: "string \<Rightarrow> ('ts, 'd, 'wf) shard_archive"
  ps_options :: "'d AggregateOptions"

text \<open>What the next period finds in the output directory of a period.\<close>

definition out_dir_records :: "('ts, 'f, 'd, 'wf) AggregateOutcome \<Rightarrow> 'd prior_period" where
  "out_dir_records r =
     \<lparr>pp_nci_rollforward = Some (oc_nci_rollforward r),
      pp_equity_method_investments = Some (oc_equity_method_investments r),
      pp_cta_rollforward = Some (oc_cta_rollforward r)\<rparr>"

fun chain_loop ::
    "('ts, 'd::linordered_field) driver_env \<Rightarrow> ('ts, 'f::linordered_field, 'd, 'y, 'wf) PeriodSpec list
     \<Rightarrow> 'd prior_period option \<Rightarrow> ('d DriverMessage GroupError, ('ts, 'f, 'd, 'wf) AggregateOutcome list) result" where
  "chain_loop env [] prior = Inr []"
| "chain_loop env (spec # specs) prior =
     try_bind (run_aggregate env (ps_manifest spec) (ps_shards spec)
         (ps_options spec\<lparr>ao_prior_period_aggregate := prior\<rparr>)) (\<lambda>r.
     try_bind (chain_loop env specs (Some (out_dir_records r))) (\<lambda>rs. Inr (r # rs)))"

definition run_aggregate_chain ::
    "('ts, 'd::linordered_field) driver_env \<Rightarrow> ('ts, 'f::linordered_field, 'd, 'y, 'wf) PeriodSpec list
     \<Rightarrow> ('d DriverMessage GroupError, ('ts, 'f, 'd, 'wf) AggregateOutcome list) result" where
  "run_aggregate_chain env specs =
     (case specs of
        [] \<Rightarrow> Inr []
      | spec # _ \<Rightarrow> chain_loop env specs (ao_prior_period_aggregate (ps_options spec)))"

section \<open>The two walks agree\<close>

text \<open>The state of the one-pass walk, from that of the other and the translations.\<close>

definition streamed ::
    "('f, 'd::linordered_field, 'y) aggregate_manifest \<Rightarrow> ('ts, 'd, 'wf) WalkOutcome \<Rightarrow> 'd TranslatedTb list
     \<Rightarrow> ('ts, 'd, 'wf) StreamingWalkOutcome" where
  "streamed m w ts =
     \<lparr>so_pre_elim = (accumulate_all (empty_aggregate m) (wo_contributing_tbs w))
        \<lparr>ag_deferred_entities := map (\<lambda>p. \<lparr>de_entity_code = fst p, de_method = the (method_of m (fst p))\<rparr>)
           (wo_deferred_tbs w)\<rparr>,
      so_translated_tbs = ts,
      so_entity_contributions = foldl contribute_tb [] (wo_contributing_tbs w),
      so_deferred_tbs = wo_deferred_tbs w,
      so_ic_journal_entries = map (\<lambda>(c, jes). (c, filter (\<lambda>je. ic_pair_id (header je) \<noteq> None) jes))
        (wo_contributing_jes w),
      so_entities_missing = wo_entities_missing w\<rparr>"

lemma lift_error_simps [simp]:
  "lift_error f (Inl e) = Inl (map_GroupError f e)" "lift_error f (Inr x) = Inr x"
  "lift_error f r = Inr x \<longleftrightarrow> r = Inr x"
  by (auto simp: lift_error_def split: sum.split)

lemma try_map_append:
  "try_map f (xs @ ys) = try_bind (try_map f xs) (\<lambda>us. try_bind (try_map f ys) (\<lambda>vs. Inr (us @ vs)))"
proof (induction xs)
  case Nil
  show ?case by (cases "try_map f ys") simp_all
next
  case (Cons x xs)
  then show ?case by (cases "f x"; cases "try_map f xs"; cases "try_map f ys") simp_all
qed

lemma accumulate_all_snoc:
  "accumulate_all agg (xs @ [p]) = accumulate_tb (accumulate_all agg xs) (fst p) (snd p)"
  by (simp add: accumulate_all_def)

lemma method_of_member:
  assumes "distinct (map me_code (og_entities (gm_ownership_graph m)))" "e \<in> set (og_entities (gm_ownership_graph m))"
  shows "method_of m (me_code e) = Some (me_consolidation_method e)"
    and "map_of (entity_lookup m) (me_code e) = Some e"
proof -
  have "distinct (map me_code es) \<Longrightarrow> e \<in> set es \<Longrightarrow> find (\<lambda>e'. me_code e' = me_code e) es = Some e" for es
    by (induction es) auto
  then show "method_of m (me_code e) = Some (me_consolidation_method e)"
    using assms by (simp add: method_of_def)
  show "map_of (entity_lookup m) (me_code e) = Some e"
    using assms by (auto simp: entity_lookup_def map_of_bt_collect_distinct comp_def intro: map_of_is_SomeI)
qed

text \<open>One entity.\<close>

lemma streaming_step_streamed:
  fixes m :: "('f, 'd::linordered_field, 'y) aggregate_manifest"
  assumes "distinct (map me_code (og_entities (gm_ownership_graph m)))" "e \<in> set (og_entities (gm_ownership_graph m))"
  shows "streaming_step env m shards framework cpi tolerate e (streamed m w ts) =
     try_bind (archive_step shards tolerate e w) (\<lambda>w'.
       try_bind (try_map (translate_contributing env m framework (entity_lookup m) cpi)
           (drop (length (wo_contributing_tbs w)) (wo_contributing_tbs w'))) (\<lambda>ts'.
         Inr (streamed m w' (ts @ ts'))))"
proof (cases "sh_trial_balances (shards (me_code e))")
  case None
  then show ?thesis by (simp add: streaming_step_def archive_step_def streamed_def)
next
  case (Some tbs)
  note member = method_of_member[OF assms]
  note step = streaming_step_def archive_step_def Some Let_def accumulate_entity_into_aggregate_def
    lookup_method_eq member ensure_currency_matches_def translate_contributing_def
  show ?thesis
  proof (cases "load_entity_trial_balance tbs :: ('d DriverMessage GroupError, _) result")
    case (Inl err)
    then show ?thesis by (simp add: step)
  next
    case (Inr tb)
    show ?thesis
      using Inr
      by (cases "translate_one_entity env tb e m framework cpi")
        (simp_all add: step lift_error_def, simp_all add: streamed_def defer_entity_def member stream_ic_entries_def
          accumulate_deferred accumulate_all_snoc)
  qed
qed

lemma archive_step_extends:
  assumes "archive_step shards tolerate e w = Inr w'"
  shows "\<exists>xs. wo_contributing_tbs w' = wo_contributing_tbs w @ xs"
  using assms by (auto simp: archive_step_def Let_def try_bind_eq_Inr split: option.splits if_splits)

lemma archives_extend:
  "try_fold (archive_step shards tolerate) es w = Inr w' \<Longrightarrow>
     \<exists>xs. wo_contributing_tbs w' = wo_contributing_tbs w @ xs"
proof (induction es arbitrary: w)
  case (Cons e es)
  then obtain w1 where w1: "archive_step shards tolerate e w = Inr w1"
    "try_fold (archive_step shards tolerate) es w1 = Inr w'" by (auto simp: try_bind_eq_Inr)
  then show ?case using Cons.IH[OF w1(2)] archive_step_extends[OF w1(1)] by auto
qed simp

lemma streaming_fold_streamed:
  assumes "distinct (map me_code (og_entities (gm_ownership_graph m)))" "set es \<subseteq> set (og_entities (gm_ownership_graph m))"
  shows "try_fold (streaming_step env m shards framework cpi tolerate) es (streamed m w ts) = Inr s \<longleftrightarrow>
     (\<exists>w' ts'. try_fold (archive_step shards tolerate) es w = Inr w'
        \<and> try_map (translate_contributing env m framework (entity_lookup m) cpi)
             (drop (length (wo_contributing_tbs w)) (wo_contributing_tbs w')) = Inr ts'
        \<and> s = streamed m w' (ts @ ts'))"
  using assms(2)
proof (induction es arbitrary: w ts)
  case (Cons e es)
  let ?tr = "try_map (translate_contributing env m framework (entity_lookup m) cpi)"
  have e: "e \<in> set (og_entities (gm_ownership_graph m))" and es: "set es \<subseteq> set (og_entities (gm_ownership_graph m))"
    using Cons.prems by auto
  show ?case
  proof (cases "archive_step shards tolerate e w")
    case (Inl err)
    then show ?thesis by (simp add: streaming_step_streamed[OF assms(1) e])
  next
    case (Inr w1)
    obtain xs where xs: "wo_contributing_tbs w1 = wo_contributing_tbs w @ xs"
      using archive_step_extends[OF Inr] by blast
    have split: "?tr (drop (length (wo_contributing_tbs w)) (wo_contributing_tbs w'))
        = try_bind (?tr xs) (\<lambda>us. try_bind (?tr (drop (length (wo_contributing_tbs w1)) (wo_contributing_tbs w')))
            (\<lambda>vs. Inr (us @ vs)))"
      if run: "try_fold (archive_step shards tolerate) es w1 = Inr w'" for w'
    proof -
      obtain ys where "wo_contributing_tbs w' = wo_contributing_tbs w1 @ ys"
        using archives_extend[OF run] by blast
      then show ?thesis by (simp add: xs try_map_append)
    qed
    show ?thesis
    proof (cases "?tr xs")
      case (Inl err)
      then show ?thesis
        using Inr split by (auto simp: streaming_step_streamed[OF assms(1) e] xs)
    next
      case (Inr us)
      have "try_fold (streaming_step env m shards framework cpi tolerate) (e # es) (streamed m w ts) = Inr s
          \<longleftrightarrow> (\<exists>w' vs. try_fold (archive_step shards tolerate) es w1 = Inr w'
            \<and> ?tr (drop (length (wo_contributing_tbs w1)) (wo_contributing_tbs w')) = Inr vs
            \<and> s = streamed m w' ((ts @ us) @ vs))"
        using \<open>archive_step shards tolerate e w = Inr w1\<close> Inr Cons.IH[OF es, of w1 "ts @ us"]
        by (simp add: streaming_step_streamed[OF assms(1) e] xs)
      also have "\<dots> \<longleftrightarrow> (\<exists>w' ts'. try_fold (archive_step shards tolerate) es w1 = Inr w'
            \<and> ?tr (drop (length (wo_contributing_tbs w)) (wo_contributing_tbs w')) = Inr ts'
            \<and> s = streamed m w' (ts @ ts'))"
      proof (cases "try_fold (archive_step shards tolerate) es w1")
        case (Inr w')
        show ?thesis
          using \<open>?tr xs = Inr us\<close>
          by (cases "?tr (drop (length (wo_contributing_tbs w1)) (wo_contributing_tbs w'))")
            (simp_all add: Inr split[OF Inr])
      qed simp
      finally show ?thesis
        using \<open>archive_step shards tolerate e w = Inr w1\<close> by simp
    qed
  qed
qed auto

lemma archive_step_methods:
  assumes "archive_step shards tolerate e w = Inr w'" "method_of m (me_code e) = Some (me_consolidation_method e)"
    and "\<forall>p \<in> set (wo_contributing_tbs w). method_of m (fst p) \<in> {Some Parent, Some Full}"
    and "\<forall>p \<in> set (wo_deferred_tbs w). method_of m (fst p) \<notin> {None, Some Parent, Some Full}"
  shows "\<forall>p \<in> set (wo_contributing_tbs w'). method_of m (fst p) \<in> {Some Parent, Some Full}"
    and "\<forall>p \<in> set (wo_deferred_tbs w'). method_of m (fst p) \<notin> {None, Some Parent, Some Full}"
  using assms
  by (cases "me_consolidation_method e \<in> {Parent, Full}";
      auto simp: archive_step_def Let_def try_bind_eq_Inr split: option.splits if_split_asm)+

lemma archives_methods:
  assumes "distinct (map me_code (og_entities (gm_ownership_graph m)))" "set es \<subseteq> set (og_entities (gm_ownership_graph m))"
    and "try_fold (archive_step shards tolerate) es w = Inr w'"
    and "\<forall>p \<in> set (wo_contributing_tbs w). method_of m (fst p) \<in> {Some Parent, Some Full}"
    and "\<forall>p \<in> set (wo_deferred_tbs w). method_of m (fst p) \<notin> {None, Some Parent, Some Full}"
  shows "(\<forall>p \<in> set (wo_contributing_tbs w'). method_of m (fst p) \<in> {Some Parent, Some Full})
    \<and> (\<forall>p \<in> set (wo_deferred_tbs w'). method_of m (fst p) \<notin> {None, Some Parent, Some Full})"
  using assms(2-)
proof (induction es arbitrary: w)
  case (Cons e es)
  then obtain w1 where w1: "archive_step shards tolerate e w = Inr w1"
    "try_fold (archive_step shards tolerate) es w1 = Inr w'" by (auto simp: try_bind_eq_Inr)
  have "method_of m (me_code e) = Some (me_consolidation_method e)"
    using method_of_member(1)[OF assms(1)] Cons.prems(1) by simp
  note step = archive_step_methods[OF w1(1) this Cons.prems(3,4)]
  show ?case using Cons.prems(1) by (intro Cons.IH[OF _ w1(2) step]) simp
qed simp

text \<open>The first state, and the end of the walk.\<close>

definition no_entities :: "('ts, 'd, 'wf) WalkOutcome" where
  "no_entities = \<lparr>wo_contributing_tbs = [], wo_contributing_jes = [], wo_deferred_tbs = [], wo_entities_missing = []\<rparr>"

lemma streamed_no_entities:
  "streamed m no_entities [] =
     \<lparr>so_pre_elim = empty_aggregate m, so_translated_tbs = [], so_entity_contributions = [],
      so_deferred_tbs = [], so_ic_journal_entries = [], so_entities_missing = []\<rparr>"
  by (simp add: streamed_def no_entities_def accumulate_all_def empty_aggregate_def)

lemma aggregate_walk:
  assumes "\<forall>p \<in> set (wo_contributing_tbs w). method_of m (fst p) \<in> {Some Parent, Some Full}"
    and "\<forall>p \<in> set (wo_deferred_tbs w). method_of m (fst p) \<notin> {None, Some Parent, Some Full}"
  shows "aggregate_pre_elimination m (wo_contributing_tbs w @ wo_deferred_tbs w)
    = Inr (finalise_streaming_aggregate (so_pre_elim (streamed m w ts)))"
proof -
  have known: "find (\<lambda>p. method_of m (fst p) = None) (wo_contributing_tbs w @ wo_deferred_tbs w) = None"
    using assms by (fastforce simp: find_None_iff)
  have "consolidated_tbs m (wo_contributing_tbs w @ wo_deferred_tbs w) = wo_contributing_tbs w"
    using assms by (auto simp: consolidated_tbs_def filter_id_conv filter_empty_conv)
  moreover have "filter (\<lambda>p. method_of m (fst p) \<notin> {Some Parent, Some Full}) (wo_contributing_tbs w @ wo_deferred_tbs w)
      = wo_deferred_tbs w"
    using assms by (auto simp: filter_id_conv filter_empty_conv)
  ultimately show ?thesis
    unfolding aggregate_pre_elimination_def aggregate_loop_eq known deferred_entities_def
    by (simp add: streamed_def empty_aggregate_def del: filter_append)
qed

text \<open>The matcher passes over the entries that belong to no pair.\<close>

definition tagged_only ::
    "(string \<times> (naive_date, 'ts, 'd, 'wf) JournalEntry list) list
     \<Rightarrow> (string \<times> (naive_date, 'ts, 'd, 'wf) JournalEntry list) list" where
  "tagged_only entity_jes = map (\<lambda>(c, jes). (c, filter (\<lambda>je. ic_pair_id (header je) \<noteq> None) jes)) entity_jes"

lemma match_tagged_only: "match_ic_pairs env m (tagged_only xs) = match_ic_pairs env m xs"
proof -
  have untagged: "List.map_filter (\<lambda>je. map_option (f je) (ic_pair_id (header je)))
        (filter (\<lambda>je. ic_pair_id (header je) \<noteq> None) jes)
      = List.map_filter (\<lambda>je. map_option (f je) (ic_pair_id (header je))) jes" for f jes
    by (induction jes) (auto simp: List.map_filter_def)
  have "observed_sides (tagged_only xs) = observed_sides xs"
    by (induction xs) (auto simp: observed_sides_def tagged_only_def untagged simp del: not_None_eq)
  then show ?thesis by (simp add: match_ic_pairs_def collect_sides_eq)
qed

text \<open>The order of the missing entities is the only difference at the end of the walk.\<close>

lemma streaming_walk:
  assumes "distinct (map me_code (og_entities (gm_ownership_graph m)))"
  shows "walk_aggregate_streaming env m shards framework cpi tolerate = Inr s \<longleftrightarrow>
     (\<exists>w ts. walk_entity_archives m shards tolerate = Inr w
        \<and> translate_all_contributing env (wo_contributing_tbs w) m framework (entity_lookup m) cpi = Inr ts
        \<and> aggregate_pre_elimination m (wo_contributing_tbs w @ wo_deferred_tbs w) = Inr (so_pre_elim s)
        \<and> so_translated_tbs s = ts
        \<and> so_entity_contributions s = foldl contribute_tb [] (wo_contributing_tbs w)
        \<and> so_deferred_tbs s = wo_deferred_tbs w
        \<and> so_ic_journal_entries s
            = tagged_only (wo_contributing_jes w)
        \<and> so_entities_missing s = wo_entities_missing w)" (is "_ \<longleftrightarrow> ?legacy")
proof -
  let ?es = "og_entities (gm_ownership_graph m)"
  let ?finish = "\<lambda>s. s\<lparr>so_entities_missing := sort (so_entities_missing s),
              so_pre_elim := finalise_streaming_aggregate (so_pre_elim s)\<rparr>"
  have walk: "walk_aggregate_streaming env m shards framework cpi tolerate = Inr s \<longleftrightarrow>
      (\<exists>w ts. try_fold (archive_step shards tolerate) ?es no_entities = Inr w
         \<and> try_map (translate_contributing env m framework (entity_lookup m) (cpi_option cpi)) (wo_contributing_tbs w) = Inr ts
         \<and> s = ?finish (streamed m w ts))"
    unfolding walk_aggregate_streaming_def streamed_no_entities[symmetric]
    by (auto simp: try_bind_eq_Inr streaming_fold_streamed[OF assms subset_refl] no_entities_def)
  have methods: "(\<forall>p \<in> set (wo_contributing_tbs w). method_of m (fst p) \<in> {Some Parent, Some Full})
    \<and> (\<forall>p \<in> set (wo_deferred_tbs w). method_of m (fst p) \<notin> {None, Some Parent, Some Full})"
    if run: "try_fold (archive_step shards tolerate) ?es no_entities = Inr w" for w
    using archives_methods[OF assms subset_refl run] by (simp add: no_entities_def)
  show ?thesis
  proof (cases "try_fold (archive_step shards tolerate) ?es no_entities")
    case (Inl err)
    then show ?thesis
      unfolding walk by (simp add: walk_entity_archives_def no_entities_def)
  next
    case (Inr w)
    have "aggregate_pre_elimination m (wo_contributing_tbs w @ wo_deferred_tbs w)
        = Inr (finalise_streaming_aggregate (so_pre_elim (streamed m w ts)))" for ts
      using methods[OF Inr] by (intro aggregate_walk) simp_all
    then show ?thesis
      unfolding walk Inr
      by (cases s) (auto simp: walk_entity_archives_def Inr[unfolded no_entities_def] translate_all_contributing_def streamed_def
          tagged_only_def)
  qed
qed

section \<open>Properties\<close>


section \<open>No step adds an imbalance\<close>

definition imbalance :: "'d::linordered_field AggregatedTb \<Rightarrow> 'd" where
  "imbalance agg = fst (recompute_totals agg) - snd (recompute_totals agg)"

definition tb_imbalance :: "(string \<times> (naive_date, 'ts, 'd) TrialBalance) list \<Rightarrow> 'd::linordered_field" where
  "tb_imbalance tbs = sum_list (map (\<lambda>l. tl_debit_balance l - tl_credit_balance l) (all_lines tbs))"

lemma accumulated_sums:
  assumes "totals_wf (fst st)"
  shows "bt_sum aa_debit_total (fst (foldl accumulate_line st ls)) - bt_sum aa_credit_total (fst (foldl accumulate_line st ls))
    = bt_sum aa_debit_total (fst st) - bt_sum aa_credit_total (fst st)
      + sum_list (map (\<lambda>l. tl_debit_balance l - tl_credit_balance l) ls)"
  using assms
proof (induction ls arbitrary: st)
  case (Cons l ls)
  have "totals_wf (fst (accumulate_line st l))"
    using accumulated_wf[of st "[l]"] Cons.prems by simp
  moreover have "bt_wf (fst st)" using Cons.prems by (simp add: totals_wf_def)
  ultimately show ?case
    using Cons.IH by (simp add: accumulate_line_def Let_def bt_sum_entry)
qed simp

lemma imbalance_accumulated:
  assumes "totals_wf (ag_account_totals agg)"
  shows "imbalance (accumulate_all agg ps) = imbalance agg + tb_imbalance ps"
  using assms
proof (induction ps arbitrary: agg)
  case (Cons p ps)
  have "totals_wf (ag_account_totals (accumulate_tb agg (fst p) (snd p)))"
    using accumulate_all_wf[OF Cons.prems, of "[p]"] by (simp add: accumulate_all_def)
  then show ?case
    using Cons.IH[of "accumulate_tb agg (fst p) (snd p)"] Cons.prems
      accumulated_sums[of "(ag_account_totals agg, {})" "tb_lines (snd p)"]
    by (simp add: accumulate_all_Cons accumulate_tb_def imbalance_def recompute_totals_def tb_imbalance_def
        all_lines_def)
qed (simp add: accumulate_all_def tb_imbalance_def all_lines_def)

lemma imbalance_aggregated:
  assumes "aggregate_pre_elimination m tbs = Inr agg"
  shows "imbalance agg = tb_imbalance (consolidated_tbs m tbs)"
  using aggregate_fields(2)[OF assms] imbalance_accumulated[of "empty_aggregate m" "consolidated_tbs m tbs"]
  by (simp add: imbalance_def recompute_totals_def empty_aggregate_def)

lemma imbalance_posted:
  assumes "totals_wf (ag_account_totals agg)"
    and "sum_list (map (fst \<circ> snd) ps) = sum_list (map (snd \<circ> snd) ps)"
  shows "imbalance (with_totals (foldl apply_posting agg ps)) = imbalance agg"
  using assms(2) postings_sums[OF assms(1), of ps] by (simp add: imbalance_def recompute_totals_def)

lemma generated_balanced:
  assumes "generate_eliminations env el now matched m = Inr s"
    and "je \<in> set (eliminations_to_journal_entries cv s :: (naive_date, 'ts, 'd::linordered_field, 'wf) JournalEntry list)"
  shows "total_debit je = total_credit je"
proof -
  obtain k e where e: "(k, e) \<in> set (enumerate 0 (filter elim_is_balanced (rs_entries s)))"
      "je = elimination_to_journal_entry cv k e"
    using assms(2) by (auto simp: eliminations_to_journal_entries_def elimination_to_journal_entries_def)
  from e(1) have "e \<in> snd ` set (enumerate 0 (filter elim_is_balanced (rs_entries s)))"
    by (rule rev_image_eqI) simp
  then have "e \<in> set (rs_entries s)" unfolding set_map[symmetric] by simp
  then have "totals_ok e" "elim_is_balanced e"
    using mset_eq_setD[OF generate_eliminations_Inr(2)[OF assms(1)]] entries_of_pair_ok by fastforce+
  then show ?thesis
    by (simp add: e(2) converted_entry totals_ok_def elim_is_balanced_def)
qed

lemma balanced_elimination_postings:
  assumes "\<forall>je \<in> set jes. total_debit je = total_credit je"
  shows "sum_list (map (fst \<circ> snd) (elimination_postings jes)) = sum_list (map (snd \<circ> snd) (elimination_postings jes))"
  using assms
  by (induction jes) (simp_all add: posting_of_line_def comp_def total_debit_def total_credit_def)

lemma applied_eliminations_balance:
  assumes "apply_eliminations_to_tb pre jes = Inr post" "totals_wf (ag_account_totals pre)"
    and "\<forall>je \<in> set jes. total_debit je = total_credit je"
  shows "imbalance post = imbalance pre" "totals_wf (ag_account_totals post)"
  using assms imbalance_posted[OF assms(2) balanced_elimination_postings[OF assms(3)]] postings_wf[OF assms(2)]
  by (auto simp: apply_eliminations_eq split: option.splits)

lemma overlaid_balance:
  assumes "apply_nci_and_equity_method post ncis invs = Inr overlaid" "totals_wf (ag_account_totals post)"
  shows "imbalance overlaid = imbalance post"
  using assms imbalance_posted[OF assms(2) overlay_balances]
  by (auto simp: overlay_eq split: option.splits)

section \<open>A period that succeeds\<close>

lemma aggregate_run:
  assumes "run_aggregate env m shards opts = Inr r"
  obtains w matched where
    "walk_aggregate_streaming env m shards (resolve_primary_framework m) (ao_cpi_series_by_currency opts)
       (ao_tolerate_missing_shards opts) = Inr w"
    "eliminate_intercompany env m w = Inr (matched, oc_post_elim r)"
    "oc_pre_elim r = so_pre_elim w" "oc_translated_tbs r = so_translated_tbs w"
    "build_cta_rollforwards (so_translated_tbs w) (gm_presentation_currency m) (ao_prior_period_aggregate opts)
       = Inr (oc_cta_rollforward r)"
    "build_nci_rollforwards env m (so_translated_tbs w) (ao_prior_period_aggregate opts)
       (ingest_acquisition_date_nci_fair_values m shards) (ingest_ownership_change_events m shards)
       = Inr (oc_nci_rollforward r)"
    "build_equity_method_investments env m (so_deferred_tbs w) (resolve_primary_framework m)
       (ao_prior_period_aggregate opts) = Inr (oc_equity_method_investments r)"
    "apply_nci_and_equity_method (oc_post_elim r) (oc_nci_rollforward r) (oc_equity_method_investments r)
       = Inr (oc_post_overlay r)"
    "oc_statements r = consolidated_statements m (oc_post_overlay r) (oc_cta_rollforward r) (oc_nci_rollforward r)"
    "oc_summary r = aggregate_summary m w matched (fs_balance_sheet (oc_statements r))"
    "oc_coverage_report r = build_coverage_report matched"
  using assms by (auto simp: run_aggregate_def Let_def try_bind_eq_Inr split: prod.splits)

lemma elimination_run:
  fixes w :: "('ts, 'd::linordered_field, 'wf) StreamingWalkOutcome"
  assumes "eliminate_intercompany env m w = Inr (matched, post)" "totals_wf (ag_account_totals (so_pre_elim w))"
  shows "match_ic_pairs (dv_group env) m (so_ic_journal_entries w) = Inr matched"
    and "imbalance post = imbalance (so_pre_elim w)" "totals_wf (ag_account_totals post)"
proof -
  obtain el where "match_ic_pairs (dv_group env) m (so_ic_journal_entries w) = Inr matched"
    and el: "generate_eliminations (dv_group env) (dv_elim env) (dv_now env) (mr_matched matched) m = Inr el"
    and post: "apply_eliminations_to_tb (so_pre_elim w)
      (eliminations_to_journal_entries (dv_conversion env) el :: (naive_date, 'ts, 'd, 'wf) JournalEntry list) = Inr post"
    using assms(1) by (auto simp: eliminate_intercompany_def Let_def try_bind_eq_Inr)
  then show "match_ic_pairs (dv_group env) m (so_ic_journal_entries w) = Inr matched" by simp
  show "imbalance post = imbalance (so_pre_elim w)" "totals_wf (ag_account_totals post)"
    using applied_eliminations_balance[OF post assms(2)] generated_balanced[OF el] by blast+
qed

text \<open>What the walk has read.\<close>

lemma walked_methods:
  assumes "distinct (map me_code (og_entities (gm_ownership_graph m)))" "walk_entity_archives m shards tolerate = Inr w"
  shows "consolidated_tbs m (wo_contributing_tbs w @ wo_deferred_tbs w) = wo_contributing_tbs w"
proof -
  obtain w0 where w0: "try_fold (archive_step shards tolerate) (og_entities (gm_ownership_graph m)) no_entities = Inr w0"
    "wo_contributing_tbs w = wo_contributing_tbs w0" "wo_deferred_tbs w = wo_deferred_tbs w0"
    using assms(2) by (auto simp: walk_entity_archives_def no_entities_def try_bind_eq_Inr)
  show ?thesis
    using archives_methods[OF assms(1) subset_refl w0(1)]
    by (auto simp: w0(2,3) no_entities_def consolidated_tbs_def filter_id_conv filter_empty_conv)
qed

lemma max_by_key_member: "max_by_key key x xs \<in> set (x # xs)"
proof -
  have "foldl (\<lambda>best y. if key best \<le> key y then y else best) x xs \<in> set (x # xs)"
  proof (induction xs arbitrary: x)
    case (Cons y xs)
    show ?case using Cons.IH[of "if key x \<le> key y then y else x"] by (auto split: if_splits)
  qed simp
  then show ?thesis by (simp add: max_by_key_def)
qed

text \<open>C8. No step of the consolidation adds an imbalance or hides one: total debits less total credits
  of the trial balances of the consolidated entities reach the aggregate before the eliminations
  unchanged, then the one after them and the one after the overlay, and the totals of the summary
  differ by exactly this amount and the balance of the income accounts.\<close>

theorem consolidation_adds_no_imbalance:
  assumes "distinct (map me_code (og_entities (gm_ownership_graph m)))" "run_aggregate env m shards opts = Inr r"
  shows "\<exists>w. walk_entity_archives m shards (ao_tolerate_missing_shards opts) = Inr w
    \<and> imbalance (oc_pre_elim r) = tb_imbalance (wo_contributing_tbs w)
    \<and> imbalance (oc_post_elim r) = tb_imbalance (wo_contributing_tbs w)
    \<and> imbalance (oc_post_overlay r) = tb_imbalance (wo_contributing_tbs w)
    \<and> su_total_assets (oc_summary r)
        - (su_total_liabilities (oc_summary r) + su_total_equity (oc_summary r) + su_total_nci (oc_summary r))
      = tb_imbalance (wo_contributing_tbs w)
        + net_credit (filter income_typed (ag_account_totals (oc_post_overlay r)))"
proof -
  obtain s matched where walk: "walk_aggregate_streaming env m shards (resolve_primary_framework m)
        (ao_cpi_series_by_currency opts) (ao_tolerate_missing_shards opts) = Inr s"
    and elim: "eliminate_intercompany env m s = Inr (matched, oc_post_elim r)"
    and pre: "oc_pre_elim r = so_pre_elim s"
    and overlay: "apply_nci_and_equity_method (oc_post_elim r) (oc_nci_rollforward r) (oc_equity_method_investments r)
        = Inr (oc_post_overlay r)"
    and sheet: "oc_statements r = consolidated_statements m (oc_post_overlay r) (oc_cta_rollforward r) (oc_nci_rollforward r)"
      "oc_summary r = aggregate_summary m s matched (fs_balance_sheet (oc_statements r))"
    using aggregate_run[OF assms(2)] by metis
  obtain w where w: "walk_entity_archives m shards (ao_tolerate_missing_shards opts) = Inr w"
    and agg: "aggregate_pre_elimination m (wo_contributing_tbs w @ wo_deferred_tbs w) = Inr (so_pre_elim s)"
    using walk unfolding streaming_walk[OF assms(1)] by blast
  have start: "imbalance (so_pre_elim s) = tb_imbalance (wo_contributing_tbs w)"
    by (simp add: imbalance_aggregated[OF agg] walked_methods[OF assms(1) w])
  note eliminated = elimination_run[OF elim pre_elimination_net(1)[OF agg]]
  have final: "imbalance (oc_post_overlay r) = tb_imbalance (wo_contributing_tbs w)"
    using overlaid_balance[OF overlay eliminated(3)] eliminated(2) start by simp
  have "su_total_assets (oc_summary r)
        - (su_total_liabilities (oc_summary r) + su_total_equity (oc_summary r) + su_total_nci (oc_summary r))
      = imbalance (oc_post_overlay r) + net_credit (filter income_typed (ag_account_totals (oc_post_overlay r)))"
    using balance_sheet_gap[OF refl, of "oc_post_overlay r"]
    by (simp add: sheet aggregate_summary_def consolidated_statements_def Let_def imbalance_def
        balance_sheet_sums(5)[OF refl])
  then show ?thesis using w start eliminated(2) final pre by simp
qed

section \<open>From period to period\<close>

definition closings :: "('r \<Rightarrow> string) \<Rightarrow> ('r \<Rightarrow> 'd::zero) \<Rightarrow> 'r list \<Rightarrow> string \<Rightarrow> 'd" where
  "closings code amount recs c = amount_or_zero (map (\<lambda>r. (code r, amount r)) recs) c"

text \<open>The opening amounts of a period are the closing amounts of the one before: translation
  adjustments, associates and, where nothing was acquired or changed, non-controlling interests.\<close>

definition opens_with ::
    "('f, 'd::linordered_field, 'y) aggregate_manifest \<Rightarrow> (string \<Rightarrow> ('ts, 'd, 'wf) shard_archive)
     \<Rightarrow> ('ts, 'f, 'd, 'wf) AggregateOutcome \<Rightarrow> ('ts, 'f, 'd, 'wf) AggregateOutcome \<Rightarrow> bool" where
  "opens_with m shards prior r \<longleftrightarrow>
     list_all (\<lambda>c. cr_opening_cta c
         = closings cr_entity_code cr_closing_cta (oc_cta_rollforward prior) (cr_entity_code c)) (oc_cta_rollforward r)
     \<and> list_all (\<lambda>i. em_opening_carrying_value i
           = closings em_investee_code em_closing_carrying_value (oc_equity_method_investments prior) (em_investee_code i)
         \<and> em_opening_suppressed_loss i
           = closings em_investee_code em_closing_suppressed_loss (oc_equity_method_investments prior) (em_investee_code i))
         (oc_equity_method_investments r)
     \<and> list_all (\<lambda>n. map_of (ingest_acquisition_date_nci_fair_values m shards) (nr_entity_code n) = None
           \<and> map_of (ingest_ownership_change_events m shards) (nr_entity_code n) = None
         \<longrightarrow> nr_opening_nci n
           = closings nr_entity_code nr_closing_nci (oc_nci_rollforward prior) (nr_entity_code n)) (oc_nci_rollforward r)"

lemma ingested_amount:
  assumes "ingest_opening recs [] = Inr opening_map"
  shows "amount_or_zero opening_map c = amount_or_zero recs c"
proof -
  have "distinct (map fst recs)" "opening_map = bt_collect recs"
    using assms by (auto simp: ingest_opening_spec bt_collect_def)
  then show ?thesis by (simp add: amount_or_zero_def map_of_bt_collect_distinct)
qed

lemma closings_cases:
  assumes "P 0" "\<And>r. r \<in> set recs \<Longrightarrow> P (amount r)"
  shows "P (closings code amount recs c)"
proof (cases "map_of (map (\<lambda>r. (code r, amount r)) recs) c")
  case None
  then show ?thesis using assms(1) by (simp add: closings_def amount_or_zero_def)
next
  case (Some x)
  then have "(c, x) \<in> set (map (\<lambda>r. (code r, amount r)) recs)" by (rule map_of_SomeD)
  then show ?thesis using assms(2) Some by (auto simp: closings_def amount_or_zero_def)
qed

text \<open>The contract of a rollforward: a new record opens with the amount rounded to cents that the map of
  openings has for its key, and a record closes with an amount rounded to cents. Whatever keeps it opens
  with the closing amounts of the records that were read.\<close>

locale opening_carried =
  fixes opened :: "(string \<times> 'd::linordered_field) list \<Rightarrow> 'r \<Rightarrow> bool"
    and closed :: "'r \<Rightarrow> bool"
    and code :: "'r \<Rightarrow> string"
    and opening_amount :: "'r \<Rightarrow> 'd"
    and closing_amount :: "'r \<Rightarrow> 'd"
    and cents :: "'d \<Rightarrow> 'd"
  assumes opening_read: "opened m r \<Longrightarrow> opening_amount r = cents (amount_or_zero m (code r))"
    and closing_cents: "closed r \<Longrightarrow> cents (closing_amount r) = closing_amount r"
    and cents_zero: "opened m r \<Longrightarrow> cents 0 = 0"
begin

lemma opens:
  assumes "ingest_opening (map (\<lambda>r. (code r, closing_amount r)) recs) [] = Inr m"
    and "\<forall>r \<in> set recs. closed r" "opened m r"
  shows "opening_amount r = closings code closing_amount recs (code r)"
proof -
  have "cents (closings code closing_amount recs (code r)) = closings code closing_amount recs (code r)"
    by (rule closings_cases[of "\<lambda>x. cents x = x"])
      (use assms(2) in \<open>simp_all add: closing_cents cents_zero[OF assms(3)]\<close>)
  then show ?thesis
    unfolding opening_read[OF assms(3)] ingested_amount[OF assms(1)] closings_def .
qed

end

interpretation translation_adjustments: opening_carried
    "\<lambda>m r. \<exists>t. r = cta_rollforward (tr_entity_code t) (tr_functional_currency t) (tr_presentation_currency t)
       (amount_or_zero m (tr_entity_code t)) (tr_cta t)"
    "\<lambda>r. True" cr_entity_code cr_opening_cta cr_closing_cta "\<lambda>x. x"
  by unfold_locales (auto simp: cta_rollforward_def)

lemma cta_opens:
  assumes "build_cta_rollforwards ts pres (Some (out_dir_records prior)) = Inr ctas" "c \<in> set ctas"
  shows "cr_opening_cta c = closings cr_entity_code cr_closing_cta (oc_cta_rollforward prior) (cr_entity_code c)"
proof -
  obtain opening_map where maps: "ingest_opening (map (\<lambda>r. (cr_entity_code r, cr_closing_cta r)) (oc_cta_rollforward prior)) []
      = Inr opening_map"
    "ctas = map (\<lambda>t. cta_rollforward (tr_entity_code t) (tr_functional_currency t) (tr_presentation_currency t)
        (amount_or_zero opening_map (tr_entity_code t)) (tr_cta t)) (filter (\<lambda>t. tr_functional_currency t \<noteq> pres) ts)"
    using assms(1)
    by (auto simp: build_cta_rollforwards_def ingest_opening_cta_balances_def prior_file_def out_dir_records_def
        try_bind_eq_Inr)
  show ?thesis
    using assms(2) maps(2) by (intro translation_adjustments.opens[OF maps(1)]) auto
qed

text \<open>Associates.\<close>

lemma equity_fields:
  assumes "compute_equity_method_investment rd x = Inr i"
  shows "em_investee_code i = me_code (ei_investee x)"
    and "em_opening_carrying_value i = rd (ei_opening_carrying_value x)"
    and "em_opening_suppressed_loss i = rd (max (ei_opening_suppressed_loss x) 0)"
    and "\<exists>y. em_closing_carrying_value i \<in> {0, rd y}" "\<exists>y. em_closing_suppressed_loss i = rd y"
proof -
  obtain own where own: "equity_checks (ei_investee x) = Inr own"
    using assms by (auto simp: compute_equity_method_investment_def try_bind_eq_Inr)
  obtain recognised remaining where losses: "recover_losses (own * ei_investee_net_income x)
      (max (ei_opening_suppressed_loss x) 0) = (recognised, remaining)" by force
  show "em_investee_code i = me_code (ei_investee x)"
    "em_opening_carrying_value i = rd (ei_opening_carrying_value x)"
    "em_opening_suppressed_loss i = rd (max (ei_opening_suppressed_loss x) 0)"
    "\<exists>y. em_closing_carrying_value i \<in> {0, rd y}" "\<exists>y. em_closing_suppressed_loss i = rd y"
    using assms by (auto simp: compute_equity_method_investment_def own losses Let_def split: if_split_asm)
qed

lemma equity_norm:
  assumes "rounds_to_cents rd" "compute_equity_method_investment rd x = Inr i"
  shows "rd (em_closing_carrying_value i) = em_closing_carrying_value i"
    and "rd (max (em_closing_suppressed_loss i) 0) = em_closing_suppressed_loss i"
proof -
  note rd = rounds_to_centsD[OF assms(1)]
  show "rd (em_closing_carrying_value i) = em_closing_carrying_value i"
    using equity_fields(4)[OF assms(2)] by (auto simp: rd(3,6))
  have "max (em_closing_suppressed_loss i) 0 = em_closing_suppressed_loss i"
    using equity_method_spec(6)[OF assms] by simp
  then show "rd (max (em_closing_suppressed_loss i) 0) = em_closing_suppressed_loss i"
    using equity_fields(5)[OF assms(2)] by (auto simp: rd(3))
qed

interpretation carrying_amounts: opening_carried
    "\<lambda>m i. rounds_to_cents rd \<and> (\<exists>x. compute_equity_method_investment rd x = Inr i
       \<and> ei_opening_carrying_value x = amount_or_zero m (me_code (ei_investee x)))"
    "\<lambda>i. rounds_to_cents rd \<and> (\<exists>x. compute_equity_method_investment rd x = Inr i)"
    em_investee_code em_opening_carrying_value em_closing_carrying_value rd for rd
  by unfold_locales (auto simp: equity_fields equity_norm rounds_to_centsD)

interpretation suppressed_losses: opening_carried
    "\<lambda>m i. rounds_to_cents rd \<and> (\<exists>x. compute_equity_method_investment rd x = Inr i
       \<and> ei_opening_suppressed_loss x = amount_or_zero m (me_code (ei_investee x)))"
    "\<lambda>i. rounds_to_cents rd \<and> (\<exists>x. compute_equity_method_investment rd x = Inr i)"
    em_investee_code em_opening_suppressed_loss em_closing_suppressed_loss "\<lambda>x. rd (max x 0)" for rd
  by unfold_locales (auto simp: equity_fields equity_norm rounds_to_centsD)

lemma investment_computed:
  assumes "investment_of_entity env m deferred framework opening_map suppressed_map ep = Inr i"
  obtains x where "compute_equity_method_investment (dv_round env) x = Inr i"
    "ei_opening_carrying_value x = amount_or_zero opening_map (me_code (ei_investee x))"
    "ei_opening_suppressed_loss x = amount_or_zero suppressed_map (me_code (ei_investee x))"
proof (cases ep)
  case (Pair e parent)
  show ?thesis
    using assms
    by (cases "map_of deferred (me_code e)") (auto simp: Pair investment_of_entity_def Let_def intro: that)
qed

lemma try_map_member: "try_map f xs = Inr ys \<Longrightarrow> y \<in> set ys \<Longrightarrow> \<exists>x \<in> set xs. f x = Inr y"
  by (induction xs arbitrary: ys) (auto simp: try_bind_eq_Inr)

lemma investments_built:
  assumes "build_equity_method_investments env m deferred framework prior = Inr invs" "i \<in> set invs"
  shows "\<exists>d opening_map suppressed_map ep.
    ingest_opening_equity_method_carrying_values (prior_file pp_equity_method_investments prior) = Inr opening_map
    \<and> ingest_opening_suppressed_losses (prior_file pp_equity_method_investments prior) = Inr suppressed_map
    \<and> investment_of_entity env m d framework opening_map suppressed_map ep = Inr i"
proof -
  obtain opening_map suppressed_map es where maps:
    "ingest_opening_equity_method_carrying_values (prior_file pp_equity_method_investments prior) = Inr opening_map"
    "ingest_opening_suppressed_losses (prior_file pp_equity_method_investments prior) = Inr suppressed_map"
    "try_map (investment_of_entity env m (bt_collect deferred) framework opening_map suppressed_map) es = Inr invs"
    using assms(1) by (auto simp: build_equity_method_investments_def try_bind_eq_Inr)
  show ?thesis using maps try_map_member[OF maps(3) assms(2)] by blast
qed

lemma associates_open:
  assumes rd: "rounds_to_cents (dv_round env)"
    and old: "build_equity_method_investments env m0 deferred0 framework0 prior0 = Inr (oc_equity_method_investments prior)"
    and built: "build_equity_method_investments env m deferred framework (Some (out_dir_records prior)) = Inr invs"
    and "i \<in> set invs"
  shows "em_opening_carrying_value i
      = closings em_investee_code em_closing_carrying_value (oc_equity_method_investments prior) (em_investee_code i)"
    and "em_opening_suppressed_loss i
      = closings em_investee_code em_closing_suppressed_loss (oc_equity_method_investments prior) (em_investee_code i)"
proof -
  obtain d opening_map suppressed_map ep where maps:
    "ingest_opening (map (\<lambda>r. (em_investee_code r, em_closing_carrying_value r)) (oc_equity_method_investments prior)) []
       = Inr opening_map"
    "ingest_opening (map (\<lambda>r. (em_investee_code r, em_closing_suppressed_loss r)) (oc_equity_method_investments prior)) []
       = Inr suppressed_map"
    and i: "investment_of_entity env m d framework opening_map suppressed_map ep = Inr i"
    using investments_built[OF built assms(4)]
    by (auto simp: prior_file_def out_dir_records_def ingest_opening_equity_method_carrying_values_def
        ingest_opening_suppressed_losses_def)
  have closed: "\<forall>r \<in> set (oc_equity_method_investments prior).
      rounds_to_cents (dv_round env) \<and> (\<exists>x. compute_equity_method_investment (dv_round env) x = Inr r)"
    using rd investments_built[OF old] investment_computed by meson
  obtain x where x: "compute_equity_method_investment (dv_round env) x = Inr i"
    "ei_opening_carrying_value x = amount_or_zero opening_map (me_code (ei_investee x))"
    "ei_opening_suppressed_loss x = amount_or_zero suppressed_map (me_code (ei_investee x))"
    using investment_computed[OF i] by metis
  show "em_opening_carrying_value i
      = closings em_investee_code em_closing_carrying_value (oc_equity_method_investments prior) (em_investee_code i)"
    using rd x by (intro carrying_amounts.opens[OF maps(1) closed]) blast
  show "em_opening_suppressed_loss i
      = closings em_investee_code em_closing_suppressed_loss (oc_equity_method_investments prior) (em_investee_code i)"
    using rd x by (intro suppressed_losses.opens[OF maps(2) closed]) blast
qed

text \<open>Non-controlling interests.\<close>

lemma nci_computed:
  assumes "nci_of_entity env m translated opening_map acquisitions changes e = Inr n"
  obtains x where "compute_nci_rollforward (dv_round env) (dec_div (dv_group env)) x = Inr n" "ni_entity x = e"
    "ni_opening_nci x = amount_or_zero opening_map (me_code e)"
    "ni_acquisition_date_nci_fair_value x = map_of acquisitions (me_code e)"
    "ni_ownership_changes x = get_or_empty changes (me_code e)"
  using assms by (auto simp: nci_of_entity_def split: option.splits intro: that)

lemma nci_code:
  assumes "compute_nci_rollforward rd dv x = Inr n"
  shows "nr_entity_code n = me_code (ni_entity x)" "\<exists>y. nr_closing_nci n = rd y"
  using assms by (auto simp: compute_nci_rollforward_def Let_def try_bind_eq_Inr split: prod.splits)

lemma nci_unchanged_opening:
  assumes "compute_nci_rollforward rd dv x = Inr n" "ni_acquisition_date_nci_fair_value x = None"
    and "ni_ownership_changes x = []"
  shows "nr_opening_nci n = rd (ni_opening_nci x)"
  using assms
  by (auto simp: compute_nci_rollforward_def control_gained_terms_def Let_def try_bind_eq_Inr split: prod.splits bool.splits)

interpretation interests: opening_carried
    "\<lambda>m n. rounds_to_cents rd \<and> (\<exists>x. compute_nci_rollforward rd dv x = Inr n
       \<and> ni_acquisition_date_nci_fair_value x = None \<and> ni_ownership_changes x = []
       \<and> ni_opening_nci x = amount_or_zero m (me_code (ni_entity x)))"
    "\<lambda>n. rounds_to_cents rd \<and> (\<exists>x. compute_nci_rollforward rd dv x = Inr n)"
    nr_entity_code nr_opening_nci nr_closing_nci rd for rd dv
proof
  show "nr_opening_nci n = rd (amount_or_zero m (nr_entity_code n))"
    if "rounds_to_cents rd \<and> (\<exists>x. compute_nci_rollforward rd dv x = Inr n
       \<and> ni_acquisition_date_nci_fair_value x = None \<and> ni_ownership_changes x = []
       \<and> ni_opening_nci x = amount_or_zero m (me_code (ni_entity x)))" for m n
    using that nci_unchanged_opening nci_code(1) by fastforce
  show "rd (nr_closing_nci n) = nr_closing_nci n"
    if "rounds_to_cents rd \<and> (\<exists>x. compute_nci_rollforward rd dv x = Inr n)" for n
    using that nci_code(2) rounds_to_centsD(3) by metis
qed (use rounds_to_centsD(6) in blast)

lemma ncis_built:
  assumes "build_nci_rollforwards env m ts prior acquisitions changes = Inr ncis" "n \<in> set ncis"
  shows "\<exists>translated opening_map e. ingest_opening_nci_balances (prior_file pp_nci_rollforward prior) = Inr opening_map
    \<and> nci_of_entity env m translated opening_map acquisitions changes e = Inr n"
proof -
  obtain opening_map translated es where maps:
    "ingest_opening_nci_balances (prior_file pp_nci_rollforward prior) = Inr opening_map"
    "try_map (nci_of_entity env m translated opening_map acquisitions changes) es = Inr ncis"
    using assms(1) by (auto simp: build_nci_rollforwards_def try_bind_eq_Inr)
  show ?thesis using maps try_map_member[OF maps(2) assms(2)] by blast
qed

lemma interests_open:
  assumes rd: "rounds_to_cents (dv_round env)"
    and old: "build_nci_rollforwards env m0 ts0 prior0 acquisitions0 changes0 = Inr (oc_nci_rollforward prior)"
    and built: "build_nci_rollforwards env m ts (Some (out_dir_records prior)) acquisitions changes = Inr ncis"
    and n: "n \<in> set ncis" "map_of acquisitions (nr_entity_code n) = None" "map_of changes (nr_entity_code n) = None"
  shows "nr_opening_nci n = closings nr_entity_code nr_closing_nci (oc_nci_rollforward prior) (nr_entity_code n)"
proof -
  obtain translated opening_map e where map:
    "ingest_opening (map (\<lambda>r. (nr_entity_code r, nr_closing_nci r)) (oc_nci_rollforward prior)) [] = Inr opening_map"
    and e: "nci_of_entity env m translated opening_map acquisitions changes e = Inr n"
    using ncis_built[OF built n(1)]
    by (auto simp: prior_file_def out_dir_records_def ingest_opening_nci_balances_def)
  obtain x where x: "compute_nci_rollforward (dv_round env) (dec_div (dv_group env)) x = Inr n" "ni_entity x = e"
    "ni_opening_nci x = amount_or_zero opening_map (me_code e)"
    "ni_acquisition_date_nci_fair_value x = map_of acquisitions (me_code e)"
    "ni_ownership_changes x = get_or_empty changes (me_code e)"
    using nci_computed[OF e] by metis
  have closed: "\<forall>r \<in> set (oc_nci_rollforward prior). rounds_to_cents (dv_round env)
      \<and> (\<exists>x. compute_nci_rollforward (dv_round env) (dec_div (dv_group env)) x = Inr r)"
    using rd ncis_built[OF old] nci_computed by meson
  show ?thesis
    using rd x n(2,3) nci_code(1)[OF x(1)] by (intro interests.opens[OF map closed]) (auto simp: get_or_empty_def)
qed

lemma chain_runs:
  assumes "chain_loop env specs prior = Inr rs"
  shows "length rs = length specs \<and> (\<forall>k < length rs. run_aggregate env (ps_manifest (specs ! k)) (ps_shards (specs ! k))
      (ps_options (specs ! k)\<lparr>ao_prior_period_aggregate :=
         (if k = 0 then prior else Some (out_dir_records (rs ! (k - 1))))\<rparr>) = Inr (rs ! k))"
  using assms
proof (induction env specs prior arbitrary: rs rule: chain_loop.induct)
  case (2 env spec specs prior)
  then obtain r rs' where r: "rs = r # rs'"
    "run_aggregate env (ps_manifest spec) (ps_shards spec) (ps_options spec\<lparr>ao_prior_period_aggregate := prior\<rparr>) = Inr r"
    "chain_loop env specs (Some (out_dir_records r)) = Inr rs'" by (auto simp: try_bind_eq_Inr)
  note IH = 2(1)[OF r(3)]
  show ?case
  proof (intro conjI allI impI)
    fix k assume k: "k < length rs"
    show "run_aggregate env (ps_manifest ((spec # specs) ! k)) (ps_shards ((spec # specs) ! k))
      (ps_options ((spec # specs) ! k)\<lparr>ao_prior_period_aggregate :=
         (if k = 0 then prior else Some (out_dir_records (rs ! (k - 1))))\<rparr>) = Inr (rs ! k)"
    proof (cases k)
      case 0
      then show ?thesis by (simp add: r(1,2))
    next
      case (Suc j)
      then show ?thesis
        using conjunct2[OF IH, THEN spec, of j] IH k by (cases j) (simp_all add: r(1))
    qed
  qed (use IH in \<open>simp add: r(1)\<close>)
qed simp

lemma run_opens_with:
  fixes prior r :: "('ts, 'f::linordered_field, 'd::linordered_field, 'wf) AggregateOutcome"
  assumes "rounds_to_cents (dv_round env)" "run_aggregate env m0 shards0 opts0 = Inr prior"
    and "run_aggregate env m shards (opts\<lparr>ao_prior_period_aggregate := Some (out_dir_records prior)\<rparr>) = Inr r"
  shows "opens_with m shards prior r"
proof -
  obtain w0 :: "('ts, 'd, 'wf) StreamingWalkOutcome" where prior:
    "build_nci_rollforwards env m0 (so_translated_tbs w0) (ao_prior_period_aggregate opts0)
       (ingest_acquisition_date_nci_fair_values m0 shards0) (ingest_ownership_change_events m0 shards0)
       = Inr (oc_nci_rollforward prior)"
    "build_equity_method_investments env m0 (so_deferred_tbs w0) (resolve_primary_framework m0)
       (ao_prior_period_aggregate opts0) = Inr (oc_equity_method_investments prior)"
    by (rule aggregate_run[OF assms(2)])
  obtain w :: "('ts, 'd, 'wf) StreamingWalkOutcome" where new:
    "build_cta_rollforwards (so_translated_tbs w) (gm_presentation_currency m) (Some (out_dir_records prior))
       = Inr (oc_cta_rollforward r)"
    "build_nci_rollforwards env m (so_translated_tbs w) (Some (out_dir_records prior))
       (ingest_acquisition_date_nci_fair_values m shards) (ingest_ownership_change_events m shards)
       = Inr (oc_nci_rollforward r)"
    "build_equity_method_investments env m (so_deferred_tbs w) (resolve_primary_framework m)
       (Some (out_dir_records prior)) = Inr (oc_equity_method_investments r)"
    by (rule aggregate_run[OF assms(3)]) simp
  show ?thesis
    using cta_opens[OF new(1)] associates_open[OF assms(1) prior(2) new(3)] interests_open[OF assms(1) prior(1) new(2)]
    by (simp add: opens_with_def list_all_iff)
qed

text \<open>C9. In a chain of periods each one opens with what the period before closed with: the
  translation adjustment of every entity, the carrying amount and the suppressed losses of every
  associate, and the interests of every minority for which no fair value at acquisition and no
  change of ownership is recorded.\<close>

theorem chain_opens_with_closings:
  assumes "rounds_to_cents (dv_round env)" "run_aggregate_chain env specs = Inr rs"
  shows "length rs = length specs \<and> (\<forall>k. Suc k < length rs \<longrightarrow>
     opens_with (ps_manifest (specs ! Suc k)) (ps_shards (specs ! Suc k)) (rs ! k) (rs ! Suc k))"
proof (cases specs)
  case (Cons spec specs')
  then have "chain_loop env specs (ao_prior_period_aggregate (ps_options spec)) = Inr rs"
    using assms(2) by (simp add: run_aggregate_chain_def)
  note runs = chain_runs[OF this]
  show ?thesis
  proof (intro conjI allI impI)
    fix k assume k: "Suc k < length rs"
    note step = conjunct2[OF runs, THEN spec, THEN mp]
    show "opens_with (ps_manifest (specs ! Suc k)) (ps_shards (specs ! Suc k)) (rs ! k) (rs ! Suc k)"
      using step[of "Suc k"] k by (intro run_opens_with[OF assms(1) step[of k]]) auto
  qed (simp add: runs)
qed (use assms(2) in \<open>simp add: run_aggregate_chain_def\<close>)

section \<open>Missing archives\<close>

lemma loaded_member:
  assumes "load_entity_trial_balance tbs = Inr tb"
  shows "tb \<in> set tbs"
proof (cases tbs)
  case (Cons t ts)
  then show ?thesis
    using assms max_by_key_member[of "\<lambda>tb. (sint (tb_fiscal_year tb), unat (tb_fiscal_period tb))" t ts]
    by (simp add: load_entity_trial_balance_def)
qed (use assms in \<open>simp add: load_entity_trial_balance_def\<close>)

lemma archives_loaded:
  assumes "try_fold (archive_step shards tolerate) es w = Inr w'" "p \<in> set (wo_contributing_tbs w')"
  shows "p \<in> set (wo_contributing_tbs w)
    \<or> (\<exists>e \<in> set es. \<exists>tbs. sh_trial_balances (shards (me_code e)) = Some tbs \<and> snd p \<in> set tbs)"
  using assms(1)
proof (induction es arbitrary: w)
  case Nil
  then show ?case using assms(2) by simp
next
  case (Cons e es)
  then obtain w1 where w1: "archive_step shards tolerate e w = Inr w1"
    "try_fold (archive_step shards tolerate) es w1 = Inr w'" by (auto simp: try_bind_eq_Inr)
  show ?case
    using Cons.IH[OF w1(2)] w1(1) loaded_member
    by (fastforce simp: archive_step_def Let_def try_bind_eq_Inr split: option.splits if_split_asm)
qed

lemma translate_one_code:
  assumes "translate_one_entity env tb e m framework cpi = Inr t"
  shows "tr_entity_code t = tb_company_code tb"
  using assms
  by (auto simp: translate_one_entity_def translate_entity_tb_with_hyperinflation_def translate_tb_Inr Let_def
      split: RestatementPath.splits)

lemma translated_loaded:
  assumes "distinct (map me_code (og_entities (gm_ownership_graph m)))"
    and "walk_aggregate_streaming env m shards framework cpi tolerate = Inr s" "t \<in> set (so_translated_tbs s)"
  shows "\<exists>e \<in> set (og_entities (gm_ownership_graph m)). \<exists>tbs. \<exists>tb \<in> set tbs.
    sh_trial_balances (shards (me_code e)) = Some tbs \<and> tr_entity_code t = tb_company_code tb"
proof -
  obtain w where w: "walk_entity_archives m shards tolerate = Inr w"
    "translate_all_contributing env (wo_contributing_tbs w) m framework (entity_lookup m) cpi = Inr (so_translated_tbs s)"
    using assms(2) unfolding streaming_walk[OF assms(1)] by blast
  obtain p where p: "p \<in> set (wo_contributing_tbs w)"
    "translate_contributing env m framework (entity_lookup m) (cpi_option cpi) p = Inr t"
    using try_map_member[OF w(2)[unfolded translate_all_contributing_def] assms(3)] by blast
  have "tr_entity_code t = tb_company_code (snd p)"
    using p(2) translate_one_code by (auto simp: translate_contributing_def split: option.splits)
  moreover obtain w0 where "try_fold (archive_step shards tolerate) (og_entities (gm_ownership_graph m)) no_entities = Inr w0"
    "wo_contributing_tbs w = wo_contributing_tbs w0"
    using w(1) by (auto simp: walk_entity_archives_def no_entities_def try_bind_eq_Inr)
  ultimately show ?thesis
    using archives_loaded p(1) by (fastforce simp: no_entities_def)
qed

lemma try_map_ok: "try_map f xs = Inr ys \<Longrightarrow> x \<in> set xs \<Longrightarrow> \<exists>y. f x = Inr y"
  by (induction xs arbitrary: ys) (auto simp: try_bind_eq_Inr)

text \<open>C10. The tolerance of missing archives does not reach subsidiaries with a minority: if no trial
  balance that was read carries the code of such a subsidiary, because its archive is missing or
  names another company, the consolidation fails whatever the options.\<close>

theorem minority_needs_archive:
  assumes "distinct (map me_code (og_entities (gm_ownership_graph m)))"
    and "e \<in> set (og_entities (gm_ownership_graph m))" "has_minority e"
    and "\<forall>e' \<in> set (og_entities (gm_ownership_graph m)). \<forall>tbs. sh_trial_balances (shards (me_code e')) = Some tbs
       \<longrightarrow> me_code e \<notin> tb_company_code ` set tbs"
  shows "\<not> is_ok (run_aggregate env m shards opts)"
proof
  assume "is_ok (run_aggregate env m shards opts)"
  then obtain r where r: "run_aggregate env m shards opts = Inr r" by (auto simp: is_ok_iff)
  obtain s where walk: "walk_aggregate_streaming env m shards (resolve_primary_framework m)
        (ao_cpi_series_by_currency opts) (ao_tolerate_missing_shards opts) = Inr s"
    and ncis: "build_nci_rollforwards env m (so_translated_tbs s) (ao_prior_period_aggregate opts)
       (ingest_acquisition_date_nci_fair_values m shards) (ingest_ownership_change_events m shards)
       = Inr (oc_nci_rollforward r)"
    by (rule aggregate_run[OF r])
  let ?translated = "bt_collect (map (\<lambda>t. (tr_entity_code t, t)) (so_translated_tbs s))"
  have "tr_entity_code t \<noteq> me_code e" if t: "t \<in> set (so_translated_tbs s)" for t
  proof -
    obtain e' tbs tb where "e' \<in> set (og_entities (gm_ownership_graph m))" "tb \<in> set tbs"
      "sh_trial_balances (shards (me_code e')) = Some tbs" "tr_entity_code t = tb_company_code tb"
      using translated_loaded[OF assms(1) walk t] by blast
    then show ?thesis using assms(4) by (metis image_eqI)
  qed
  then have "me_code e \<notin> fst ` set (rev (map (\<lambda>t. (tr_entity_code t, t)) (so_translated_tbs s)))"
    by force
  then have none: "map_of ?translated (me_code e) = None"
    by (simp only: map_of_bt_collect map_of_eq_None_iff not_False_eq_True)
  obtain opening_map where built: "try_map (nci_of_entity env m ?translated opening_map
        (ingest_acquisition_date_nci_fair_values m shards) (ingest_ownership_change_events m shards))
      (filter has_minority (og_entities (gm_ownership_graph m))) = Inr (oc_nci_rollforward r)"
    using ncis by (auto simp: build_nci_rollforwards_def try_bind_eq_Inr)
  have "e \<in> set (filter has_minority (og_entities (gm_ownership_graph m)))"
    using assms(2,3) by simp
  from try_map_ok[OF built this] show False
    by (simp add: nci_of_entity_def none)
qed

section \<open>Concrete periods\<close>

text \<open>A group of the foreign subsidiary B and its associate C.\<close>

definition driver_sample_env :: "(nat, rat) driver_env" where
  "driver_sample_env =
     \<lparr>dv_group = sample_group_env, dv_elim = sample_elim_env, dv_now = 0,
      dv_conversion = sample_conversion_env, dv_round = round_cents\<rparr>"

definition driver_subsidiary :: "rat ManifestEntity" where
  "driver_subsidiary = (sample_manifest_entity ''B'')
     \<lparr>me_functional_currency := ''USD'', me_ownership_percent := Some 1\<rparr>"

definition driver_associate :: "rat ManifestEntity" where
  "driver_associate = (sample_manifest_entity ''C'')
     \<lparr>me_consolidation_method := EquityMethod, me_ownership_percent := Some (1 / 4), me_parent_code := Some ''B''\<rparr>"

definition driver_group :: "rat ManifestEntity list \<Rightarrow> (rat, rat, unit) aggregate_manifest" where
  "driver_group entities =
     \<lparr>gm_schema_version = ''1.0'', gm_group_id = ''G'', gm_group_seed = 7,
      gm_presentation_currency = ''CHF'', gm_period = \<lparr>mp_start = 0, mp_end = 364\<rparr>,
      gm_manifest_seed = '''', gm_aggregate_seed = '''',
      gm_ownership_graph = \<lparr>og_parent_entity_code = ''B'', og_entities = entities\<rparr>,
      gm_ic_relationships = [], gm_matching = default_matching,
      gm_other_plans = \<lparr>ap_chart_of_accounts_master = \<lparr>cm_primary_framework = '''', cm_frameworks = [], cm_coa_id = ''''\<rparr>,
        ap_fx_rate_master = sample_master, ap_cgu_plan = \<lparr>cp_cgus = [], cp_goodwill_allocations = []\<rparr>,
        ap_others = ()\<rparr>\<rparr>"

definition driver_shards :: "string \<Rightarrow> (nat, rat, unit) shard_archive" where
  "driver_shards code =
     \<lparr>sh_trial_balances = (if code = ''A'' then None else Some [sample_trial]), sh_journal_entries = None,
      sh_business_combinations = None, sh_ownership_change_events = None\<rparr>"

definition driver_options :: "rat prior_period option \<Rightarrow> rat AggregateOptions" where
  "driver_options prior =
     \<lparr>ao_prior_period_aggregate = prior, ao_tolerate_missing_shards = True, ao_cgu_test_inputs = [],
      ao_cpi_series_by_currency = []\<rparr>"

abbreviation driver_period :: "(rat, rat, unit) aggregate_manifest" where
  "driver_period \<equiv> driver_group [driver_subsidiary, driver_associate]"

lemma driver_entities:
  "og_entities (gm_ownership_graph (driver_group es)) = es" "gm_presentation_currency (driver_group es) = ''CHF''"
  "me_code driver_subsidiary = ''B''" "me_code driver_associate = ''C''"
  "me_consolidation_method driver_subsidiary = Full" "me_consolidation_method driver_associate = EquityMethod"
  "me_ownership_percent driver_subsidiary = Some 1" "me_ownership_percent driver_associate = Some (1 / 4)"
  "me_parent_code driver_associate = Some ''B''"
  by (simp_all add: driver_group_def driver_subsidiary_def driver_associate_def sample_manifest_entity_def)

lemma driver_distinct: "distinct (map me_code (og_entities (gm_ownership_graph driver_period)))"
  by (simp add: driver_entities)

lemma driver_translation:
  obtains t where "translate_one_entity driver_sample_env sample_trial driver_subsidiary driver_period UsGaap None = Inr t"
    "tr_entity_code t = ''B''" "tr_functional_currency t = ''USD''"
proof -
  obtain t where t: "translate_entity_tb_with_indexed_restatement round_cents (/) sample_trial ''USD'' sample_master
      364 ''CHF'' UsGaap NotHyperinflationary None = Inr t"
    by (simp add: translate_entity_tb_with_indexed_restatement_def translate_line_eq sample_trial_def
        new_trial_balance_def rate_of_def basis_of_def requires_restatement_def classification_by_range
        sample_master_def pair_key_def Let_def classify_by_range_def classify_asset_range_def
        parse_unsigned_def digit_value_def)
  moreover from t have "translate_one_entity driver_sample_env sample_trial driver_subsidiary driver_period UsGaap None = Inr t"
    by (simp add: translate_one_entity_def translate_entity_tb_with_hyperinflation_def select_restatement_path_def
        requires_restatement_def driver_subsidiary_def sample_manifest_entity_def driver_group_def driver_sample_env_def
        sample_group_env_def)
  moreover have "tb_company_code sample_trial = ''B''"
    by (simp add: sample_trial_def new_trial_balance_def tb_add_line_def recalculate_def Let_def)
  ultimately show ?thesis using that translate_tb_Inr by metis
qed

lemma driver_framework: "resolve_primary_framework driver_period = UsGaap"
  by (simp add: resolve_primary_framework_def driver_group_def Let_def)

lemma driver_walk:
  obtains s where "walk_aggregate_streaming driver_sample_env driver_period driver_shards UsGaap [] True = Inr s"
    "so_deferred_tbs s = [(''C'', sample_trial)]" "so_ic_journal_entries s = [(''B'', [])]"
    "map tr_entity_code (so_translated_tbs s) = [''B'']" "map tr_functional_currency (so_translated_tbs s) = [''USD'']"
    "ag_currency (so_pre_elim s) = ''CHF''"
proof -
  obtain t where t: "translate_one_entity driver_sample_env sample_trial driver_subsidiary driver_period UsGaap None = Inr t"
    "tr_entity_code t = ''B''" "tr_functional_currency t = ''USD''"
    by (rule driver_translation)
  have look: "map_of (entity_lookup driver_period) ''B'' = Some driver_subsidiary"
    using method_of_member(2)[OF driver_distinct, of driver_subsidiary] by (simp add: driver_entities)
  have methods: "method_of driver_period ''B'' = Some Full" "method_of driver_period ''C'' = Some EquityMethod"
    using method_of_member(1)[OF driver_distinct, of driver_subsidiary]
      method_of_member(1)[OF driver_distinct, of driver_associate] by (simp_all add: driver_entities)
  have tb: "load_entity_trial_balance [sample_trial] = Inr sample_trial"
    by (simp add: load_entity_trial_balance_def max_by_key_def)
  have "walk_aggregate_streaming driver_sample_env driver_period driver_shards UsGaap [] True =
     Inr (\<lparr>so_pre_elim = finalise_streaming_aggregate (defer_entity
            (accumulate_tb (empty_aggregate driver_period) ''B'' sample_trial) ''C'' EquityMethod),
          so_translated_tbs = [t], so_entity_contributions = contribute_tb [] (''B'', sample_trial),
          so_deferred_tbs = [(''C'', sample_trial)], so_ic_journal_entries = [(''B'', [])], so_entities_missing = []\<rparr>
        :: (nat, rat, unit) StreamingWalkOutcome)"
    by (simp add: walk_aggregate_streaming_def cpi_option_def driver_entities streaming_step_def driver_shards_def tb
        accumulate_entity_into_aggregate_def lookup_method_eq methods ensure_currency_matches_def look t(1)
        stream_ic_entries_def load_entity_journal_entries_def)
  then show ?thesis
    by (rule that)
      (simp_all add: t(2,3) finalise_streaming_aggregate_def defer_entity_def accumulate_tb_def empty_aggregate_def driver_entities)
qed

lemma no_pairs_eliminated:
  assumes "so_ic_journal_entries w = [(c, [])]"
  shows "\<exists>matched post. eliminate_intercompany env m w = Inr (matched, post) \<and> ag_currency post = ag_currency (so_pre_elim w)"
  using assms
  by (auto simp: eliminate_intercompany_def match_ic_pairs_def collect_sides_def generate_eliminations_def
      eliminations_to_journal_entries_def elimination_to_journal_entries_def apply_eliminations_eq Let_def)

text \<open>One period, without a prior one and after another.\<close>

definition driver_outcome_ok :: "(nat, rat, rat, unit) AggregateOutcome \<Rightarrow> bool" where
  "driver_outcome_ok r \<longleftrightarrow>
     map cr_entity_code (oc_cta_rollforward r) = [''B''] \<and> oc_nci_rollforward r = []
     \<and> map em_investee_code (oc_equity_method_investments r) = [''C'']"

lemma driver_investment:
  "\<exists>i. investment_of_entity driver_sample_env driver_period deferred UsGaap opening_map suppressed_map (driver_associate, ''B'')
        = Inr i \<and> em_investee_code i = ''C'' \<and> em_currency i = ''CHF''"
proof -
  have checks: "equity_checks driver_associate = Inr (1 / 4)"
    by (simp add: equity_checks_Inr driver_entities)
  show ?thesis
    by (auto simp: investment_of_entity_def compute_equity_method_investment_def checks driver_entities Let_def
        split: prod.split)
qed

lemma driver_run:
  assumes "prior = None \<or> (\<exists>r0. prior = Some (out_dir_records r0) \<and> driver_outcome_ok r0)"
  shows "\<exists>r. run_aggregate driver_sample_env driver_period driver_shards (driver_options prior) = Inr r
    \<and> driver_outcome_ok r"
proof -
  obtain s where s: "walk_aggregate_streaming driver_sample_env driver_period driver_shards UsGaap [] True = Inr s"
    "so_deferred_tbs s = [(''C'', sample_trial)]" "so_ic_journal_entries s = [(''B'', [])]"
    "map tr_entity_code (so_translated_tbs s) = [''B'']" "map tr_functional_currency (so_translated_tbs s) = [''USD'']"
    "ag_currency (so_pre_elim s) = ''CHF''"
    by (rule driver_walk)
  obtain matched post where elim: "eliminate_intercompany driver_sample_env driver_period s = Inr (matched, post)"
    "ag_currency post = ''CHF''"
    using no_pairs_eliminated[OF s(3)] s(6) by metis
  obtain t where t: "so_translated_tbs s = [t]" "tr_entity_code t = ''B''" "tr_functional_currency t = ''USD''"
    using s(4,5) by (auto simp: map_eq_Cons_conv)
  obtain ctas where ctas: "build_cta_rollforwards (so_translated_tbs s) ''CHF'' prior = Inr ctas"
    "map cr_entity_code ctas = [''B'']"
  proof -
    have "is_ok (ingest_opening_cta_balances prior)"
      using assms by (auto simp: ingest_opening_cta_balances_def prior_file_def out_dir_records_def is_ok_iff
          ingest_opening_spec driver_outcome_ok_def comp_def)
    then show ?thesis
      using that by (auto simp: build_cta_rollforwards_def is_ok_iff t cta_rollforward_def)
  qed
  obtain ncis where ncis: "build_nci_rollforwards driver_sample_env driver_period (so_translated_tbs s) prior
      (ingest_acquisition_date_nci_fair_values driver_period driver_shards)
      (ingest_ownership_change_events driver_period driver_shards) = Inr ncis" "ncis = []"
  proof -
    have "is_ok (ingest_opening_nci_balances (prior_file pp_nci_rollforward prior))"
      using assms by (auto simp: ingest_opening_nci_balances_def prior_file_def out_dir_records_def driver_outcome_ok_def)
    then show ?thesis
      using that by (auto simp: build_nci_rollforwards_def is_ok_iff driver_entities has_minority_def)
  qed
  obtain invs where invs: "build_equity_method_investments driver_sample_env driver_period (so_deferred_tbs s) UsGaap prior
      = Inr invs" "map em_investee_code invs = [''C'']" "\<forall>i \<in> set invs. em_currency i = ''CHF''"
  proof -
    have "is_ok (ingest_opening_equity_method_carrying_values (prior_file pp_equity_method_investments prior))"
      "is_ok (ingest_opening_suppressed_losses (prior_file pp_equity_method_investments prior))"
      using assms by (auto simp: ingest_opening_equity_method_carrying_values_def ingest_opening_suppressed_losses_def
          prior_file_def out_dir_records_def is_ok_iff ingest_opening_spec driver_outcome_ok_def comp_def)
    then obtain opening_map suppressed_map where maps:
      "ingest_opening_equity_method_carrying_values (prior_file pp_equity_method_investments prior) = Inr opening_map"
      "ingest_opening_suppressed_losses (prior_file pp_equity_method_investments prior) = Inr suppressed_map"
      by (auto simp: is_ok_iff)
    show ?thesis
      using driver_investment[of "bt_collect (so_deferred_tbs s)" opening_map suppressed_map] that
      by (auto simp: build_equity_method_investments_def maps driver_entities List.map_filter_simps)
  qed
  obtain overlaid where overlaid: "apply_nci_and_equity_method post ncis invs = Inr overlaid"
    using invs(3) ncis(2) elim(2) by (auto simp: overlay_eq find_None_iff split: option.split)
  show ?thesis
    using s(1) elim(1) ctas ncis invs overlaid
    by (simp add: run_aggregate_def driver_framework driver_options_def driver_entities Let_def
        run_cgu_impairment_tests_def driver_outcome_ok_def)
qed


lemma consolidation_adds_no_imbalance_witness:
  "\<exists>r w. run_aggregate driver_sample_env driver_period driver_shards (driver_options None)
       = Inr (r :: (nat, rat, rat, unit) AggregateOutcome)
     \<and> walk_entity_archives driver_period driver_shards True = Inr w
     \<and> imbalance (oc_post_overlay r) = tb_imbalance (wo_contributing_tbs w)"
proof -
  obtain r where r: "run_aggregate driver_sample_env driver_period driver_shards (driver_options None) = Inr r"
    using driver_run[of None] by blast
  show ?thesis
    using consolidation_adds_no_imbalance[OF driver_distinct r] r by (auto simp: driver_options_def)
qed

definition driver_spec :: "(nat, rat, rat, unit, unit) PeriodSpec" where
  "driver_spec = \<lparr>ps_manifest = driver_period, ps_shards = driver_shards, ps_options = driver_options None\<rparr>"

lemma chain_opens_with_closings_witness:
  "\<exists>r1 r2. run_aggregate_chain driver_sample_env [driver_spec, driver_spec] = Inr [r1, r2]
     \<and> opens_with driver_period driver_shards r1 r2 \<and> length (oc_cta_rollforward r2) = 1
     \<and> length (oc_equity_method_investments r2) = 1"
proof -
  obtain r1 where r1: "run_aggregate driver_sample_env driver_period driver_shards (driver_options None) = Inr r1"
    "driver_outcome_ok r1"
    using driver_run[of None] by blast
  obtain r2 where r2: "run_aggregate driver_sample_env driver_period driver_shards
      (driver_options (Some (out_dir_records r1))) = Inr r2" "driver_outcome_ok r2"
    using driver_run[of "Some (out_dir_records r1)"] r1(2) by blast
  have chain: "run_aggregate_chain driver_sample_env [driver_spec, driver_spec] = Inr [r1, r2]"
    using r1(1) r2(1) by (simp add: run_aggregate_chain_def driver_spec_def driver_options_def)
  have "length (oc_cta_rollforward r2) = 1" "length (oc_equity_method_investments r2) = 1"
    using r2(2) by (auto simp: driver_outcome_ok_def map_eq_Cons_conv)
  moreover have "rounds_to_cents (dv_round driver_sample_env)"
    by (simp add: driver_sample_env_def round_cents_rounds)
  ultimately show ?thesis
    using chain chain_opens_with_closings[OF _ chain, THEN conjunct2, THEN spec, of 0] by (simp add: driver_spec_def)
qed

lemma minority_needs_archive_witness:
  "\<not> is_ok (run_aggregate driver_sample_env (driver_group [sample_manifest_entity ''A'']) driver_shards
      (driver_options None) :: (_, (nat, rat, rat, unit) AggregateOutcome) result)"
  by (rule minority_needs_archive[where e = "sample_manifest_entity ''A''"])
     (simp_all add: driver_entities has_minority_def sample_manifest_entity_def driver_shards_def)

end
