(* ===== verification/Channel.thy ===== *)
theory Channel
  imports Prelude "HOL-Library.Sublist"
begin

text \<open>
  Model of \<^verbatim>\<open>crates/datasynth-core/src/streaming/channel.rs\<close>: the bounded channel with
  backpressure. First the critical sections as functions on the channel's state, then the
  channel as a system of threads that interleave: a thread is in one of the control points of
  its call, the mutex has an owner only while a thread is about to wait, and the two condition
  variables are the sets of threads that wait on them. Buffer sizes are natural numbers; the
  atomic counters are 64-bit words.
\<close>

section \<open>State\<close>

text \<open>\<^verbatim>\<open>BackpressureStrategy\<close> and \<^verbatim>\<open>StreamEvent\<close> are in \<^verbatim>\<open>traits/streaming.rs\<close>; the payloads
  of the progress, error and summary events are only carried.\<close>

datatype BackpressureStrategy = Block | DropOldest | DropNewest | Buffer nat

datatype ('a, 'p, 'e, 's) StreamEvent =
    Data 'a
  | Progress 'p
  | BatchComplete u64 nat
  | StreamErr 'e
  | Complete 's

fun is_data :: "('a, 'p, 'e, 's) StreamEvent \<Rightarrow> bool" where
  "is_data (Data _) = True" | "is_data _ = False"

fun is_complete :: "('a, 'p, 'e, 's) StreamEvent \<Rightarrow> bool" where
  "is_complete (Complete _) = True" | "is_complete _ = False"

fun is_error :: "('a, 'p, 'e, 's) StreamEvent \<Rightarrow> bool" where
  "is_error (StreamErr _) = True" | "is_error _ = False"

fun into_data :: "('a, 'p, 'e, 's) StreamEvent \<Rightarrow> 'a option" where
  "into_data (Data x) = Some x" | "into_data _ = None"

datatype SynthError = ChannelClosed | GenerationError string

record ChannelStats =
  stats_items_sent :: u64
  stats_items_received :: u64
  stats_items_dropped :: u64
  stats_buffer_size :: nat
  stats_max_buffer_size :: nat
  stats_send_blocks :: u64
  stats_receive_blocks :: u64

record 'a BoundedChannel =
  buffer :: "'a list"
  closed :: bool
  items_sent :: u64
  items_received :: u64
  items_dropped :: u64
  send_blocks :: u64
  receive_blocks :: u64
  max_buffer_size :: u64
  capacity :: nat
  strategy :: BackpressureStrategy

definition new_channel :: "nat \<Rightarrow> BackpressureStrategy \<Rightarrow> 'a BoundedChannel" where
  "new_channel cap strat =
     \<lparr>buffer = [], closed = False, items_sent = 0, items_received = 0, items_dropped = 0,
      send_blocks = 0, receive_blocks = 0, max_buffer_size = 0,
      capacity = cap, strategy = strat\<rparr>"

section \<open>Critical sections\<close>

text \<open>A critical section either returns from the call or decides to wait on its condition
  variable; a sender that waits remembers the length it waits for.\<close>

datatype 'r outcome = Return 'r | Park nat

type_synonym send_result = "(SynthError, bool) result"

definition full :: "'a BoundedChannel \<Rightarrow> bool" where
  "full ch \<longleftrightarrow> length (buffer ch) \<ge> capacity ch"

text \<open>The end of \<^verbatim>\<open>send\<close>: push, count, raise the recorded maximum.\<close>

definition push_item :: "'a BoundedChannel \<Rightarrow> 'a \<Rightarrow> 'a BoundedChannel" where
  "push_item ch item =
     (let buf = buffer ch @ [item]; current_size = word_of_nat (length buf)
      in ch\<lparr>buffer := buf, items_sent := items_sent ch + 1,
            max_buffer_size :=
              (if current_size > max_buffer_size ch then current_size else max_buffer_size ch)\<rparr>)"

text \<open>\<^verbatim>\<open>buffer.pop_front()\<close> of the drop-oldest strategy, with its count.\<close>

definition drop_oldest :: "'a BoundedChannel \<Rightarrow> 'a BoundedChannel" where
  "drop_oldest ch = ch\<lparr>buffer := tl (buffer ch), items_dropped := items_dropped ch + 1\<rparr>"

definition drop_newest :: "'a BoundedChannel \<Rightarrow> 'a BoundedChannel" where
  "drop_newest ch = ch\<lparr>items_dropped := items_dropped ch + 1\<rparr>"

text \<open>The \<^verbatim>\<open>wait_while\<close> of \<^verbatim>\<open>send\<close> and the check after it: keep waiting while the buffer is
  at the limit and the channel is open; once awake, fail on a closed channel, else push.\<close>

definition send_wait ::
    "'a BoundedChannel \<Rightarrow> 'a \<Rightarrow> nat \<Rightarrow> send_result outcome \<times> 'a BoundedChannel" where
  "send_wait ch item limit =
     (if length (buffer ch) \<ge> limit \<and> \<not> closed ch then (Park limit, ch)
      else if closed ch then (Return (Inl ChannelClosed), ch)
      else (Return (Inr True), push_item ch item))"

text \<open>\<^verbatim>\<open>send\<close> from the point where it holds the lock.\<close>

definition send_locked ::
    "'a BoundedChannel \<Rightarrow> 'a \<Rightarrow> send_result outcome \<times> 'a BoundedChannel" where
  "send_locked ch item =
     (if full ch then
        (case strategy ch of
           Block \<Rightarrow> send_wait (ch\<lparr>send_blocks := send_blocks ch + 1\<rparr>) item (capacity ch)
         | DropOldest \<Rightarrow> (Return (Inr True), push_item (drop_oldest ch) item)
         | DropNewest \<Rightarrow> (Return (Inr False), drop_newest ch)
         | Buffer max_overflow \<Rightarrow>
             (if length (buffer ch) \<ge> capacity ch + max_overflow
              then send_wait (ch\<lparr>send_blocks := send_blocks ch + 1\<rparr>) item (capacity ch + max_overflow)
              else (Return (Inr True), push_item ch item)))
      else (Return (Inr True), push_item ch item))"

text \<open>The end of \<^verbatim>\<open>send_timeout\<close>: push and count, without raising the maximum.\<close>

definition push_timed :: "'a BoundedChannel \<Rightarrow> 'a \<Rightarrow> 'a BoundedChannel" where
  "push_timed ch item = ch\<lparr>buffer := buffer ch @ [item], items_sent := items_sent ch + 1\<rparr>"

text \<open>The strategy that \<^verbatim>\<open>send_timeout\<close> applies when its time is up.\<close>

definition send_timed_out ::
    "'a BoundedChannel \<Rightarrow> 'a \<Rightarrow> send_result outcome \<times> 'a BoundedChannel" where
  "send_timed_out ch item =
     (case strategy ch of
        DropNewest \<Rightarrow> (Return (Inr False), drop_newest ch)
      | DropOldest \<Rightarrow> (Return (Inr True), push_timed (drop_oldest ch) item)
      | _ \<Rightarrow> (Return (Inl (GenerationError ''send timeout'')), ch))"

text \<open>One pass of the loop of \<^verbatim>\<open>send_timeout\<close> up to the wait. Whether the remaining time is
  zero is the clock's answer.\<close>

definition send_timeout_head ::
    "'a BoundedChannel \<Rightarrow> 'a \<Rightarrow> bool \<Rightarrow> send_result outcome \<times> 'a BoundedChannel" where
  "send_timeout_head ch item remaining_is_zero =
     (if full ch then
        (if closed ch then (Return (Inl ChannelClosed), ch)
         else if remaining_is_zero then send_timed_out ch item
         else (Park (capacity ch), ch))
      else (Return (Inr True), push_timed ch item))"

text \<open>After the wait: the timeout is taken if it fired and the buffer is still full.\<close>

definition send_timeout_wake ::
    "'a BoundedChannel \<Rightarrow> 'a \<Rightarrow> bool \<Rightarrow> bool \<Rightarrow> send_result outcome \<times> 'a BoundedChannel" where
  "send_timeout_wake ch item timed_out remaining_is_zero =
     (if timed_out \<and> full ch then send_timed_out ch item
      else send_timeout_head ch item remaining_is_zero)"

definition pop_received :: "'a BoundedChannel \<Rightarrow> 'a option outcome \<times> 'a BoundedChannel" where
  "pop_received ch =
     (case buffer ch of
        [] \<Rightarrow> (Return None, ch)
      | x # rest \<Rightarrow> (Return (Some x), ch\<lparr>buffer := rest, items_received := items_received ch + 1\<rparr>))"

text \<open>One pass of the loop of \<^verbatim>\<open>recv\<close> up to the wait.\<close>

definition recv_head :: "'a BoundedChannel \<Rightarrow> 'a option outcome \<times> 'a BoundedChannel" where
  "recv_head ch =
     (if buffer ch = [] then
        (if closed ch then (Return None, ch)
         else (Park 0, ch\<lparr>receive_blocks := receive_blocks ch + 1\<rparr>))
      else pop_received ch)"

definition recv_timeout_head ::
    "'a BoundedChannel \<Rightarrow> bool \<Rightarrow> 'a option outcome \<times> 'a BoundedChannel" where
  "recv_timeout_head ch remaining_is_zero =
     (if buffer ch = [] then
        (if closed ch then (Return None, ch)
         else if remaining_is_zero then (Return None, ch)
         else (Park 0, ch))
      else pop_received ch)"

definition recv_timeout_wake ::
    "'a BoundedChannel \<Rightarrow> bool \<Rightarrow> bool \<Rightarrow> 'a option outcome \<times> 'a BoundedChannel" where
  "recv_timeout_wake ch timed_out remaining_is_zero =
     (if timed_out \<and> buffer ch = [] then (Return None, ch)
      else recv_timeout_head ch remaining_is_zero)"

definition try_recv :: "'a BoundedChannel \<Rightarrow> 'a option \<times> 'a BoundedChannel" where
  "try_recv ch =
     (case buffer ch of
        [] \<Rightarrow> (None, ch)
      | x # rest \<Rightarrow> (Some x, ch\<lparr>buffer := rest, items_received := items_received ch + 1\<rparr>))"

text \<open>The store of \<^verbatim>\<open>close\<close>; its two notifications are steps of the system below.\<close>

definition close_channel :: "'a BoundedChannel \<Rightarrow> 'a BoundedChannel" where
  "close_channel ch = ch\<lparr>closed := True\<rparr>"

definition stats :: "'a BoundedChannel \<Rightarrow> ChannelStats" where
  "stats ch =
     \<lparr>stats_items_sent = items_sent ch, stats_items_received = items_received ch,
      stats_items_dropped = items_dropped ch, stats_buffer_size = length (buffer ch),
      stats_max_buffer_size = unat (max_buffer_size ch),
      stats_send_blocks = send_blocks ch, stats_receive_blocks = receive_blocks ch\<rparr>"

definition is_closed :: "'a BoundedChannel \<Rightarrow> bool" where
  "is_closed ch = closed ch"

definition channel_len :: "'a BoundedChannel \<Rightarrow> nat" where
  "channel_len ch = length (buffer ch)"

definition channel_is_empty :: "'a BoundedChannel \<Rightarrow> bool" where
  "channel_is_empty ch \<longleftrightarrow> channel_len ch = 0"

text \<open>The event channel: the sender wraps a data item, the receiver's iterator is \<^verbatim>\<open>recv\<close>.
  On one thread a call that would wait never comes back: its result is \<^verbatim>\<open>None\<close>, and
  \<^verbatim>\<open>collect\<close> runs on fuel.\<close>

definition send_call :: "'a BoundedChannel \<Rightarrow> 'a \<Rightarrow> (send_result \<times> 'a BoundedChannel) option" where
  "send_call ch item =
     (if closed ch then Some (Inl ChannelClosed, ch)
      else (case send_locked ch item of
              (Return r, ch') \<Rightarrow> Some (r, ch')
            | (Park _, _) \<Rightarrow> None))"

definition send_data ::
    "('a, 'p, 'e, 's) StreamEvent BoundedChannel \<Rightarrow> 'a
     \<Rightarrow> (send_result \<times> ('a, 'p, 'e, 's) StreamEvent BoundedChannel) option" where
  "send_data ch item = send_call ch (Data item)"

definition recv_call :: "'a BoundedChannel \<Rightarrow> ('a option \<times> 'a BoundedChannel) option" where
  "recv_call ch =
     (case recv_head ch of
        (Return r, ch') \<Rightarrow> Some (r, ch')
      | (Park _, _) \<Rightarrow> None)"

fun collect_from :: "('s \<Rightarrow> ('a option \<times> 's) option) \<Rightarrow> nat \<Rightarrow> 's \<Rightarrow> ('a list \<times> 's) option" where
  "collect_from nxt 0 s = None"
| "collect_from nxt (Suc fuel) s =
     (case nxt s of
        None \<Rightarrow> None
      | Some (None, s') \<Rightarrow> Some ([], s')
      | Some (Some x, s') \<Rightarrow>
          (case collect_from nxt fuel s' of
             None \<Rightarrow> None
           | Some (xs, s'') \<Rightarrow> Some (x # xs, s'')))"

definition collect_events :: "nat \<Rightarrow> 'a BoundedChannel \<Rightarrow> ('a list \<times> 'a BoundedChannel) option" where
  "collect_events = collect_from recv_call"

fun send_all :: "'a BoundedChannel \<Rightarrow> 'a list \<Rightarrow> (send_result list \<times> 'a BoundedChannel) option" where
  "send_all ch [] = Some ([], ch)"
| "send_all ch (x # xs) =
     (case send_call ch x of
        None \<Rightarrow> None
      | Some (r, ch') \<Rightarrow>
          (case send_all ch' xs of
             None \<Rightarrow> None
           | Some (rs, ch'') \<Rightarrow> Some (r # rs, ch'')))"

section \<open>The channel with threads\<close>

text \<open>The control points of a thread. \<^verbatim>\<open>Sending\<close>, \<^verbatim>\<open>Receiving\<close> and the others of that form
  are about to take the lock; a parking thread holds the lock and is about to wait (waiting
  releases the lock and joins the condition variable in one step); a waiting thread is on its
  condition variable; a woken one has to take the lock again, and a timed one knows whether its
  time ran out. A call that moved an item notifies after it released the lock.\<close>

datatype 'a pc =
    Idle
  | Sending 'a
  | SendParking 'a nat
  | SendWaiting 'a nat
  | SendWoken 'a nat
  | TSending 'a
  | TSendParking 'a
  | TSendWaiting 'a
  | TSendWoken 'a bool
  | Receiving
  | RecvParking
  | RecvWaiting
  | TReceiving
  | TRecvParking
  | TRecvWaiting
  | TRecvWoken bool
  | TryReceiving
  | NotifyNotEmpty send_result
  | NotifyNotFull "'a option"
  | CloseNotifyFull
  | CloseNotifyEmpty
  | SendDone send_result
  | RecvDone "'a option"

fun between_calls :: "'a pc \<Rightarrow> bool" where
  "between_calls Idle = True"
| "between_calls (SendDone _) = True"
| "between_calls (RecvDone _) = True"
| "between_calls _ = False"

fun waits_not_full :: "'a pc \<Rightarrow> bool" where
  "waits_not_full (SendWaiting _ _) = True"
| "waits_not_full (TSendWaiting _) = True"
| "waits_not_full _ = False"

fun waits_not_empty :: "'a pc \<Rightarrow> bool" where
  "waits_not_empty RecvWaiting = True"
| "waits_not_empty TRecvWaiting = True"
| "waits_not_empty _ = False"

text \<open>A notified thread goes back to the lock; the loop of \<^verbatim>\<open>recv\<close> starts over.\<close>

fun wake :: "'a pc \<Rightarrow> 'a pc" where
  "wake (SendWaiting i l) = SendWoken i l"
| "wake (TSendWaiting i) = TSendWoken i False"
| "wake RecvWaiting = Receiving"
| "wake TRecvWaiting = TRecvWoken False"
| "wake p = p"

fun time_out :: "'a pc \<Rightarrow> 'a pc option" where
  "time_out (TSendWaiting i) = Some (TSendWoken i True)"
| "time_out TRecvWaiting = Some (TRecvWoken True)"
| "time_out _ = None"

fun park :: "'a pc \<Rightarrow> 'a pc option" where
  "park (SendParking i l) = Some (SendWaiting i l)"
| "park (TSendParking i) = Some (TSendWaiting i)"
| "park RecvParking = Some RecvWaiting"
| "park TRecvParking = Some TRecvWaiting"
| "park _ = None"

definition after_send :: "send_result \<Rightarrow> 'a pc" where
  "after_send r = (if r = Inr True then NotifyNotEmpty r else SendDone r)"

definition after_recv :: "'a option \<Rightarrow> 'a pc" where
  "after_recv r = (case r of None \<Rightarrow> RecvDone None | Some x \<Rightarrow> NotifyNotFull (Some x))"

fun resume :: "('r \<Rightarrow> 'a pc) \<Rightarrow> (nat \<Rightarrow> 'a pc) \<Rightarrow> 'r outcome \<times> 'a BoundedChannel \<Rightarrow> 'a pc \<times> 'a BoundedChannel" where
  "resume ret pk (Return r, ch) = (ret r, ch)"
| "resume ret pk (Park l, ch) = (pk l, ch)"

text \<open>The critical section of a thread at \<^verbatim>\<open>p\<close>; \<^verbatim>\<open>z\<close> is the clock's answer to
  \<^verbatim>\<open>remaining.is_zero()\<close>.\<close>

fun critical :: "bool \<Rightarrow> 'a pc \<Rightarrow> 'a BoundedChannel \<Rightarrow> ('a pc \<times> 'a BoundedChannel) option" where
  "critical z (Sending i) ch = Some (resume after_send (SendParking i) (send_locked ch i))"
| "critical z (SendWoken i l) ch = Some (resume after_send (SendParking i) (send_wait ch i l))"
| "critical z (TSending i) ch =
     Some (resume after_send (\<lambda>_. TSendParking i) (send_timeout_head ch i z))"
| "critical z (TSendWoken i timed_out) ch =
     Some (resume after_send (\<lambda>_. TSendParking i) (send_timeout_wake ch i timed_out z))"
| "critical z Receiving ch = Some (resume after_recv (\<lambda>_. RecvParking) (recv_head ch))"
| "critical z TReceiving ch = Some (resume after_recv (\<lambda>_. TRecvParking) (recv_timeout_head ch z))"
| "critical z (TRecvWoken timed_out) ch =
     Some (resume after_recv (\<lambda>_. TRecvParking) (recv_timeout_wake ch timed_out z))"
| "critical z TryReceiving ch = Some (case try_recv ch of (r, ch') \<Rightarrow> (after_recv r, ch'))"
| "critical z _ ch = None"

text \<open>What a critical section did to the buffer, read off the counters it moved: the items
  it took from the front (with whether a receiver got them) and the item it appended.\<close>

definition accepted_by :: "'a BoundedChannel \<Rightarrow> 'a BoundedChannel \<Rightarrow> 'a list" where
  "accepted_by ch ch' =
     (if items_sent ch' = items_sent ch then [] else [last (buffer ch')])"

definition removed_by :: "'a BoundedChannel \<Rightarrow> 'a BoundedChannel \<Rightarrow> (bool \<times> 'a) list" where
  "removed_by ch ch' =
     map (Pair (items_received ch' \<noteq> items_received ch))
       (take (length (buffer ch) + length (accepted_by ch ch') - length (buffer ch')) (buffer ch))"

definition refused_by :: "'a BoundedChannel \<Rightarrow> 'a BoundedChannel \<Rightarrow> nat" where
  "refused_by ch ch' =
     (if items_dropped ch' \<noteq> items_dropped ch \<and> items_sent ch' = items_sent ch then 1 else 0)"

text \<open>The system: the channel, the owner of the mutex while it is held across steps, the
  threads, and what an observer of the critical sections has seen.\<close>

record 'a sys =
  chan :: "'a BoundedChannel"
  owner :: "nat option"
  threads :: "nat \<Rightarrow> 'a pc"
  accepted :: "'a list"
  removed :: "(bool \<times> 'a) list"
  refused :: nat

definition init_sys :: "nat \<Rightarrow> BackpressureStrategy \<Rightarrow> 'a sys" where
  "init_sys cap strat =
     \<lparr>chan = new_channel cap strat, owner = None, threads = (\<lambda>_. Idle),
      accepted = [], removed = [], refused = 0\<rparr>"

definition goto :: "nat \<Rightarrow> 'a pc \<Rightarrow> 'a sys \<Rightarrow> 'a sys" where
  "goto t p s = s\<lparr>threads := (threads s)(t := p)\<rparr>"

text \<open>The beginning of a call: \<^verbatim>\<open>send\<close> and \<^verbatim>\<open>send_timeout\<close> look at \<^verbatim>\<open>closed\<close> before
  they take the lock.\<close>

datatype 'a call = CallSend 'a | CallSendTimeout 'a | CallRecv | CallRecvTimeout | CallTryRecv

fun entry :: "'a BoundedChannel \<Rightarrow> 'a call \<Rightarrow> 'a pc" where
  "entry ch (CallSend i) = (if closed ch then SendDone (Inl ChannelClosed) else Sending i)"
| "entry ch (CallSendTimeout i) = (if closed ch then SendDone (Inl ChannelClosed) else TSending i)"
| "entry ch CallRecv = Receiving"
| "entry ch CallRecvTimeout = TReceiving"
| "entry ch CallTryRecv = TryReceiving"

definition enter_section :: "nat \<Rightarrow> 'a pc \<Rightarrow> 'a BoundedChannel \<Rightarrow> 'a sys \<Rightarrow> 'a sys" where
  "enter_section t p ch s =
     s\<lparr>chan := ch, owner := (if park p = None then None else Some t),
       threads := (threads s)(t := p),
       accepted := accepted s @ accepted_by (chan s) ch,
       removed := removed s @ removed_by (chan s) ch,
       refused := refused s + refused_by (chan s) ch\<rparr>"

datatype label = Quiet | CloseCall | Spurious

text \<open>One step of one thread. \<^verbatim>\<open>close\<close> stores the flag and notifies without the lock;
  \<^verbatim>\<open>notify_one\<close> wakes any one waiting thread if there is one.\<close>

inductive sys_step :: "label \<Rightarrow> 'a sys \<Rightarrow> 'a sys \<Rightarrow> bool" where
  Call: "between_calls (threads s t) \<Longrightarrow> sys_step Quiet s (goto t (entry (chan s) c) s)"
| Lock: "owner s = None \<Longrightarrow> critical z (threads s t) (chan s) = Some (p, ch) \<Longrightarrow>
     sys_step Quiet s (enter_section t p ch s)"
| Wait: "owner s = Some t \<Longrightarrow> park (threads s t) = Some p \<Longrightarrow>
     sys_step Quiet s ((goto t p s)\<lparr>owner := None\<rparr>)"
| Timeout: "time_out (threads s t) = Some p \<Longrightarrow> sys_step Quiet s (goto t p s)"
| NotEmptyOne: "threads s t = NotifyNotEmpty r \<Longrightarrow> waits_not_empty (threads s w) \<Longrightarrow>
     sys_step Quiet s (goto t (SendDone r) (goto w (wake (threads s w)) s))"
| NotEmptyNone: "threads s t = NotifyNotEmpty r \<Longrightarrow> \<forall>w. \<not> waits_not_empty (threads s w) \<Longrightarrow>
     sys_step Quiet s (goto t (SendDone r) s)"
| NotFullOne: "threads s t = NotifyNotFull r \<Longrightarrow> waits_not_full (threads s w) \<Longrightarrow>
     sys_step Quiet s (goto t (RecvDone r) (goto w (wake (threads s w)) s))"
| NotFullNone: "threads s t = NotifyNotFull r \<Longrightarrow> \<forall>w. \<not> waits_not_full (threads s w) \<Longrightarrow>
     sys_step Quiet s (goto t (RecvDone r) s)"
| CloseStore: "between_calls (threads s t) \<Longrightarrow>
     sys_step CloseCall s (goto t CloseNotifyFull (s\<lparr>chan := close_channel (chan s)\<rparr>))"
| CloseFull: "threads s t = CloseNotifyFull \<Longrightarrow>
     sys_step Quiet s
       (goto t CloseNotifyEmpty
         (s\<lparr>threads := (\<lambda>w. if waits_not_full (threads s w) then wake (threads s w) else threads s w)\<rparr>))"
| CloseEmpty: "threads s t = CloseNotifyEmpty \<Longrightarrow>
     sys_step Quiet s
       (goto t Idle
         (s\<lparr>threads := (\<lambda>w. if waits_not_empty (threads s w) then wake (threads s w) else threads s w)\<rparr>))"
| SpuriousWake: "waits_not_full (threads s t) \<or> waits_not_empty (threads s t) \<Longrightarrow>
     sys_step Spurious s (goto t (wake (threads s t)) s)"

inductive reachable :: "'a sys \<Rightarrow> 'a sys \<Rightarrow> bool" for s0 where
  start: "reachable s0 s0"
| step: "reachable s0 s \<Longrightarrow> sys_step l s s' \<Longrightarrow> reachable s0 s'"

inductive quiet_run :: "'a sys \<Rightarrow> 'a sys \<Rightarrow> bool" for s0 where
  quiet_start: "quiet_run s0 s0"
| quiet_step: "quiet_run s0 s \<Longrightarrow> sys_step Quiet s s' \<Longrightarrow> quiet_run s0 s'"

inductive_cases sys_stepE: "sys_step l s s'"
inductive_cases quiet_stepE: "sys_step Quiet s s'"

section \<open>What the critical sections do\<close>

lemmas section_defs =
  send_locked_def send_wait_def send_timeout_head_def send_timeout_wake_def send_timed_out_def
  recv_head_def recv_timeout_head_def recv_timeout_wake_def try_recv_def pop_received_def
  push_item_def push_timed_def drop_oldest_def drop_newest_def full_def

lemmas effect_defs = accepted_by_def removed_by_def refused_by_def

lemma word_add_one_neq [simp]: "(x :: u64) + 1 \<noteq> x"
  by simp

definition unchanged_frame :: "'a BoundedChannel \<Rightarrow> 'a BoundedChannel \<Rightarrow> bool" where
  "unchanged_frame ch ch' \<longleftrightarrow>
     capacity ch' = capacity ch \<and> strategy ch' = strategy ch \<and> closed ch' = closed ch"

lemma critical_frame:
  assumes "critical z p ch = Some (p', ch')"
  shows "unchanged_frame ch ch'"
  using assms unfolding unchanged_frame_def
  by (cases p) (auto simp: section_defs Let_def
      split: if_splits BackpressureStrategy.splits list.splits)

lemma critical_effect:
  assumes "critical z p ch = Some (p', ch')"
  obtains
    (nothing) "buffer ch' = buffer ch" "items_sent ch' = items_sent ch"
      "items_received ch' = items_received ch" "items_dropped ch' = items_dropped ch"
  | (pushed) i where "buffer ch' = buffer ch @ [i]" "items_sent ch' = items_sent ch + 1"
      "items_received ch' = items_received ch" "items_dropped ch' = items_dropped ch"
  | (displaced) i where "buffer ch' = tl (buffer ch) @ [i]" "items_sent ch' = items_sent ch + 1"
      "items_received ch' = items_received ch" "items_dropped ch' = items_dropped ch + 1"
      "length (buffer ch) \<ge> capacity ch"
  | (declined) "buffer ch' = buffer ch" "items_sent ch' = items_sent ch"
      "items_received ch' = items_received ch" "items_dropped ch' = items_dropped ch + 1"
  | (received) x where "buffer ch = x # buffer ch'" "items_sent ch' = items_sent ch"
      "items_received ch' = items_received ch + 1" "items_dropped ch' = items_dropped ch"
  using assms
  by (cases p) (auto simp: section_defs Let_def
      split: if_splits BackpressureStrategy.splits list.splits)

section \<open>Invariants of the threaded channel\<close>

text \<open>Ghost fields agree with the channel.\<close>

definition books_balance :: "'a sys \<Rightarrow> bool" where
  "books_balance s \<longleftrightarrow>
     accepted s = map snd (removed s) @ buffer (chan s) \<and>
     items_sent (chan s) = of_nat (length (accepted s)) \<and>
     items_received (chan s) = of_nat (length (filter fst (removed s)))"

definition drops_balance :: "'a sys \<Rightarrow> bool" where
  "drops_balance s \<longleftrightarrow>
     items_dropped (chan s) =
       of_nat (length (filter (Not \<circ> fst) (removed s)) + refused s)"

lemma take_tl_prefix: "take (Suc 0) xs @ tl xs = xs"
  by (cases xs) auto

lemma enter_section_books:
  assumes crit: "critical z p0 (chan s) = Some (p, ch)" and inv: "books_balance s"
  shows "books_balance (enter_section t p ch s)"
  using crit
proof (cases rule: critical_effect)
  case nothing
  then show ?thesis
    using inv by (simp add: books_balance_def enter_section_def effect_defs)
next
  case (pushed i)
  then show ?thesis
    using inv by (simp add: books_balance_def enter_section_def effect_defs)
next
  case (displaced i)
  then show ?thesis
    using inv by (cases "buffer (chan s)") (simp_all add: books_balance_def enter_section_def effect_defs)
next
  case declined
  then show ?thesis
    using inv by (simp add: books_balance_def enter_section_def effect_defs)
next
  case (received x)
  then show ?thesis
    using inv by (simp add: books_balance_def enter_section_def effect_defs)
qed

lemma enter_section_drops:
  assumes crit: "critical z p0 (chan s) = Some (p, ch)" and inv: "drops_balance s"
    and cap: "capacity (chan s) > 0"
  shows "drops_balance (enter_section t p ch s)"
  using crit
proof (cases rule: critical_effect)
  case nothing
  then show ?thesis
    using inv by (simp add: drops_balance_def enter_section_def effect_defs)
next
  case (pushed i)
  then show ?thesis
    using inv by (simp add: drops_balance_def enter_section_def effect_defs)
next
  case (displaced i)
  then show ?thesis
    using inv cap by (cases "buffer (chan s)") (simp_all add: drops_balance_def enter_section_def effect_defs)
next
  case declined
  then show ?thesis
    using inv by (simp add: drops_balance_def enter_section_def effect_defs)
next
  case (received x)
  then show ?thesis
    using inv by (simp add: drops_balance_def enter_section_def effect_defs comp_def)
qed

lemma goto_sel [simp]:
  "chan (goto t p s) = chan s" "owner (goto t p s) = owner s"
  "accepted (goto t p s) = accepted s" "removed (goto t p s) = removed s"
  "refused (goto t p s) = refused s" "threads (goto t p s) = (threads s)(t := p)"
  by (simp_all add: goto_def)

lemma close_channel_sel [simp]:
  "buffer (close_channel ch) = buffer ch" "closed (close_channel ch) = True"
  "items_sent (close_channel ch) = items_sent ch"
  "items_received (close_channel ch) = items_received ch"
  "items_dropped (close_channel ch) = items_dropped ch"
  "capacity (close_channel ch) = capacity ch" "strategy (close_channel ch) = strategy ch"
  by (simp_all add: close_channel_def)

lemma enter_section_sel [simp]:
  "chan (enter_section t p ch s) = ch"
  "owner (enter_section t p ch s) = (if park p = None then None else Some t)"
  "threads (enter_section t p ch s) = (threads s)(t := p)"
  by (simp_all add: enter_section_def)

lemma step_dataE:
  assumes "sys_step l s s'"
  obtains
    (locked) z t p ch where "owner s = None" "critical z (threads s t) (chan s) = Some (p, ch)"
      "s' = enter_section t p ch s"
  | (control) "accepted s' = accepted s" "removed s' = removed s" "refused s' = refused s"
      "chan s' = chan s \<or> chan s' = close_channel (chan s)"
  using assms by (cases rule: sys_step.cases) auto

lemma step_books:
  assumes "sys_step l s s'" "books_balance s" shows "books_balance s'"
  using assms(1)
proof (cases rule: step_dataE)
  case (locked z t p ch)
  then show ?thesis using assms(2) enter_section_books by blast
qed (use assms(2) in \<open>auto simp: books_balance_def\<close>)

lemma step_config:
  assumes "sys_step l s s'"
  shows "capacity (chan s') = capacity (chan s) \<and> strategy (chan s') = strategy (chan s)"
  using assms
proof (cases rule: step_dataE)
  case (locked z t p ch)
  then show ?thesis using critical_frame by (fastforce simp: unchanged_frame_def)
qed auto

lemma step_drops:
  assumes "sys_step l s s'" "drops_balance s" "capacity (chan s) > 0" shows "drops_balance s'"
  using assms(1)
proof (cases rule: step_dataE)
  case (locked z t p ch)
  then show ?thesis using assms(2,3) enter_section_drops by blast
qed (use assms(2) in \<open>auto simp: drops_balance_def\<close>)

lemma reachable_books: "reachable (init_sys cap strat) s \<Longrightarrow> books_balance s"
proof (induction rule: reachable.induct)
  case start
  show ?case by (simp add: books_balance_def init_sys_def new_channel_def)
qed (rule step_books)

lemma reachable_config:
  "reachable (init_sys cap strat) s \<Longrightarrow> capacity (chan s) = cap \<and> strategy (chan s) = strat"
proof (induction rule: reachable.induct)
  case start
  show ?case by (simp add: init_sys_def new_channel_def)
next
  case (step s l s')
  then show ?case using step_config by metis
qed

lemma reachable_drops:
  assumes "reachable (init_sys cap strat) s" "cap > 0"
  shows "drops_balance s"
  using assms(1)
proof (induction rule: reachable.induct)
  case start
  show ?case by (simp add: drops_balance_def init_sys_def new_channel_def)
next
  case (step s l s')
  then show ?case using step_drops reachable_config assms(2) by metis
qed

text \<open>How long the buffer can get.\<close>

fun buffer_limit :: "nat \<Rightarrow> BackpressureStrategy \<Rightarrow> nat" where
  "buffer_limit cap Block = cap"
| "buffer_limit cap DropNewest = cap"
| "buffer_limit cap DropOldest = max 1 cap"
| "buffer_limit cap (Buffer m) = cap + m"

text \<open>A sender waits only for a length within the limit.\<close>

fun patient :: "nat \<Rightarrow> 'a pc \<Rightarrow> bool" where
  "patient n (SendParking i l) = (l \<le> n)"
| "patient n (SendWaiting i l) = (l \<le> n)"
| "patient n (SendWoken i l) = (l \<le> n)"
| "patient n _ = True"

definition bounded :: "'a sys \<Rightarrow> bool" where
  "bounded s \<longleftrightarrow>
     (let n = buffer_limit (capacity (chan s)) (strategy (chan s))
      in length (buffer (chan s)) \<le> n \<and> (\<forall>t. patient n (threads s t)))"

lemma buffer_limit_capacity: "cap \<le> buffer_limit cap strat"
  by (cases strat) auto

lemma critical_bounded:
  assumes "critical z p ch = Some (p', ch')"
    and "patient (buffer_limit (capacity ch) (strategy ch)) p"
    and "length (buffer ch) \<le> buffer_limit (capacity ch) (strategy ch)"
  shows "patient (buffer_limit (capacity ch) (strategy ch)) p'"
    "length (buffer ch') \<le> buffer_limit (capacity ch) (strategy ch)"
  using assms buffer_limit_capacity[of "capacity ch" "strategy ch"]
  by (cases p; auto simp: section_defs Let_def after_send_def after_recv_def
      split: if_splits BackpressureStrategy.splits list.splits)+

lemma patient_wake [simp]: "patient n p \<Longrightarrow> patient n (wake p)"
  by (cases p) auto

lemma patient_time_out: "time_out p = Some p' \<Longrightarrow> patient n p'"
  by (cases p) auto

lemma patient_park: "park p = Some p' \<Longrightarrow> patient n p \<Longrightarrow> patient n p'"
  by (cases p) auto

lemma patient_entry [simp]: "patient n (entry ch c)"
  by (cases c) auto

lemma step_bounded:
  assumes "sys_step l s s'" "bounded s" shows "bounded s'"
  using assms
proof (cases rule: sys_step.cases)
  case (Lock z t p ch)
  have "unchanged_frame (chan s) ch" using Lock critical_frame by blast
  then show ?thesis
    using critical_bounded[OF Lock(4)] assms(2) Lock(2)
    by (auto simp: bounded_def Let_def unchanged_frame_def)
next
  case (Wait t p)
  then show ?thesis
    using assms(2) patient_park by (auto simp: bounded_def Let_def)
qed (auto simp: bounded_def Let_def patient_time_out)

lemma reachable_bounded: "reachable (init_sys cap strat) s \<Longrightarrow> bounded s"
proof (induction rule: reachable.induct)
  case start
  show ?case by (simp add: bounded_def init_sys_def new_channel_def)
qed (rule step_bounded)

section \<open>No receiver sleeps through an item\<close>

text \<open>No wake-up is lost while receivers wait: there are at least as many threads about to
  notify a receiver, or about to receive, as there are items in the buffer.\<close>

fun helps_receivers :: "'a pc \<Rightarrow> bool" where
  "helps_receivers (NotifyNotEmpty _) = True"
| "helps_receivers Receiving = True"
| "helps_receivers TReceiving = True"
| "helps_receivers (TRecvWoken _) = True"
| "helps_receivers TryReceiving = True"
| "helps_receivers _ = False"

fun receiver_parking :: "'a pc \<Rightarrow> bool" where
  "receiver_parking RecvParking = True"
| "receiver_parking TRecvParking = True"
| "receiver_parking _ = False"

definition helpers :: "'a sys \<Rightarrow> nat" where
  "helpers s = card {t. helps_receivers (threads s t)}"

definition some_receiver_waits :: "'a sys \<Rightarrow> bool" where
  "some_receiver_waits s \<longleftrightarrow> (\<exists>t. waits_not_empty (threads s t))"

definition few_busy :: "(nat \<Rightarrow> 'a pc) \<Rightarrow> bool" where
  "few_busy f \<longleftrightarrow> finite {t. f t \<noteq> Idle}"

lemma few_busy_update [simp]: "few_busy f \<Longrightarrow> few_busy (f(t := p))"
  unfolding few_busy_def by (rule finite_subset[of _ "insert t {t. f t \<noteq> Idle}"]) auto

definition wake_inv :: "'a sys \<Rightarrow> bool" where
  "wake_inv s \<longleftrightarrow>
     few_busy (threads s) \<and>
     (\<forall>t. receiver_parking (threads s t) \<longrightarrow> owner s = Some t \<and> buffer (chan s) = []) \<and>
     (some_receiver_waits s \<longrightarrow> length (buffer (chan s)) \<le> helpers s)"

lemma count_update:
  assumes "few_busy f" "\<not> Q Idle"
  shows "card {u. Q ((f(t := p)) u)} + of_bool (Q (f t)) = card {u. Q (f u)} + of_bool (Q p)"
proof -
  have fin: "finite {u. Q (f u)}"
    by (rule finite_subset[OF _ assms(1)[unfolded few_busy_def]]) (use assms(2) in auto)
  let ?R = "{u. u \<noteq> t \<and> Q (f u)}"
  have finR: "finite ?R" by (rule finite_subset[OF _ fin]) auto
  have split: "{u. Q ((f(t := p)) u)} = (if Q p then insert t ?R else ?R)" for p
    by auto
  have "card {u. Q ((f(t := p)) u)} = card ?R + of_bool (Q p)" for p
    unfolding split using finR by simp
  from this[of p] this[of "f t"] show ?thesis by simp
qed

lemma critical_helps:
  assumes "critical z p ch = Some (p', ch')"
  shows "\<not> waits_not_empty p'" "\<not> waits_not_empty p" "\<not> receiver_parking p"
    "receiver_parking p' \<Longrightarrow> buffer ch' = []"
    "length (buffer ch') + of_bool (helps_receivers p) \<le> length (buffer ch) + of_bool (helps_receivers p')
     \<or> buffer ch' = []"
  using assms
  by (cases p; auto simp: section_defs Let_def after_send_def after_recv_def
      split: if_splits BackpressureStrategy.splits list.splits)+

lemma critical_parking_owner: "receiver_parking p \<Longrightarrow> park p \<noteq> None"
  by (cases p) auto

lemma helps_simps [simp]:
  "between_calls p \<Longrightarrow> \<not> helps_receivers p" "between_calls p \<Longrightarrow> \<not> waits_not_empty p"
  "waits_not_empty p \<Longrightarrow> \<not> helps_receivers p" "waits_not_full p \<Longrightarrow> \<not> helps_receivers p"
  "waits_not_full p \<Longrightarrow> \<not> waits_not_empty p" 
  "\<not> waits_not_empty (entry ch c)" "\<not> receiver_parking (entry ch c)"
  by (cases p; simp; fail | cases c; simp)+

lemma wake_simps [simp]:
  "waits_not_empty p \<Longrightarrow> helps_receivers (wake p)" "\<not> waits_not_empty (wake p)"
  "waits_not_full p \<Longrightarrow> \<not> helps_receivers (wake p)" "waits_not_full p \<Longrightarrow> wake p \<noteq> Idle"
  "waits_not_empty p \<Longrightarrow> wake p \<noteq> Idle"
  "waits_not_full p \<Longrightarrow> \<not> receiver_parking (wake p)"
  "waits_not_empty p \<Longrightarrow> \<not> receiver_parking (wake p)"
  by (cases p; simp; fail)+

lemma park_props:
  "park p = Some p' \<Longrightarrow> \<not> helps_receivers p \<and> \<not> helps_receivers p' \<and> \<not> receiver_parking p'"
  "park p = Some p' \<Longrightarrow> waits_not_empty p' \<Longrightarrow> receiver_parking p"
  "park p = Some p' \<Longrightarrow> \<not> waits_not_empty p"
  by (cases p; auto)+

lemma time_out_props:
  "time_out p = Some p' \<Longrightarrow> \<not> helps_receivers p \<and> \<not> receiver_parking p' \<and> \<not> waits_not_empty p'"
  "time_out p = Some p' \<Longrightarrow> helps_receivers p' = waits_not_empty p"
  by (cases p; auto)+

lemma helpers_update:
  assumes "few_busy (threads s)" "threads s' = (threads s)(t := p)"
  shows "helpers s' + of_bool (helps_receivers (threads s t)) = helpers s + of_bool (helps_receivers p)"
  using count_update[of "threads s" helps_receivers t p] assms by (simp add: helpers_def)

text \<open>One thread moves and the buffer changes by no more than its duty does.\<close>

lemma wake_inv_move:
  assumes inv: "wake_inv s" and thr: "threads s' = (threads s)(t := p)"
    and waits: "waits_not_empty p \<Longrightarrow> buffer (chan s') = []"
    and parking: "receiver_parking p \<Longrightarrow> owner s' = Some t \<and> buffer (chan s') = []"
    and others: "\<And>u. u \<noteq> t \<Longrightarrow> receiver_parking (threads s u) \<Longrightarrow>
       owner s' = owner s \<and> buffer (chan s') = buffer (chan s)"
    and len: "length (buffer (chan s')) + of_bool (helps_receivers (threads s t))
       \<le> length (buffer (chan s)) + of_bool (helps_receivers p) \<or> buffer (chan s') = []"
  shows "wake_inv s'"
proof -
  have fin: "few_busy (threads s)" using inv by (simp add: wake_inv_def)
  have "few_busy (threads s')" using fin thr by simp
  moreover have "\<forall>u. receiver_parking (threads s' u) \<longrightarrow> owner s' = Some u \<and> buffer (chan s') = []"
    using inv thr parking others by (auto simp: wake_inv_def split: if_splits)
  moreover have "length (buffer (chan s')) \<le> helpers s'" if w: "some_receiver_waits s'"
  proof (cases "buffer (chan s') = []")
    case False
    then have "some_receiver_waits s"
      using w thr waits by (auto simp: some_receiver_waits_def split: if_splits)
    then have "length (buffer (chan s)) \<le> helpers s" using inv by (simp add: wake_inv_def)
    with helpers_update[OF fin thr] len False show ?thesis by linarith
  qed simp
  ultimately show ?thesis by (simp add: wake_inv_def)
qed

lemma wake_inv_lock:
  assumes inv: "wake_inv s" and free: "owner s = None"
    and crit: "critical z (threads s t) (chan s) = Some (p, ch)"
  shows "wake_inv (enter_section t p ch s)"
proof (rule wake_inv_move[OF inv])
  show "threads (enter_section t p ch s) = (threads s)(t := p)" by simp
qed (use critical_helps[OF crit] critical_parking_owner[of p] inv free in \<open>auto simp: wake_inv_def\<close>)

lemma wake_inv_park:
  assumes inv: "wake_inv s" and own: "owner s = Some t" and p: "park (threads s t) = Some p"
  shows "wake_inv ((goto t p s)\<lparr>owner := None\<rparr>)"
proof -
  have only: "u = t" "buffer (chan s) = []" if "receiver_parking (threads s u)" for u
    using inv own that by (auto simp: wake_inv_def)
  show ?thesis
  proof (rule wake_inv_move[OF inv])
    show "buffer (chan ((goto t p s)\<lparr>owner := None\<rparr>)) = []" if "waits_not_empty p"
      using only(2) park_props(2)[OF p that] by simp
    show "length (buffer (chan ((goto t p s)\<lparr>owner := None\<rparr>))) + of_bool (helps_receivers (threads s t))
        \<le> length (buffer (chan s)) + of_bool (helps_receivers p)
      \<or> buffer (chan ((goto t p s)\<lparr>owner := None\<rparr>)) = []"
      using park_props(1)[OF p] by simp
  qed (use park_props(1)[OF p] only(1) in auto)
qed

lemma wake_inv_notify:
  assumes inv: "wake_inv s" and w: "waits_not_empty (threads s w)"
    and t: "threads s t = NotifyNotEmpty r"
  shows "wake_inv (goto t (SendDone r) (goto w (wake (threads s w)) s))"
proof -
  let ?m = "goto w (wake (threads s w)) s"
  let ?e = "goto t (SendDone r) ?m"
  have fin: "few_busy (threads s)" using inv by (simp add: wake_inv_def)
  have finm: "few_busy (threads ?m)" using fin by simp
  have ne: "t \<noteq> w" using w t by auto
  have m: "wake_inv ?m"
    by (rule wake_inv_move[OF inv, of _ w "wake (threads s w)"]) (use w in \<open>auto\<close>)
  have h1: "helpers ?m = Suc (helpers s)" using helpers_update[OF fin, of ?m w] w by simp
  have h2: "Suc (helpers ?e) = helpers ?m"
    using helpers_update[OF finm, of ?e t "SendDone r"] t ne by simp
  have "some_receiver_waits s" using w by (auto simp: some_receiver_waits_def)
  then have "length (buffer (chan s)) \<le> helpers s" using inv by (simp add: wake_inv_def)
  then have "length (buffer (chan ?e)) \<le> helpers ?e" using h1 h2 by simp
  moreover have "few_busy (threads ?e)" using finm by simp
  moreover have "\<forall>u. receiver_parking (threads ?e u) \<longrightarrow> owner ?e = Some u \<and> buffer (chan ?e) = []"
    using inv w by (auto simp: wake_inv_def)
  ultimately show ?thesis by (simp add: wake_inv_def)
qed

lemma wake_inv_wake_all:
  assumes inv: "wake_inv s" and Q: "Q = waits_not_full \<or> Q = waits_not_empty"
  shows "wake_inv (s\<lparr>threads := (\<lambda>w. if Q (threads s w) then wake (threads s w) else threads s w)\<rparr>)"
    (is "wake_inv ?s'")
proof -
  have "{t. threads ?s' t \<noteq> Idle} \<subseteq> {t. threads s t \<noteq> Idle}"
    using Q by auto
  then have "few_busy (threads ?s')"
    using inv finite_subset unfolding wake_inv_def few_busy_def by blast
  moreover have "\<forall>u. receiver_parking (threads ?s' u) \<longrightarrow> owner ?s' = Some u \<and> buffer (chan ?s') = []"
    using inv Q by (auto simp: wake_inv_def)
  moreover have "length (buffer (chan ?s')) \<le> helpers ?s'" if w: "some_receiver_waits ?s'"
  proof -
    have full: "Q = waits_not_full" using Q w by (auto simp: some_receiver_waits_def split: if_splits)
    then have "some_receiver_waits s" using w by (auto simp: some_receiver_waits_def split: if_splits)
    moreover have "{t. helps_receivers (threads ?s' t)} = {t. helps_receivers (threads s t)}"
      using full by auto
    ultimately show ?thesis using inv by (simp add: wake_inv_def helpers_def)
  qed
  ultimately show ?thesis by (simp add: wake_inv_def)
qed

lemma step_wake_inv:
  assumes "sys_step l s s'" "wake_inv s" shows "wake_inv s'"
  using assms(1)
proof (cases rule: sys_step.cases)
  case (Call t c)
  then show ?thesis by (auto intro!: wake_inv_move[OF assms(2), of _ t])
next
  case (Lock z t p ch)
  then show ?thesis using wake_inv_lock[OF assms(2)] by blast
next
  case (Wait t p)
  then show ?thesis using wake_inv_park[OF assms(2)] by blast
next
  case (Timeout t p)
  then show ?thesis
    using time_out_props[OF Timeout(3)] by (intro wake_inv_move[OF assms(2), of _ t p]) auto
next
  case (NotEmptyOne t r w)
  then show ?thesis using wake_inv_notify[OF assms(2)] by blast
next
  case (NotEmptyNone t r)
  then have "\<not> some_receiver_waits s'" by (auto simp: some_receiver_waits_def)
  with NotEmptyNone assms(2) show ?thesis
    by (auto simp: wake_inv_def)
next
  case (NotFullOne t r w)
  have "wake_inv (goto w (wake (threads s w)) s)"
    using NotFullOne by (intro wake_inv_move[OF assms(2), of _ w "wake (threads s w)"]) auto
  from wake_inv_move[OF this, of s' t "RecvDone r"] NotFullOne show ?thesis by auto
next
  case (NotFullNone t r)
  then show ?thesis by (intro wake_inv_move[OF assms(2), of _ t "RecvDone r"]) auto
next
  case (CloseStore t)
  then show ?thesis by (intro wake_inv_move[OF assms(2), of _ t CloseNotifyFull]) auto
next
  case (CloseFull t)
  let ?f = "\<lambda>w. if waits_not_full (threads s w) then wake (threads s w) else threads s w"
  have "wake_inv (s\<lparr>threads := ?f\<rparr>)" using wake_inv_wake_all[OF assms(2)] by blast
  from wake_inv_move[OF this, of s' t CloseNotifyEmpty] CloseFull show ?thesis by auto
next
  case (CloseEmpty t)
  let ?f = "\<lambda>w. if waits_not_empty (threads s w) then wake (threads s w) else threads s w"
  have "wake_inv (s\<lparr>threads := ?f\<rparr>)" using wake_inv_wake_all[OF assms(2)] by blast
  from wake_inv_move[OF this, of s' t Idle] CloseEmpty show ?thesis by auto
next
  case (SpuriousWake t)
  then show ?thesis by (intro wake_inv_move[OF assms(2), of _ t "wake (threads s t)"]) auto
qed

lemma reachable_wake_inv: "reachable (init_sys cap strat) s \<Longrightarrow> wake_inv s"
proof (induction rule: reachable.induct)
  case start
  show ?case by (simp add: wake_inv_def few_busy_def init_sys_def new_channel_def some_receiver_waits_def)
qed (rule step_wake_inv)

section \<open>Draining, and one-threaded runs\<close>

text \<open>A source that hands out its contents one by one and then ends.\<close>

locale drainable =
  fixes nxt :: "'s \<Rightarrow> ('a option \<times> 's) option"
    and contents :: "'s \<Rightarrow> 'a list"
    and ready :: "'s \<Rightarrow> bool"
  assumes nxt_item: "ready s \<Longrightarrow> contents s = x # xs \<Longrightarrow>
      \<exists>s'. nxt s = Some (Some x, s') \<and> contents s' = xs \<and> ready s'"
    and nxt_end: "ready s \<Longrightarrow> contents s = [] \<Longrightarrow> nxt s = Some (None, s)"
begin

lemma drains:
  assumes "ready s" "length (contents s) < fuel"
  shows "\<exists>s'. collect_from nxt fuel s = Some (contents s, s') \<and> ready s' \<and> contents s' = []"
  using assms
proof (induction fuel arbitrary: s)
  case (Suc fuel)
  show ?case
  proof (cases "contents s")
    case Nil
    then show ?thesis using nxt_end[OF Suc.prems(1)] Suc.prems(1) by simp
  next
    case (Cons x xs)
    then obtain s1 where s1: "nxt s = Some (Some x, s1)" "contents s1 = xs" "ready s1"
      using nxt_item[OF Suc.prems(1)] by blast
    then show ?thesis using Suc.IH[of s1] Suc.prems(2) Cons by fastforce
  qed
qed simp

lemma never_short:
  assumes "ready s" "collect_from nxt fuel s = Some (ys, s')"
  shows "ys = contents s"
  using assms
proof (induction fuel arbitrary: s ys s')
  case (Suc fuel)
  show ?case
  proof (cases "contents s")
    case Nil
    then show ?thesis using nxt_end[OF Suc.prems(1)] Suc.prems(2) by simp
  next
    case (Cons x xs)
    then obtain s1 where s1: "nxt s = Some (Some x, s1)" "contents s1 = xs" "ready s1"
      using nxt_item[OF Suc.prems(1)] by blast
    then show ?thesis
      using Suc.IH[of s1] Suc.prems(2) Cons by (auto split: option.splits)
  qed
qed simp

end

interpretation closed_recv: drainable recv_call buffer closed
  by unfold_locales (auto simp: recv_call_def recv_head_def pop_received_def)

interpretation polling: drainable "\<lambda>ch. Some (try_recv ch)" buffer "\<lambda>_. True"
  by unfold_locales (auto simp: try_recv_def)

text \<open>One thread that only sends.\<close>

lemma send_room:
  "\<not> closed ch \<Longrightarrow> length (buffer ch) < capacity ch \<Longrightarrow> send_call ch x = Some (Inr True, push_item ch x)"
  by (simp add: send_call_def send_locked_def full_def)

lemma push_item_sel [simp]:
  "buffer (push_item ch x) = buffer ch @ [x]" "closed (push_item ch x) = closed ch"
  "capacity (push_item ch x) = capacity ch" "strategy (push_item ch x) = strategy ch"
  "items_dropped (push_item ch x) = items_dropped ch"
  by (simp_all add: push_item_def Let_def)

lemma drop_sel [simp]:
  "buffer (drop_oldest ch) = tl (buffer ch)" "closed (drop_oldest ch) = closed ch"
  "capacity (drop_oldest ch) = capacity ch" "strategy (drop_oldest ch) = strategy ch"
  "items_dropped (drop_oldest ch) = items_dropped ch + 1"
  "buffer (drop_newest ch) = buffer ch" "closed (drop_newest ch) = closed ch"
  "capacity (drop_newest ch) = capacity ch" "strategy (drop_newest ch) = strategy ch"
  "items_dropped (drop_newest ch) = items_dropped ch + 1"
  by (simp_all add: drop_oldest_def drop_newest_def)

lemma new_channel_sel [simp]:
  "buffer (new_channel cap strat) = []" "closed (new_channel cap strat) = False"
  "capacity (new_channel cap strat) = cap" "strategy (new_channel cap strat) = strat"
  "items_dropped (new_channel cap strat) = 0" "max_buffer_size (new_channel cap strat) = 0"
  by (simp_all add: new_channel_def)

definition window :: "nat \<Rightarrow> 'a list \<Rightarrow> 'a list" where
  "window n xs = drop (length xs - n) xs"

lemma send_all_room:
  assumes "\<not> closed ch" "length (buffer ch) + length xs \<le> capacity ch"
  shows "\<exists>ch'. send_all ch xs = Some (replicate (length xs) (Inr True), ch') \<and>
      buffer ch' = buffer ch @ xs \<and> \<not> closed ch'"
  using assms
proof (induction xs arbitrary: ch)
  case (Cons x xs)
  then show ?case using Cons.IH[of "push_item ch x"] by (force simp: send_room)
qed simp

lemma send_all_oldest:
  assumes "\<not> closed ch" "strategy ch = DropOldest" "0 < capacity ch"
    "length (buffer ch) \<le> capacity ch"
  shows "\<exists>ch'. send_all ch xs = Some (replicate (length xs) (Inr True), ch') \<and>
      buffer ch' = window (capacity ch) (buffer ch @ xs) \<and>
      items_dropped ch' = items_dropped ch + of_nat (length (buffer ch @ xs) - capacity ch)"
  using assms
proof (induction xs arbitrary: ch)
  case Nil
  then show ?case by (simp add: window_def)
next
  case (Cons x xs)
  show ?case
  proof (cases "length (buffer ch) < capacity ch")
    case True
    then show ?thesis
      using Cons.IH[of "push_item ch x"] Cons.prems by (force simp: send_room)
  next
    case False
    let ?ch = "push_item (drop_oldest ch) x"
    have len: "length (buffer ch) = capacity ch" using False Cons.prems by simp
    have call: "send_call ch x = Some (Inr True, ?ch)"
      using Cons.prems False by (simp add: send_call_def send_locked_def full_def)
    obtain ch' where ch': "send_all ?ch xs = Some (replicate (length xs) (Inr True), ch')"
      "buffer ch' = window (capacity ch) (tl (buffer ch) @ [x] @ xs)"
      "items_dropped ch' = items_dropped ch + 1 + of_nat (length (tl (buffer ch) @ [x] @ xs) - capacity ch)"
      using Cons.IH[of ?ch] Cons.prems by force
    obtain y ys where "buffer ch = y # ys" using len Cons.prems(3) by (cases "buffer ch") auto
    then have "window (capacity ch) (tl (buffer ch) @ [x] @ xs) = window (capacity ch) (buffer ch @ x # xs)"
      "length (buffer ch @ x # xs) - capacity ch = Suc (length (tl (buffer ch) @ [x] @ xs) - capacity ch)"
      using len by (simp_all add: window_def Suc_diff_le)
    with ch' call show ?thesis by simp
  qed
qed

lemma send_all_newest:
  assumes "\<not> closed ch" "strategy ch = DropNewest" "length (buffer ch) \<le> capacity ch"
  shows "\<exists>ch'. send_all ch xs =
        Some (map (\<lambda>i. Inr (length (buffer ch) + i < capacity ch)) [0..<length xs], ch') \<and>
      buffer ch' = take (capacity ch) (buffer ch @ xs) \<and>
      items_dropped ch' = items_dropped ch + of_nat (length (buffer ch @ xs) - capacity ch)"
  using assms
proof (induction xs arbitrary: ch)
  case Nil
  then show ?case by simp
next
  case (Cons x xs)
  have upt: "map (\<lambda>i. Inr (n + i < m) :: send_result) [0..<Suc k]
      = Inr (n < m) # map (\<lambda>i. Inr (Suc n + i < m)) [0..<k]" for n m k :: nat
    unfolding upt_conv_Cons[OF zero_less_Suc] map_Suc_upt[symmetric] by (simp add: comp_def)
  show ?case
  proof (cases "length (buffer ch) < capacity ch")
    case True
    then show ?thesis
      using Cons.IH[of "push_item ch x"] Cons.prems by (force simp: send_room upt simp del: upt_Suc)
  next
    case False
    then have len: "length (buffer ch) = capacity ch" using Cons.prems by simp
    have call: "send_call ch x = Some (Inr False, drop_newest ch)"
      using Cons.prems False by (simp add: send_call_def send_locked_def full_def)
    from Cons.IH[of "drop_newest ch"] Cons.prems call len show ?thesis
      by (auto simp: map_replicate_const simp del: upt_Suc)
  qed
qed

text \<open>Closed and empty, with one receiver asleep and nobody left to notify it.\<close>

fun harmless :: "'a pc \<Rightarrow> bool" where
  "harmless Receiving = True"
| "harmless TReceiving = True"
| "harmless TryReceiving = True"
| "harmless p = between_calls p"

definition stranded :: "nat \<Rightarrow> 'a sys \<Rightarrow> bool" where
  "stranded r s \<longleftrightarrow>
     closed (chan s) \<and> buffer (chan s) = [] \<and> owner s = None \<and>
     threads s r = RecvWaiting \<and> (\<forall>t. t \<noteq> r \<longrightarrow> harmless (threads s t))"

lemma harmless_critical:
  assumes "critical z p ch = Some (p', ch')" "harmless p" "closed ch" "buffer ch = []"
  shows "ch' = ch" "harmless p'" "park p' = None"
  using assms by (cases p; auto simp: section_defs after_recv_def)+

lemma harmless_entry: "closed ch \<Longrightarrow> harmless (entry ch c)"
  by (cases c) auto

lemma harmless_pcs [simp]:
  "harmless p \<Longrightarrow> time_out p = None" "harmless p \<Longrightarrow> park p = None"
  "harmless p \<Longrightarrow> \<not> waits_not_full p" "harmless p \<Longrightarrow> \<not> waits_not_empty p"
  "harmless p \<Longrightarrow> p \<noteq> NotifyNotEmpty r" "harmless p \<Longrightarrow> p \<noteq> NotifyNotFull r'"
  "harmless p \<Longrightarrow> p \<noteq> CloseNotifyFull" "harmless p \<Longrightarrow> p \<noteq> CloseNotifyEmpty"
  by (cases p; simp)+

lemma stranded_step:
  assumes "sys_step Quiet s s'" "stranded r s" shows "stranded r s'"
proof -
  have other: "t \<noteq> r \<Longrightarrow> harmless (threads s t)" for t using assms(2) by (simp add: stranded_def)
  have r: "threads s r = RecvWaiting" using assms(2) by (simp add: stranded_def)
  show ?thesis
    using assms(1)
  proof (cases rule: sys_step.cases)
    case (Call t c)
    then have "t \<noteq> r" using r by auto
    then show ?thesis using Call assms(2) harmless_entry by (auto simp: stranded_def)
  next
    case (Lock z t p ch)
    then have "t \<noteq> r" using r by auto
    then show ?thesis
      using Lock assms(2) harmless_critical[OF Lock(3) other]
      by (auto simp: stranded_def)
  next
    case (Timeout t p)
    then show ?thesis using r other[of t] by (cases "t = r") auto
  next
    case (NotEmptyOne t q w)
    then show ?thesis using r other[of t] by (cases "t = r") auto
  next
    case (NotEmptyNone t q)
    then show ?thesis using r other[of t] by (cases "t = r") auto
  next
    case (NotFullOne t q w)
    then show ?thesis using r other[of t] by (cases "t = r") auto
  next
    case (NotFullNone t q)
    then show ?thesis using r other[of t] by (cases "t = r") auto
  next
    case (CloseFull t)
    then show ?thesis using r other[of t] by (cases "t = r") auto
  next
    case (CloseEmpty t)
    then show ?thesis using r other[of t] by (cases "t = r") auto
  qed (use assms(2) in \<open>simp add: stranded_def\<close>)
qed

lemma stranded_run: "quiet_run s s' \<Longrightarrow> stranded r s \<Longrightarrow> stranded r s'"
  by (induction rule: quiet_run.induct) (auto intro: stranded_step)

definition stranding :: "nat \<Rightarrow> BackpressureStrategy \<Rightarrow> 'a sys" where
  "stranding cap strat =
     (init_sys cap strat)
       \<lparr>chan := (close_channel (new_channel cap strat))\<lparr>receive_blocks := 1\<rparr>,
        threads := (\<lambda>_. Idle)(0 := RecvWaiting)\<rparr>"

lemma stranding_reachable: "reachable (init_sys cap strat) (stranding cap strat)"
proof -
  let ?s0 = "init_sys cap strat :: 'a sys"
  let ?s1 = "goto 0 (entry (chan ?s0) CallRecv) ?s0"
  let ?ch = "(new_channel cap strat)\<lparr>receive_blocks := 1\<rparr> :: 'a BoundedChannel"
  let ?s2 = "enter_section 0 RecvParking ?ch ?s1"
  let ?s3 = "goto 1 CloseNotifyFull (?s2\<lparr>chan := close_channel (chan ?s2)\<rparr>)"
  let ?s4 = "goto 1 CloseNotifyEmpty
         (?s3\<lparr>threads := (\<lambda>w. if waits_not_full (threads ?s3 w) then wake (threads ?s3 w) else threads ?s3 w)\<rparr>)"
  let ?s5 = "goto 1 Idle
         (?s4\<lparr>threads := (\<lambda>w. if waits_not_empty (threads ?s4 w) then wake (threads ?s4 w) else threads ?s4 w)\<rparr>)"
  let ?s6 = "(goto 0 RecvWaiting ?s5)\<lparr>owner := None\<rparr>"
  have "reachable ?s0 ?s1" by (rule reachable.intros, rule reachable.intros, rule Call) (simp add: init_sys_def)
  then have "reachable ?s0 ?s2"
    by (rule reachable.step[OF _ Lock[where z = False]])
       (simp_all add: init_sys_def recv_head_def new_channel_def)
  then have "reachable ?s0 ?s3" by (rule reachable.step[OF _ CloseStore]) (simp add: init_sys_def)
  then have "reachable ?s0 ?s4" by (rule reachable.step[OF _ CloseFull]) simp
  then have "reachable ?s0 ?s5" by (rule reachable.step[OF _ CloseEmpty]) simp
  then have "reachable ?s0 ?s6" by (rule reachable.step[OF _ Wait]) simp_all
  moreover have "?s6 = stranding cap strat"
    by (auto simp: stranding_def init_sys_def enter_section_def goto_def effect_defs
        new_channel_def close_channel_def fun_eq_iff)
  ultimately show ?thesis by simp
qed

text \<open>A state with one item in the buffer, whose sender is about to notify.\<close>

definition one_item :: "nat \<Rightarrow> BackpressureStrategy \<Rightarrow> 'a \<Rightarrow> 'a sys" where
  "one_item cap strat x =
     (let s = goto 0 (TSending x) (init_sys cap strat)
      in enter_section 0 (NotifyNotEmpty (Inr True)) (push_timed (chan s) x) s)"

lemma one_item_reachable:
  assumes "0 < cap" shows "reachable (init_sys cap strat) (one_item cap strat x)"
proof -
  let ?s0 = "init_sys cap strat :: 'a sys"
  have "reachable ?s0 (goto 0 (entry (chan ?s0) (CallSendTimeout x)) ?s0)"
    by (rule reachable.intros, rule reachable.intros, rule Call) (simp add: init_sys_def)
  then have "reachable ?s0 (goto 0 (TSending x) ?s0)" by (simp add: init_sys_def new_channel_def)
  then show ?thesis
    unfolding one_item_def Let_def using assms
    by (rule_tac reachable.step[OF _ Lock[where z = False]])
       (simp_all add: init_sys_def send_timeout_head_def full_def after_send_def)
qed

lemma one_item_chan [simp]:
  "buffer (chan (one_item cap strat x)) = [x]" "removed (one_item cap strat x) = []"
  "accepted (one_item cap strat x) = [x]" "max_buffer_size (chan (one_item cap strat x)) = 0"
  by (simp_all add: one_item_def Let_def init_sys_def push_timed_def enter_section_def effect_defs goto_def
      new_channel_def)

text \<open>\<^verbatim>\<open>send_timeout\<close> does not raise the recorded maximum.\<close>

lemma timed_send_not_in_maximum:
  "reachable (init_sys 1 strat) (one_item 1 strat x)"
  "length (buffer (chan (one_item 1 strat x))) = 1"
  "stats_max_buffer_size (stats (chan (one_item 1 strat x))) = 0"
  by (simp_all add: one_item_reachable stats_def)

section \<open>Properties\<close>

text \<open>C1. Nothing is lost, duplicated or reordered, whatever the interleaving: in every
  reachable state the items that sends accepted, in their order, are the items taken out so far
  (by receivers or displaced by the drop-oldest strategy), in their order, followed by the
  buffer; the two atomic counters are the lengths of these lists modulo \<open>2 ^ 64\<close>.\<close>

theorem fifo_conservation:
  assumes "reachable (init_sys cap strat) s"
  shows "accepted s = map snd (removed s) @ buffer (chan s) \<and>
    items_sent (chan s) = of_nat (length (accepted s)) \<and>
    items_received (chan s) = of_nat (length (filter fst (removed s)))"
  using reachable_books[OF assms] by (simp add: books_balance_def)

theorem fifo_conservation_witness:
  "items_sent (chan (one_item 2 DropOldest (7::nat))) = 1"
  using fifo_conservation[OF one_item_reachable[of 2 DropOldest "7::nat"]] by simp

text \<open>The drop counter of a channel with room for at least one item counts exactly the
  displaced items and the sends that were answered with \<^verbatim>\<open>Ok(false)\<close>, so that the statistics
  add up: sent is received plus displaced plus buffered.\<close>

theorem statistics_add_up:
  assumes "reachable (init_sys cap strat) s" "0 < cap"
  shows "items_dropped (chan s) = of_nat (length (filter (Not \<circ> fst) (removed s)) + refused s) \<and>
    items_sent (chan s) + of_nat (refused s) =
      items_received (chan s) + items_dropped (chan s) + of_nat (length (buffer (chan s)))"
proof -
  have split: "length (filter fst xs) + length (filter (Not \<circ> fst) xs) = length xs"
    for xs :: "(bool \<times> 'b) list"
    using sum_length_filter_compl[of fst xs] by (simp add: comp_def)
  have "length (accepted s) = length (filter fst (removed s)) + length (filter (Not \<circ> fst) (removed s)) +
      length (buffer (chan s))"
    using reachable_books[OF assms(1)] split[of "removed s"] by (simp add: books_balance_def)
  then show ?thesis
    using reachable_books[OF assms(1)] reachable_drops[OF assms]
    by (simp add: books_balance_def drops_balance_def)
qed

theorem statistics_add_up_witness:
  "items_dropped (chan (one_item 2 Block (7::nat))) = of_nat (refused (one_item 2 Block (7::nat)))"
  using statistics_add_up[OF one_item_reachable[of 2 Block "7::nat"]] by simp

text \<open>C35. The buffer never exceeds its limit in any reachable state: the capacity, plus the
  overflow of the buffering strategy; drop-oldest keeps one item even with capacity zero.\<close>

theorem buffer_bounded:
  assumes "reachable (init_sys cap strat) s"
  shows "length (buffer (chan s)) \<le> buffer_limit cap strat"
  using reachable_bounded[OF assms] reachable_config[OF assms]
  by (simp add: bounded_def Let_def)

theorem buffer_bounded_witness:
  "length (buffer (chan (one_item 2 (Buffer 3) (7::nat)))) \<le> 5"
  using buffer_bounded[OF one_item_reachable[of 2 "Buffer 3" "7::nat"]] by simp

text \<open>C34. No receiver is left asleep next to an
  item: whenever a receiver waits, at least as many threads as there are items are about to
  notify a receiver or about to take the lock to receive.\<close>

theorem receiver_not_stranded:
  assumes "reachable (init_sys cap strat) s" "waits_not_empty (threads s t)"
  shows "length (buffer (chan s)) \<le> card {u. helps_receivers (threads s u)}"
  using reachable_wake_inv[OF assms(1)] assms(2)
  by (auto simp: wake_inv_def some_receiver_waits_def helpers_def)

theorem receiver_not_stranded_witness:
  "length (buffer (chan (stranding 2 Block :: nat sys))) \<le>
     card {u. helps_receivers (threads (stranding 2 Block :: nat sys) u)}"
  by (rule receiver_not_stranded[OF stranding_reachable, of _ _ 0]) (simp add: stranding_def)

text \<open>\<^verbatim>\<open>close\<close> does not take the mutex, so its notification can fall between a
  receiver's look at the flag and its wait: for every capacity and strategy a state can be
  reached in which the channel is closed and a receiver sleeps, and without another
  \<^verbatim>\<open>close\<close> or a spurious wake-up it sleeps in every state that follows.\<close>

theorem close_can_strand_receiver:
  "\<exists>s. reachable (init_sys cap strat) s \<and> closed (chan s) \<and>
       {s'. quiet_run s s'} \<subseteq> {s'. threads s' 0 = RecvWaiting}"
proof -
  have "stranded 0 (stranding cap strat)"
    by (simp add: stranded_def stranding_def init_sys_def close_channel_def new_channel_def)
  then show ?thesis
    using stranding_reachable[of cap strat] stranded_run
    by (intro exI[of _ "stranding cap strat"]) (auto simp: stranded_def)
qed

text \<open>What is in a channel when it is closed can still be received, in order, and is
  everything accepted and not yet taken out; then the receiver is told the end and a sender
  gets the error.\<close>

theorem close_then_drain:
  assumes "reachable (init_sys cap strat) s" "length (buffer (chan s)) < fuel"
  shows "\<exists>ch. collect_events fuel (close_channel (chan s)) = Some (drop (length (removed s)) (accepted s), ch) \<and>
      recv_call ch = Some (None, ch) \<and> send_call ch x = Some (Inl ChannelClosed, ch)"
proof -
  have "drop (length (removed s)) (accepted s) = buffer (chan s)"
    using reachable_books[OF assms(1)] by (simp add: books_balance_def)
  then show ?thesis
    using closed_recv.drains[of "close_channel (chan s)" fuel] closed_recv.nxt_end assms(2)
    unfolding collect_events_def by (auto simp: send_call_def)
qed

theorem close_then_drain_witness:
  "\<exists>ch. collect_events 2 (close_channel (chan (one_item 2 Block (7::nat)))) = Some ([7], ch)"
  using close_then_drain[OF one_item_reachable[of 2 Block "7::nat"], of 2] by auto

text \<open>Sending up to the capacity and closing, then iterating over the receiver, gives the
  sent items back.\<close>

theorem send_drain_roundtrip:
  assumes "length xs \<le> cap"
  shows "\<exists>ch ch'. send_all (new_channel cap strat) xs = Some (replicate (length xs) (Inr True), ch) \<and>
      collect_events (Suc (length xs)) (close_channel ch) = Some (xs, ch')"
proof -
  obtain ch where ch: "send_all (new_channel cap strat) xs = Some (replicate (length xs) (Inr True), ch)"
    "buffer ch = xs" using send_all_room[of "new_channel cap strat" xs] assms by auto
  then show ?thesis
    using closed_recv.drains[of "close_channel ch" "Suc (length xs)"]
    unfolding collect_events_def by auto
qed

theorem send_drain_roundtrip_witness:
  "\<exists>ch ch'. send_all (new_channel 3 Block) [1::nat, 2] = Some ([Inr True, Inr True], ch) \<and>
     collect_events 3 (close_channel ch) = Some ([1, 2], ch')"
  using send_drain_roundtrip[of "[1::nat, 2]" 3 Block] by (simp add: numeral_2_eq_2 numeral_3_eq_3)

text \<open>With no receiver, drop-oldest keeps exactly the last items and reports every send as
  done, drop-newest keeps exactly the first ones and reports the later sends as dropped; both
  count the items over capacity.\<close>

theorem drop_strategies:
  assumes "0 < cap"
  shows "(\<exists>ch. send_all (new_channel cap DropOldest) xs = Some (replicate (length xs) (Inr True), ch) \<and>
      buffer ch = drop (length xs - cap) xs \<and> items_dropped ch = of_nat (length xs - cap)) \<and>
    (\<exists>ch. send_all (new_channel cap DropNewest) xs = Some (map (\<lambda>i. Inr (i < cap)) [0..<length xs], ch) \<and>
      buffer ch = take cap xs \<and> items_dropped ch = of_nat (length xs - cap))"
  using send_all_oldest[of "new_channel cap DropOldest" xs]
    send_all_newest[of "new_channel cap DropNewest" xs] assms
  by (auto simp: window_def)

theorem drop_strategies_witness:
  "\<exists>ch. send_all (new_channel 1 DropOldest) [1::nat, 2] = Some ([Inr True, Inr True], ch) \<and> buffer ch = [2]"
  using drop_strategies[of 1 "[1::nat, 2]"] by (auto simp: numeral_2_eq_2)

end
