(* ===== verification/Tracker.thy ===== *)
theory Tracker
  imports Journal Balance
begin

text \<open>
  Model of \<^verbatim>\<open>crates/datasynth-generators/src/balance/balance_tracker.rs\<close>: the running
  balances of all accounts of all companies as journal entries are applied. The two nested
  hash maps are association lists whose order stands for the iteration order. What the code
  asks of other crates is in the record \<open>env\<close>: the calendar, the clock and the text forms of
  dates, amounts and UUIDs. The comparison with a trial-balance anchor prior (\<^verbatim>\<open>account_drift\<close>,
  \<^verbatim>\<open>drift_correction_needed\<close>, \<^verbatim>\<open>build_drift_correction_je\<close>), which computes in floating point,
  is not modelled, nor is the field that holds the prior.
\<close>

section \<open>State\<close>

record ('date, 'ts, 'd) env =
  year_of :: "'date \<Rightarrow> int"
  month_of :: "'date \<Rightarrow> nat"
  clock :: 'ts
  show_uuid :: "uuid \<Rightarrow> string"
  show_date :: "'date \<Rightarrow> string"
  show_dec :: "'d \<Rightarrow> string"

record 'd BalanceTrackerConfig =
  validate_on_each_entry :: bool
  track_history :: bool
  balance_tolerance :: 'd
  fail_on_validation_error :: bool

definition default_config :: "'d::linordered_field BalanceTrackerConfig" where
  "default_config =
     \<lparr>validate_on_each_entry = True, track_history = True, balance_tolerance = 1 / 100,
      fail_on_validation_error = False\<rparr>"

record ('date, 'd) BalanceHistoryEntry =
  he_date :: 'date
  he_entry_id :: string
  he_account_code :: string
  he_previous_balance :: 'd
  he_change :: 'd
  he_new_balance :: 'd

datatype ValidationErrorType =
    UnbalancedEntry | BalanceSheetImbalance | NegativeBalance | UnknownAccount | OutOfOrder

record ('date, 'd) ValidationError =
  ve_date :: 'date
  ve_company_code :: string
  ve_entry_id :: "string option"
  ve_error_type :: ValidationErrorType
  ve_message :: string
  ve_details :: "(string \<times> 'd) list"

record 'd TrackerStatistics =
  ts_entries_processed :: u64
  ts_lines_processed :: u64
  ts_total_debits :: 'd
  ts_total_credits :: 'd
  ts_companies_tracked :: nat
  ts_accounts_tracked :: nat
  ts_validation_errors :: nat

record ('date, 'ts, 'd) RunningBalanceTracker =
  tr_config :: "'d BalanceTrackerConfig"
  tr_balances :: "(string \<times> (string \<times> ('ts, 'd) AccountBalance) list) list"
  tr_account_types :: "(string \<times> AccountType) list"
  tr_framework :: string
  tr_history :: "(string \<times> ('date, 'd) BalanceHistoryEntry list) list"
  tr_validation_errors :: "('date, 'd) ValidationError list"
  tr_stats :: "'d TrackerStatistics"
  tr_currency :: string

definition new_with_currency_and_framework ::
    "'d::linordered_field BalanceTrackerConfig \<Rightarrow> string \<Rightarrow> string \<Rightarrow> ('date, 'ts, 'd) RunningBalanceTracker" where
  "new_with_currency_and_framework config cur framework =
     \<lparr>tr_config = config, tr_balances = [], tr_account_types = [], tr_framework = framework,
      tr_history = [], tr_validation_errors = [],
      tr_stats = \<lparr>ts_entries_processed = 0, ts_lines_processed = 0, ts_total_debits = 0,
        ts_total_credits = 0, ts_companies_tracked = 0, ts_accounts_tracked = 0,
        ts_validation_errors = 0\<rparr>,
      tr_currency = cur\<rparr>"

definition new_with_currency ::
    "'d::linordered_field BalanceTrackerConfig \<Rightarrow> string \<Rightarrow> ('date, 'ts, 'd) RunningBalanceTracker" where
  "new_with_currency config cur = new_with_currency_and_framework config cur ''us_gaap''"

definition new_tracker :: "'d::linordered_field BalanceTrackerConfig \<Rightarrow> ('date, 'ts, 'd) RunningBalanceTracker" where
  "new_tracker config = new_with_currency config ''USD''"

definition new_with_framework ::
    "'d::linordered_field BalanceTrackerConfig \<Rightarrow> string \<Rightarrow> ('date, 'ts, 'd) RunningBalanceTracker" where
  "new_with_framework config framework = new_with_currency_and_framework config ''USD'' framework"

definition with_defaults :: "('date, 'ts, 'd::linordered_field) RunningBalanceTracker" where
  "with_defaults = new_tracker default_config"

section \<open>Account types\<close>

definition register_account_type ::
    "string \<Rightarrow> AccountType \<Rightarrow> ('date, 'ts, 'd) RunningBalanceTracker \<Rightarrow> ('date, 'ts, 'd) RunningBalanceTracker" where
  "register_account_type code ty tr =
     tr\<lparr>tr_account_types := AList.update code ty (tr_account_types tr)\<rparr>"

definition register_account_types ::
    "(string \<times> AccountType) list \<Rightarrow> ('date, 'ts, 'd) RunningBalanceTracker
     \<Rightarrow> ('date, 'ts, 'd) RunningBalanceTracker" where
  "register_account_types types tr =
     fold (\<lambda>(code, ty) t. t\<lparr>tr_account_types := AList.update code ty (tr_account_types t)\<rparr>) types tr"

definition register_from_chart_prefixes ::
    "(string \<times> AccountType) list \<Rightarrow> ('date, 'ts, 'd) RunningBalanceTracker
     \<Rightarrow> ('date, 'ts, 'd) RunningBalanceTracker" where
  "register_from_chart_prefixes prefixes tr =
     fold (\<lambda>(prefix, ty) t. t\<lparr>tr_account_types := AList.update prefix ty (tr_account_types t)\<rparr>) prefixes tr"

text \<open>The first registered code, in iteration order, that the account code starts with.\<close>

definition determine_account_type ::
    "('date, 'ts, 'd) RunningBalanceTracker \<Rightarrow> string \<Rightarrow> AccountType" where
  "determine_account_type tr account_code =
     (case find (\<lambda>(registered, _). starts_with account_code registered) (tr_account_types tr) of
        Some (_, ty) \<Rightarrow> ty
      | None \<Rightarrow> classify_account_type (tr_framework tr) account_code)"

section \<open>Applying entries\<close>

definition count_tracked ::
    "('date, 'ts, 'd) RunningBalanceTracker \<Rightarrow> ('date, 'ts, 'd) RunningBalanceTracker" where
  "count_tracked tr =
     tr\<lparr>tr_stats := (tr_stats tr)
         \<lparr>ts_companies_tracked := length (tr_balances tr),
          ts_accounts_tracked := sum_list (map (length \<circ> snd) (tr_balances tr))\<rparr>\<rparr>"

definition initialize_from_snapshot ::
    "('date, 'ts, 'd) BalanceSnapshot \<Rightarrow> ('date, 'ts, 'd) RunningBalanceTracker
     \<Rightarrow> ('date, 'ts, 'd) RunningBalanceTracker" where
  "initialize_from_snapshot snap tr =
     (let company = sn_company_code snap;
          bals = fold (\<lambda>(account, b) m. AList.update account b m) (sn_balances snap)
                   (get_or_empty (tr_balances tr) company)
      in count_tracked (tr\<lparr>tr_balances := AList.update company bals (tr_balances tr)\<rparr>))"

text \<open>One line of the loop of \<^verbatim>\<open>apply_entry\<close>: find or create the balance, post the positive
  amounts, and record the change.\<close>

definition balance_or_new ::
    "('date, 'ts, 'd::linordered_field) env \<Rightarrow> string \<Rightarrow> string \<Rightarrow> 'date \<Rightarrow> AccountType \<Rightarrow> string
     \<Rightarrow> (string \<times> ('ts, 'd) AccountBalance) list \<Rightarrow> ('ts, 'd) AccountBalance" where
  "balance_or_new env cur company dt ty account bals =
     (case map_of bals account of
        Some b \<Rightarrow> b
      | None \<Rightarrow> new_balance (clock env) company account ty cur
                  (word_of_int (year_of env dt)) (word_of_nat (month_of env dt)))"

definition post_line ::
    "'ts \<Rightarrow> ('date, 'd::linordered_field) JournalEntryLine \<Rightarrow> ('ts, 'd) AccountBalance
     \<Rightarrow> ('ts, 'd) AccountBalance" where
  "post_line now line b =
     (let b1 = (if debit_amount line > 0 then apply_debit now b (debit_amount line) else b)
      in if credit_amount line > 0 then apply_credit now b1 (credit_amount line) else b1)"

definition apply_line ::
    "('date, 'ts, 'd::linordered_field) env \<Rightarrow> string \<Rightarrow> string \<Rightarrow> 'date \<Rightarrow> string \<Rightarrow> bool
     \<Rightarrow> ('date, 'd) JournalEntryLine \<times> AccountType
     \<Rightarrow> (string \<times> ('ts, 'd) AccountBalance) list \<times> ('date, 'd) BalanceHistoryEntry list
     \<Rightarrow> (string \<times> ('ts, 'd) AccountBalance) list \<times> ('date, 'd) BalanceHistoryEntry list" where
  "apply_line env cur company dt doc_number tracked lt st =
     (let (line, ty) = lt;
          (bals, hist) = st;
          account = line_account_code line;
          b = balance_or_new env cur company dt ty account bals;
          b' = post_line (clock env) line b
      in (AList.update account b' bals,
          if tracked
          then hist @ [\<lparr>he_date = dt, he_entry_id = doc_number, he_account_code = account,
                        he_previous_balance = ab_closing_balance b,
                        he_change = debit_amount line - credit_amount line,
                        he_new_balance = ab_closing_balance b'\<rparr>]
          else hist))"

definition unbalanced_error ::
    "('date, 'ts, 'd::linordered_field) env \<Rightarrow> ('date, 'ts, 'd, 'wf) JournalEntry \<Rightarrow> ('date, 'd) ValidationError" where
  "unbalanced_error env e =
     \<lparr>ve_date = posting_date (header e), ve_company_code = company_code (header e),
      ve_entry_id = Some (document_number (show_uuid env) e), ve_error_type = UnbalancedEntry,
      ve_message = ''Entry '' @ document_number (show_uuid env) e @ '' is unbalanced: debits=''
        @ show_dec env (total_debit e) @ '', credits='' @ show_dec env (total_credit e),
      ve_details = [(''total_debit'', total_debit e), (''total_credit'', total_credit e)]\<rparr>"

text \<open>The five totals of \<^verbatim>\<open>validate_balance_sheet\<close>: assets, liabilities, equity, revenue,
  expenses. Assets are taken with their sign, everything else in absolute value.\<close>

fun add_sheet_total ::
    "AccountType \<Rightarrow> 'd::linordered_field \<Rightarrow> 'd \<times> 'd \<times> 'd \<times> 'd \<times> 'd \<Rightarrow> 'd \<times> 'd \<times> 'd \<times> 'd \<times> 'd" where
  "add_sheet_total Asset x (a, l, q, r, c) = (a + x, l, q, r, c)"
| "add_sheet_total ContraAsset x (a, l, q, r, c) = (a - \<bar>x\<bar>, l, q, r, c)"
| "add_sheet_total Liability x (a, l, q, r, c) = (a, l + \<bar>x\<bar>, q, r, c)"
| "add_sheet_total ContraLiability x (a, l, q, r, c) = (a, l - \<bar>x\<bar>, q, r, c)"
| "add_sheet_total Equity x (a, l, q, r, c) = (a, l, q + \<bar>x\<bar>, r, c)"
| "add_sheet_total ContraEquity x (a, l, q, r, c) = (a, l, q - \<bar>x\<bar>, r, c)"
| "add_sheet_total Revenue x (a, l, q, r, c) = (a, l, q, r + \<bar>x\<bar>, c)"
| "add_sheet_total Expense x (a, l, q, r, c) = (a, l, q, r, c + \<bar>x\<bar>)"

definition sheet_totals ::
    "('date, 'ts, 'd::linordered_field) RunningBalanceTracker \<Rightarrow> (string \<times> ('ts, 'd) AccountBalance) list
     \<Rightarrow> 'd \<times> 'd \<times> 'd \<times> 'd \<times> 'd" where
  "sheet_totals tr bals =
     fold (\<lambda>(account, b). add_sheet_total (determine_account_type tr account) (ab_closing_balance b))
       bals (0, 0, 0, 0, 0)"

definition validate_balance_sheet ::
    "('date, 'ts, 'd::linordered_field) env \<Rightarrow> string \<Rightarrow> 'date \<Rightarrow> string option
     \<Rightarrow> ('date, 'ts, 'd) RunningBalanceTracker
     \<Rightarrow> (('date, 'd) ValidationError, unit) result \<times> ('date, 'ts, 'd) RunningBalanceTracker" where
  "validate_balance_sheet env company dt entry_id tr =
     (case map_of (tr_balances tr) company of
        None \<Rightarrow> (Inr (), tr)
      | Some bals \<Rightarrow>
          (case sheet_totals tr bals of (assets, liabilities, equity, revenue, expenses) \<Rightarrow>
            (let income = revenue - expenses;
                 right = liabilities + equity + income;
                 difference = \<bar>assets - right\<bar>
             in if difference > balance_tolerance (tr_config tr) then
                  (let err = \<lparr>ve_date = dt, ve_company_code = company, ve_entry_id = entry_id,
                        ve_error_type = BalanceSheetImbalance,
                        ve_message = ''Balance sheet imbalance: Assets ('' @ show_dec env assets
                          @ '') != L + E + NI ('' @ show_dec env right @ ''), diff = '' @ show_dec env difference,
                        ve_details = [(''total_assets'', assets), (''total_liabilities'', liabilities),
                          (''total_equity'', equity), (''net_income'', income), (''difference'', difference)]\<rparr>;
                       tr1 = tr\<lparr>tr_stats := (tr_stats tr)
                               \<lparr>ts_validation_errors := ts_validation_errors (tr_stats tr) + 1\<rparr>\<rparr>
                   in if fail_on_validation_error (tr_config tr) then (Inl err, tr1)
                      else (Inr (), tr1\<lparr>tr_validation_errors := tr_validation_errors tr1 @ [err]\<rparr>))
                else (Inr (), tr))))"

text \<open>The part of \<^verbatim>\<open>apply_entry\<close> after the check of the entry's balance and before the check
  of the balance sheet.\<close>

definition post_entry ::
    "('date, 'ts, 'd::linordered_field) env \<Rightarrow> ('date, 'ts, 'd, 'wf) JournalEntry
     \<Rightarrow> ('date, 'ts, 'd) RunningBalanceTracker \<Rightarrow> ('date, 'ts, 'd) RunningBalanceTracker" where
  "post_entry env e tr =
     (let company = company_code (header e);
          line_data = map (\<lambda>l. (l, determine_account_type tr (line_account_code l))) (lines e);
          (bals, hist) =
            fold (apply_line env (tr_currency tr) company (posting_date (header e))
                    (document_number (show_uuid env) e) (track_history (tr_config tr)))
              line_data (get_or_empty (tr_balances tr) company, []);
          tr1 = tr\<lparr>tr_balances := AList.update company bals (tr_balances tr)\<rparr>;
          tr2 = (if hist = [] then tr1
                 else tr1\<lparr>tr_history := AList.update company
                            (get_or_empty (tr_history tr1) company @ hist) (tr_history tr1)\<rparr>);
          st = tr_stats tr2
      in count_tracked
           (tr2\<lparr>tr_stats := st
              \<lparr>ts_entries_processed := ts_entries_processed st + 1,
               ts_lines_processed := ts_lines_processed st + word_of_nat (length (lines e)),
               ts_total_debits := ts_total_debits st + total_debit e,
               ts_total_credits := ts_total_credits st + total_credit e\<rparr>\<rparr>))"

definition apply_entry ::
    "('date, 'ts, 'd::linordered_field) env \<Rightarrow> ('date, 'ts, 'd, 'wf) JournalEntry
     \<Rightarrow> ('date, 'ts, 'd) RunningBalanceTracker
     \<Rightarrow> (('date, 'd) ValidationError, unit) result \<times> ('date, 'ts, 'd) RunningBalanceTracker" where
  "apply_entry env e tr =
     (if \<not> is_balanced e \<and> fail_on_validation_error (tr_config tr)
      then (Inl (unbalanced_error env e), tr)
      else
        (let tr0 = (if \<not> is_balanced e
                    then tr\<lparr>tr_validation_errors := tr_validation_errors tr @ [unbalanced_error env e]\<rparr>
                    else tr);
             tr1 = post_entry env e tr0
         in if validate_on_each_entry (tr_config tr1)
            then validate_balance_sheet env (company_code (header e)) (posting_date (header e))
                   (Some (document_number (show_uuid env) e)) tr1
            else (Inr (), tr1)))"

fun apply_entries ::
    "('date, 'ts, 'd::linordered_field) env \<Rightarrow> ('date, 'ts, 'd, 'wf) JournalEntry list
     \<Rightarrow> ('date, 'ts, 'd) RunningBalanceTracker
     \<Rightarrow> ('date, 'd) ValidationError list \<times> ('date, 'ts, 'd) RunningBalanceTracker" where
  "apply_entries env [] tr = ([], tr)"
| "apply_entries env (e # es) tr =
     (case apply_entry env e tr of
        (Inl err, tr1) \<Rightarrow> (case apply_entries env es tr1 of (errs, tr2) \<Rightarrow> (err # errs, tr2))
      | (Inr _, tr1) \<Rightarrow> apply_entries env es tr1)"

section \<open>Reading the balances\<close>

definition snapshot_of ::
    "('date, 'ts, 'd::linordered_field) env \<Rightarrow> string \<Rightarrow> 'date \<Rightarrow> string
     \<Rightarrow> (string \<times> ('ts, 'd) AccountBalance) list \<Rightarrow> ('date, 'ts, 'd) BalanceSnapshot" where
  "snapshot_of env company dt cur bals =
     (let snap = new_snapshot (clock env) (''SNAP-'' @ company @ ''-'' @ show_date env dt) company dt
                   (word_of_int (year_of env dt)) (word_of_nat (month_of env dt)) cur
      in recalculate_totals
           (snap\<lparr>sn_balances := fold (\<lambda>(account, b) m. AList.update account b m) bals (sn_balances snap)\<rparr>))"

definition get_snapshot ::
    "('date, 'ts, 'd::linordered_field) env \<Rightarrow> ('date, 'ts, 'd) RunningBalanceTracker \<Rightarrow> string \<Rightarrow> 'date
     \<Rightarrow> ('date, 'ts, 'd) BalanceSnapshot option" where
  "get_snapshot env tr company dt =
     map_option (snapshot_of env company dt (tr_currency tr)) (map_of (tr_balances tr) company)"

definition get_all_snapshots ::
    "('date, 'ts, 'd::linordered_field) env \<Rightarrow> ('date, 'ts, 'd) RunningBalanceTracker \<Rightarrow> 'date
     \<Rightarrow> ('date, 'ts, 'd) BalanceSnapshot list" where
  "get_all_snapshots env tr dt =
     map (\<lambda>(company, bals). snapshot_of env company dt (tr_currency tr) bals) (tr_balances tr)"

text \<open>The activity of one account, updated by a history entry in the window.\<close>

definition add_history_entry ::
    "'date \<Rightarrow> 'date \<Rightarrow> ('date, 'd::linordered_field) BalanceHistoryEntry
     \<Rightarrow> (string \<times> ('date, 'd) AccountPeriodActivity) list \<Rightarrow> (string \<times> ('date, 'd) AccountPeriodActivity) list" where
  "add_history_entry from_dt to_dt h m =
     (let c = (case map_of m (he_account_code h) of
                 Some c \<Rightarrow> c
               | None \<Rightarrow> new_activity (he_account_code h) from_dt to_dt);
          c1 = (if he_change h > 0
                then c\<lparr>pa_total_debits := pa_total_debits c + he_change h\<rparr>
                else c\<lparr>pa_total_credits := pa_total_credits c + \<bar>he_change h\<bar>\<rparr>)
      in AList.update (he_account_code h)
           (c1\<lparr>pa_net_change := pa_net_change c1 + he_change h,
               pa_transaction_count := pa_transaction_count c1 + 1\<rparr>) m)"

definition set_period_balances ::
    "(string \<times> ('ts, 'd::linordered_field) AccountBalance) list \<Rightarrow> ('date, 'd) AccountPeriodActivity
     \<Rightarrow> ('date, 'd) AccountPeriodActivity" where
  "set_period_balances bals c =
     (case map_of bals (pa_account_code c) of
        None \<Rightarrow> c
      | Some b \<Rightarrow> c\<lparr>pa_closing_balance := ab_closing_balance b,
                     pa_opening_balance := ab_closing_balance b - pa_net_change c\<rparr>)"

definition get_balance_changes ::
    "('date::linorder, 'ts, 'd::linordered_field) RunningBalanceTracker \<Rightarrow> string \<Rightarrow> 'date \<Rightarrow> 'date
     \<Rightarrow> ('date, 'd) AccountPeriodActivity list" where
  "get_balance_changes tr company from_dt to_dt =
     (case map_of (tr_history tr) company of
        None \<Rightarrow> []
      | Some hist \<Rightarrow>
          (let changes = fold (add_history_entry from_dt to_dt)
                 (filter (\<lambda>h. he_date h \<ge> from_dt \<and> he_date h \<le> to_dt) hist) []
           in case map_of (tr_balances tr) company of
                None \<Rightarrow> map snd changes
              | Some bals \<Rightarrow> map (set_period_balances bals \<circ> snd) changes))"

definition get_account_balance ::
    "('date, 'ts, 'd) RunningBalanceTracker \<Rightarrow> string \<Rightarrow> string \<Rightarrow> ('ts, 'd) AccountBalance option" where
  "get_account_balance tr company account =
     Option.bind (map_of (tr_balances tr) company) (\<lambda>m. map_of m account)"

definition clear_validation_errors ::
    "('date, 'ts, 'd) RunningBalanceTracker \<Rightarrow> ('date, 'ts, 'd) RunningBalanceTracker" where
  "clear_validation_errors tr =
     tr\<lparr>tr_validation_errors := [], tr_stats := (tr_stats tr)\<lparr>ts_validation_errors := 0\<rparr>\<rparr>"

text \<open>\<^verbatim>\<open>roll_forward\<close> of the tracker ignores the date it is given.\<close>

definition roll_forward_all ::
    "'ts \<Rightarrow> ('date, 'ts, 'd::linordered_field) RunningBalanceTracker \<Rightarrow> ('date, 'ts, 'd) RunningBalanceTracker" where
  "roll_forward_all now tr =
     tr\<lparr>tr_balances := map (\<lambda>(company, bals). (company, map (\<lambda>(account, b). (account, roll_forward now b)) bals))
                       (tr_balances tr)\<rparr>"

definition export_balances ::
    "('date, 'ts, 'd) RunningBalanceTracker \<Rightarrow> string \<Rightarrow> (string \<times> 'd) list" where
  "export_balances tr company =
     (case map_of (tr_balances tr) company of
        None \<Rightarrow> []
      | Some bals \<Rightarrow> map (\<lambda>(code, b). (code, ab_closing_balance b)) bals)"

section \<open>Lemmas\<close>

text \<open>Posting a line with amounts that are not negative.\<close>

definition line_postings :: "('date, 'd::linordered_field) JournalEntryLine \<Rightarrow> (bool \<times> 'd) list" where
  "line_postings l =
     (if debit_amount l > 0 then [(True, debit_amount l)] else []) @
     (if credit_amount l > 0 then [(False, credit_amount l)] else [])"

definition line_nonneg :: "('date, 'd::linordered_field) JournalEntryLine \<Rightarrow> bool" where
  "line_nonneg l \<longleftrightarrow> 0 \<le> debit_amount l \<and> 0 \<le> credit_amount l"

lemma post_line_post_all:
  "post_line now l b = post_all (apply_debit now) (apply_credit now) b (line_postings l)"
  by (simp add: post_line_def line_postings_def Let_def)

lemma net_posted_line: "line_nonneg l \<Longrightarrow> net_posted (line_postings l) = signed_amount l"
  by (auto simp: line_nonneg_def line_postings_def signed_amount_def)

lemma balance_sign_square: "balance_sign b * balance_sign b = (1 :: 'd::linordered_field)"
  by (simp add: balance_sign_def type_sign_def)

lemma post_line_signed:
  assumes "closing_ok b" "line_nonneg l"
  shows "signed_closing (post_line now l b) = signed_closing b + signed_amount l"
    "closing_ok (post_line now l b)"
proof -
  note k = account_ledger.post_all_keeps[OF assms(1), of now "line_postings l"]
  show "closing_ok (post_line now l b)" using k by (simp add: post_line_post_all)
  have "signed_closing (post_line now l b) =
      balance_sign b * (ab_closing_balance b + balance_sign b * signed_amount l)"
    using k account_ledger.post_all_balance[OF assms(1), of now "line_postings l"] net_posted_line[OF assms(2)]
    by (simp add: signed_closing_def post_line_post_all)
  then show "signed_closing (post_line now l b) = signed_closing b + signed_amount l"
    by (simp add: signed_closing_def algebra_simps balance_sign_square mult.assoc[symmetric])
qed

text \<open>A company's balances: distinct accounts, each keeping its books.\<close>

definition bals_ok :: "(string \<times> ('ts, 'd::linordered_field) AccountBalance) list \<Rightarrow> bool" where
  "bals_ok m \<longleftrightarrow> distinct (map fst m) \<and> (\<forall>b. b \<in> snd ` set m \<longrightarrow> closing_ok b)"

definition signed_of :: "(string \<times> ('ts, 'd::linordered_field) AccountBalance) list \<Rightarrow> string \<Rightarrow> 'd" where
  "signed_of m a = (case map_of m a of None \<Rightarrow> 0 | Some b \<Rightarrow> signed_closing b)"

definition trial :: "(string \<times> ('ts, 'd::linordered_field) AccountBalance) list \<Rightarrow> 'd" where
  "trial m = sum_list (map (signed_closing \<circ> snd) m)"

lemma bals_ok_empty [simp]: "bals_ok []" by (simp add: bals_ok_def)

lemma update_values: "v \<in> snd ` set (AList.update a b m) \<Longrightarrow> v = b \<or> v \<in> snd ` set m"
  by (induction m) (auto split: if_splits)

lemma bals_ok_update: "bals_ok m \<Longrightarrow> closing_ok b \<Longrightarrow> bals_ok (AList.update a b m)"
  unfolding bals_ok_def using update_values[of _ a b m] by (auto simp: distinct_update)

lemma trial_update:
  "distinct (map fst m) \<Longrightarrow> trial (AList.update a b m) = trial m - signed_of m a + signed_closing b"
  by (induction m) (auto simp: trial_def signed_of_def algebra_simps dest: map_of_SomeD split: option.splits)

lemma signed_of_update:
  "signed_of (AList.update a b m) a' = (if a' = a then signed_closing b else signed_of m a')"
  by (simp add: signed_of_def update_conv')

lemma balance_or_new_props:
  assumes "bals_ok m"
  shows "closing_ok (balance_or_new env cur c dt ty a m)"
    "signed_closing (balance_or_new env cur c dt ty a m) = signed_of m a"
  using assms
  by (auto simp: balance_or_new_def signed_of_def bals_ok_def signed_closing_def new_balance_def
      split: option.splits dest!: map_of_SomeD)
     (metis closing_ok_intros(1) new_balance_def)+

lemma apply_line_effect:
  assumes "bals_ok (fst st)" "line_nonneg (fst lt)"
    and st': "st' = apply_line env cur c dt doc tracked lt st"
  shows "bals_ok (fst st')"
    "trial (fst st') = trial (fst st) + signed_amount (fst lt)"
    "signed_of (fst st') a = signed_of (fst st) a +
       (if line_account_code (fst lt) = a then signed_amount (fst lt) else 0)"
proof -
  obtain line ty bals hist where [simp]: "lt = (line, ty)" "st = (bals, hist)" by (cases lt; cases st)
  let ?b = "balance_or_new env cur c dt ty (line_account_code line) bals"
  have ok: "bals_ok bals" "line_nonneg line" using assms by simp_all
  have fst: "fst st' = AList.update (line_account_code line) (post_line (clock env) line ?b) bals"
    by (simp add: st' apply_line_def Let_def)
  note b = balance_or_new_props[OF ok(1), of env cur c dt ty "line_account_code line"]
  note p = post_line_signed[OF b(1) ok(2), of "clock env"]
  show "bals_ok (fst st')" using ok p by (simp add: fst bals_ok_update)
  show "trial (fst st') = trial (fst st) + signed_amount (fst lt)"
    using ok p b by (simp add: fst trial_update bals_ok_def)
  show "signed_of (fst st') a = signed_of (fst st) a +
       (if line_account_code (fst lt) = a then signed_amount (fst lt) else 0)"
    using p b by (simp add: fst signed_of_update)
qed

definition account_amount :: "string \<Rightarrow> ('date, 'd::linordered_field) JournalEntryLine list \<Rightarrow> 'd" where
  "account_amount a ls = sum_list (map signed_amount (filter (\<lambda>l. line_account_code l = a) ls))"

lemma apply_lines_effect:
  assumes "bals_ok (fst st)" "list_all (line_nonneg \<circ> fst) lts"
  shows "bals_ok (fst (fold (apply_line env cur c dt doc tracked) lts st)) \<and>
    trial (fst (fold (apply_line env cur c dt doc tracked) lts st)) = trial (fst st) + sum_list (map (signed_amount \<circ> fst) lts) \<and>
    signed_of (fst (fold (apply_line env cur c dt doc tracked) lts st)) a = signed_of (fst st) a + account_amount a (map fst lts)"
  using assms
proof (induction lts arbitrary: st)
  case (Cons lt lts)
  have nn: "line_nonneg (fst lt)" using Cons.prems by simp
  note step = apply_line_effect[OF Cons.prems(1) nn refl, of env cur c dt doc tracked]
  from Cons.IH[OF step(1)] Cons.prems step show ?case
    by (simp add: account_amount_def algebra_simps)
qed (simp add: account_amount_def)

text \<open>The whole tracker.\<close>

definition tracker_ok :: "('date, 'ts, 'd::linordered_field) RunningBalanceTracker \<Rightarrow> bool" where
  "tracker_ok tr \<longleftrightarrow> (\<forall>c. bals_ok (get_or_empty (tr_balances tr) c))"

definition trial_balance :: "('date, 'ts, 'd::linordered_field) RunningBalanceTracker \<Rightarrow> string \<Rightarrow> 'd" where
  "trial_balance tr c = trial (get_or_empty (tr_balances tr) c)"

definition account_position :: "('date, 'ts, 'd::linordered_field) RunningBalanceTracker \<Rightarrow> string \<Rightarrow> string \<Rightarrow> 'd" where
  "account_position tr c a = signed_of (get_or_empty (tr_balances tr) c) a"

lemma account_position_alt:
  "account_position tr c a = (case get_account_balance tr c a of None \<Rightarrow> 0 | Some b \<Rightarrow> signed_closing b)"
  by (simp add: account_position_def signed_of_def get_account_balance_def get_or_empty_def split: option.splits)

named_theorems tracker_simps \<open>reading a tracker after one of its operations\<close>

lemma count_tracked_sel [tracker_simps]:
  "tr_balances (count_tracked tr) = tr_balances tr" "tr_config (count_tracked tr) = tr_config tr"
  "tr_history (count_tracked tr) = tr_history tr"
  "tr_account_types (count_tracked tr) = tr_account_types tr"
  "tr_framework (count_tracked tr) = tr_framework tr"
  "tr_validation_errors (count_tracked tr) = tr_validation_errors tr"
  by (simp_all add: count_tracked_def)

lemma post_entry_balances [tracker_simps]:
  "tr_balances (post_entry env e tr) =
     AList.update (company_code (header e))
       (fst (fold (apply_line env (tr_currency tr) (company_code (header e)) (posting_date (header e))
               (document_number (show_uuid env) e) (track_history (tr_config tr)))
          (map (\<lambda>l. (l, determine_account_type tr (line_account_code l))) (lines e))
          (get_or_empty (tr_balances tr) (company_code (header e)), [])))
       (tr_balances tr)"
  by (simp add: post_entry_def Let_def tracker_simps split: prod.split)

lemma post_entry_config [tracker_simps]: "tr_config (post_entry env e tr) = tr_config tr"
  by (simp add: post_entry_def Let_def tracker_simps split: prod.split)

definition entry_nonneg :: "('date, 'ts, 'd::linordered_field, 'wf) JournalEntry \<Rightarrow> bool" where
  "entry_nonneg e \<longleftrightarrow> list_all line_nonneg (lines e)"

lemma post_entry_effect:
  assumes "tracker_ok tr" "entry_nonneg e"
  shows "tracker_ok (post_entry env e tr)"
    "trial_balance (post_entry env e tr) c = trial_balance tr c +
       (if company_code (header e) = c then balance_difference e else 0)"
    "account_position (post_entry env e tr) c a = account_position tr c a +
       (if company_code (header e) = c then account_amount a (lines e) else 0)"
proof -
  let ?c = "company_code (header e)"
  let ?st = "(get_or_empty (tr_balances tr) ?c, []) :: _ \<times> ('a, 'c) BalanceHistoryEntry list"
  have ok: "bals_ok (fst ?st)" using assms(1) by (simp add: tracker_ok_def)
  have nn: "list_all (line_nonneg \<circ> fst) (map (\<lambda>l. (l, determine_account_type tr (line_account_code l))) (lines e))"
    using assms(2) by (simp add: entry_nonneg_def list.pred_map comp_def)
  note eff = apply_lines_effect[OF ok nn, of env "tr_currency tr" ?c "posting_date (header e)"
      "document_number (show_uuid env) e" "track_history (tr_config tr)" a]
  have sum: "sum_list (map signed_amount (lines e)) = balance_difference e"
    by (simp add: sum_signed balance_difference_def total_debit_def total_credit_def)
  show "tracker_ok (post_entry env e tr)"
    using assms(1) eff by (auto simp: tracker_ok_def tracker_simps get_or_empty_update)
  show "trial_balance (post_entry env e tr) c = trial_balance tr c +
       (if ?c = c then balance_difference e else 0)"
    using eff by (auto simp: trial_balance_def tracker_simps get_or_empty_update comp_def sum)
  show "account_position (post_entry env e tr) c a = account_position tr c a +
       (if ?c = c then account_amount a (lines e) else 0)"
    using eff by (auto simp: account_position_def tracker_simps get_or_empty_update comp_def)
qed

lemma validate_keeps [tracker_simps]:
  "tr_balances (snd (validate_balance_sheet env c dt i tr)) = tr_balances tr"
  "tr_config (snd (validate_balance_sheet env c dt i tr)) = tr_config tr"
  by (auto simp: validate_balance_sheet_def Let_def split: option.splits prod.splits)

text \<open>The entries that reach the balances: all of them, but the unbalanced ones if the tracker
  fails on validation errors.\<close>

definition accepts :: "('date, 'ts, 'd::linordered_field) RunningBalanceTracker
     \<Rightarrow> ('date, 'ts, 'd, 'wf) JournalEntry \<Rightarrow> bool" where
  "accepts tr e \<longleftrightarrow> is_balanced e \<or> \<not> fail_on_validation_error (tr_config tr)"

lemma apply_entry_balances:
  "\<exists>tr'. tr_balances tr' = tr_balances tr \<and> tr_config tr' = tr_config tr \<and>
     tr_balances (snd (apply_entry env e tr)) =
       (if accepts tr e then tr_balances (post_entry env e tr') else tr_balances tr) \<and>
     tr_config (snd (apply_entry env e tr)) = tr_config tr"
proof -
  let ?tr' = "if \<not> is_balanced e
     then tr\<lparr>tr_validation_errors := tr_validation_errors tr @ [unbalanced_error env e]\<rparr> else tr"
  show ?thesis
    by (rule exI[of _ ?tr']) (auto simp: apply_entry_def accepts_def Let_def tracker_simps)
qed

lemma position_cong:
  "tr_balances tr' = tr_balances tr \<Longrightarrow> tracker_ok tr' = tracker_ok tr"
  "tr_balances tr' = tr_balances tr \<Longrightarrow> trial_balance tr' c = trial_balance tr c"
  "tr_balances tr' = tr_balances tr \<Longrightarrow> account_position tr' c a = account_position tr c a"
  by (simp_all add: tracker_ok_def trial_balance_def account_position_def)

lemma apply_entry_effect:
  assumes "tracker_ok tr" "entry_nonneg e"
  shows "tracker_ok (snd (apply_entry env e tr))"
    "trial_balance (snd (apply_entry env e tr)) c = trial_balance tr c +
       (if accepts tr e \<and> company_code (header e) = c then balance_difference e else 0)"
    "account_position (snd (apply_entry env e tr)) c a = account_position tr c a +
       (if accepts tr e \<and> company_code (header e) = c then account_amount a (lines e) else 0)"
    "accepts (snd (apply_entry env e tr)) e' = accepts tr e'"
proof -
  obtain tr' where tr': "tr_balances tr' = tr_balances tr" "tr_config tr' = tr_config tr"
    "tr_balances (snd (apply_entry env e tr)) =
       (if accepts tr e then tr_balances (post_entry env e tr') else tr_balances tr)"
    "tr_config (snd (apply_entry env e tr)) = tr_config tr"
    using apply_entry_balances[of tr env e] by blast
  have ok': "tracker_ok tr'" using assms(1) position_cong(1)[OF tr'(1)] by simp
  note post = post_entry_effect[OF ok' assms(2), of env]
  show "tracker_ok (snd (apply_entry env e tr))"
    using tr'(3) post(1) assms(1) position_cong(1) by (metis (full_types))
  show "trial_balance (snd (apply_entry env e tr)) c = trial_balance tr c +
       (if accepts tr e \<and> company_code (header e) = c then balance_difference e else 0)"
    using tr'(3) post(2)[of c] position_cong(2)[OF tr'(1), of c] by (simp add: trial_balance_def split: if_splits)
  show "account_position (snd (apply_entry env e tr)) c a = account_position tr c a +
       (if accepts tr e \<and> company_code (header e) = c then account_amount a (lines e) else 0)"
    using tr'(3) post(3)[of c a] position_cong(3)[OF tr'(1), of c a]
    by (simp add: account_position_def split: if_splits)
  show "accepts (snd (apply_entry env e tr)) e' = accepts tr e'" using tr'(4) by (simp add: accepts_def)
qed

definition booked :: "('date, 'ts, 'd::linordered_field) RunningBalanceTracker \<Rightarrow> string
     \<Rightarrow> ('date, 'ts, 'd, 'wf) JournalEntry list \<Rightarrow> ('date, 'ts, 'd, 'wf) JournalEntry list" where
  "booked tr c es = filter (\<lambda>e. accepts tr e \<and> company_code (header e) = c) es"

lemma apply_entries_step:
  "snd (apply_entries env (e # es) tr) = snd (apply_entries env es (snd (apply_entry env e tr)))"
  by (auto split: prod.splits sum.splits)

lemma apply_entries_effect:
  assumes "tracker_ok tr" "list_all entry_nonneg es"
  shows "tracker_ok (snd (apply_entries env es tr)) \<and>
    trial_balance (snd (apply_entries env es tr)) c =
      trial_balance tr c + sum_list (map balance_difference (booked tr c es)) \<and>
    account_position (snd (apply_entries env es tr)) c a =
      account_position tr c a + account_amount a (concat (map lines (booked tr c es)))"
  using assms
proof (induction es arbitrary: tr)
  case Nil
  then show ?case by (simp add: booked_def account_amount_def)
next
  case (Cons e es)
  have nn: "entry_nonneg e" "list_all entry_nonneg es" using Cons.prems(2) by simp_all
  note one = apply_entry_effect[OF Cons.prems(1) nn(1), of env]
  have booked: "booked (snd (apply_entry env e tr)) c es = booked tr c es"
    by (simp add: booked_def one(4))
  show ?case
    using Cons.IH[OF one(1) nn(2)] one(2,3)[of c] booked
    by (simp only: apply_entries_step) (simp add: booked_def account_amount_def algebra_simps)
qed

lemma tracker_ok_new [simp]: "tracker_ok (new_with_currency_and_framework config cur fw)"
  by (simp add: tracker_ok_def new_with_currency_and_framework_def get_or_empty_def)

section \<open>Types, errors and snapshots\<close>

lemma find_mset_eq:
  assumes "set xs = set ys" "\<And>x y. x \<in> set xs \<Longrightarrow> y \<in> set xs \<Longrightarrow> P x \<Longrightarrow> P y \<Longrightarrow> f x = f y"
  shows "map_option f (find P xs) = map_option f (find P ys)"
proof -
  have "map_option f (find P zs) = (if \<exists>z\<in>set zs. P z then Some (f (SOME z. z \<in> set zs \<and> P z)) else None)"
    if "set zs = set xs" for zs
  proof (cases "find P zs")
    case None
    then show ?thesis by (auto simp: find_None_iff)
  next
    case (Some z)
    then have z: "z \<in> set zs" "P z" by (auto simp: find_Some_iff)
    then have "f z = f (SOME z. z \<in> set zs \<and> P z)"
      using assms(2)[of z] someI[of "\<lambda>z. z \<in> set zs \<and> P z" z] that by metis
    with Some z show ?thesis by auto
  qed
  then show ?thesis using assms(1) by metis
qed

text \<open>Two postings at a fresh account that shows both signs.\<close>

definition sample_env :: "(nat, unit, rat) env" where
  "sample_env =
     \<lparr>year_of = (\<lambda>_. 2024), month_of = (\<lambda>_. 1), clock = (), show_uuid = (\<lambda>_. ''u''),
      show_date = (\<lambda>_. ''d''), show_dec = (\<lambda>_. ''x'')\<rparr>"

definition sample_header :: "(nat, unit, rat, unit) JournalEntryHeader" where
  "sample_header = new_header (\<lambda>_. 2024) (\<lambda>_. 1) () (replicate 16 0) ''C1'' 5"

definition sample_entry :: "rat \<Rightarrow> rat \<Rightarrow> (nat, unit, rat, unit) JournalEntry" where
  "sample_entry x y =
     add_line (add_line (new_entry sample_header) (debit_line [] 1 ''1000'' x)) (credit_line [] 2 ''4000'' y)"

definition sample_tracker :: "bool \<Rightarrow> (nat, unit, rat) RunningBalanceTracker" where
  "sample_tracker fail = new_tracker (default_config\<lparr>fail_on_validation_error := fail\<rparr>)"

lemma sample_header_sel [simp]:
  "company_code sample_header = ''C1''" "posting_date sample_header = 5"
  by (simp_all add: sample_header_def new_header_def)

lemma sample_entry_sel [simp]:
  "header (sample_entry x y) = sample_header"
  "total_debit (sample_entry x y) = x" "total_credit (sample_entry x y) = y"
  "is_balanced (sample_entry x y) \<longleftrightarrow> x = y"
  "0 \<le> x \<Longrightarrow> 0 \<le> y \<Longrightarrow> entry_nonneg (sample_entry x y)"
  by (simp_all add: sample_entry_def is_balanced_def entry_nonneg_def line_nonneg_def)
     (simp_all add: total_debit_def total_credit_def debit_line_def credit_line_def)

lemma sample_tracker_ok [simp]: "tracker_ok (sample_tracker f)"
  by (simp add: sample_tracker_def new_tracker_def new_with_currency_def)

lemma account_amount_concat:
  "account_amount a (concat (map lines xs)) = sum_list (map (\<lambda>e. account_amount a (lines e)) xs)"
  by (induction xs) (simp_all add: account_amount_def)

lemma account_amount_append [simp]:
  "account_amount a (xs @ ys) = account_amount a xs + account_amount a ys"
  by (simp add: account_amount_def)

lemma sample_tracker_start [simp]:
  "trial_balance (sample_tracker f) c = 0" "account_position (sample_tracker f) c a = 0"
  "accepts (sample_tracker f) e \<longleftrightarrow> is_balanced e \<or> \<not> f"
  "account_amount ''4000'' (lines (sample_entry x y)) = - y"
  by (simp_all add: trial_balance_def account_position_def sample_tracker_def new_tracker_def accepts_def
      new_with_currency_def new_with_currency_and_framework_def get_or_empty_def trial_def signed_of_def)
     (simp add: sample_entry_def account_amount_def signed_amount_def debit_line_def credit_line_def)

text \<open>The accounts of the sample entry have their types from the first digit.\<close>

lemma sample_types [simp]:
  "determine_account_type (sample_tracker f) ''1000'' = Asset"
  "determine_account_type (sample_tracker f) ''4000'' = Revenue"
  by (simp_all add: determine_account_type_def sample_tracker_def new_tracker_def new_with_currency_def
      new_with_currency_and_framework_def classify_account_type_def classify_def us_gaap_classify_def
      from_account_def)

section \<open>Properties\<close>

text \<open>C3. Double entry is conserved: starting from balances that keep their books, after any
  list of entries with amounts that are not negative, a company's trial balance has changed by
  exactly the imbalance of the entries booked to it; balanced entries leave it as it was, so a
  new tracker fed with balanced entries has trial balance zero for every company, whatever
  errors validation reported.\<close>

theorem trial_balance_conserved:
  assumes "tracker_ok tr" "list_all entry_nonneg es"
  shows "trial_balance (snd (apply_entries env es tr)) c =
      trial_balance tr c + sum_list (map balance_difference (booked tr c es)) \<and>
    tracker_ok (snd (apply_entries env es tr)) \<and>
    (list_all is_balanced es \<longrightarrow> trial_balance (snd (apply_entries env es tr)) c = trial_balance tr c)"
proof -
  have "list_all is_balanced es \<Longrightarrow> sum_list (map balance_difference (booked tr c es)) = 0"
    by (induction es) (auto simp: booked_def is_balanced_def balance_difference_def)
  then show ?thesis using apply_entries_effect[OF assms, of env c] by simp
qed

theorem trial_balance_conserved_witness:
  "trial_balance (snd (apply_entries sample_env [sample_entry 5 5, sample_entry 7 7] (sample_tracker False))) ''C1'' = 0"
  using trial_balance_conserved[of "sample_tracker False" "[sample_entry 5 5, sample_entry 7 7]" sample_env "''C1''"]
  by (simp del: apply_entries.simps)

text \<open>The tracker is the ledger: the position of an account (its closing balance in the
  direction of its type, zero if the account is unknown) changes by the sum of debit minus
  credit over the lines booked to it, so the order of the entries does not matter.\<close>

theorem account_position_is_sum_of_lines:
  assumes "tracker_ok tr" "list_all entry_nonneg es" "mset es = mset es'"
  shows "account_position (snd (apply_entries env es tr)) c a =
      account_position tr c a + account_amount a (concat (map lines (booked tr c es))) \<and>
    account_position (snd (apply_entries env es' tr)) c a = account_position (snd (apply_entries env es tr)) c a"
proof -
  have nn': "list_all entry_nonneg es'"
    using assms(2) mset_eq_setD[OF assms(3)] by (simp add: list_all_iff)
  have "mset (booked tr c es) = mset (booked tr c es')" using assms(3) by (simp add: booked_def mset_filter)
  then have "mset (map (\<lambda>e. account_amount a (lines e)) (booked tr c es)) =
      mset (map (\<lambda>e. account_amount a (lines e)) (booked tr c es'))" by simp
  then have "account_amount a (concat (map lines (booked tr c es))) =
      account_amount a (concat (map lines (booked tr c es')))"
    unfolding account_amount_concat by (metis sum_mset_sum_list)
  then show ?thesis
    using apply_entries_effect[OF assms(1,2), of env c a] apply_entries_effect[OF assms(1) nn', of env c a] by simp
qed

theorem account_position_is_sum_of_lines_witness:
  "account_position (snd (apply_entries sample_env [sample_entry 5 5, sample_entry 7 7] (sample_tracker True))) ''C1'' ''4000'' = - 12"
  using account_position_is_sum_of_lines[of "sample_tracker True" "[sample_entry 5 5, sample_entry 7 7]"
      "[sample_entry 7 7, sample_entry 5 5]" sample_env "''C1''" "''4000''"]
  by (simp add: booked_def del: apply_entries.simps)

text \<open>An unbalanced entry is rejected with the entry's totals and without any effect if the
  tracker fails on validation errors; otherwise the same error is recorded and the entry is
  booked.\<close>

theorem unbalanced_entry_handling:
  assumes "\<not> is_balanced e"
  shows "if fail_on_validation_error (tr_config tr)
    then apply_entry env e tr = (Inl (unbalanced_error env e), tr)
    else unbalanced_error env e \<in> set (tr_validation_errors (snd (apply_entry env e tr))) \<and>
      ve_details (unbalanced_error env e) = [(''total_debit'', total_debit e), (''total_credit'', total_credit e)]
      \<and> is_ok (fst (apply_entry env e tr))"
proof (cases "fail_on_validation_error (tr_config tr)")
  case True
  then show ?thesis using assms by (simp add: apply_entry_def)
next
  case False
  have errs: "tr_validation_errors (post_entry env e t) = tr_validation_errors t" for t
    by (simp add: post_entry_def Let_def tracker_simps split: prod.split)
  have keep: "set (tr_validation_errors t) \<subseteq> set (tr_validation_errors (snd (validate_balance_sheet env c d i t)))"
    for t c d i
    by (auto simp: validate_balance_sheet_def Let_def split: option.splits prod.splits)
  have ok: "\<not> fail_on_validation_error (tr_config t) \<Longrightarrow> is_ok (fst (validate_balance_sheet env c d i t))" for t c d i
    by (auto simp: validate_balance_sheet_def Let_def split: option.splits prod.splits)
  let ?t = "post_entry env e (tr\<lparr>tr_validation_errors := tr_validation_errors tr @ [unbalanced_error env e]\<rparr>)"
  have "unbalanced_error env e \<in> set (tr_validation_errors ?t)" by (simp add: errs)
  then show ?thesis
    using False assms keep[of ?t] ok[of ?t]
    by (auto simp: apply_entry_def Let_def unbalanced_error_def tracker_simps)
qed

theorem unbalanced_entry_handling_witness:
  "apply_entry sample_env (sample_entry 5 4) (sample_tracker True) =
     (Inl (unbalanced_error sample_env (sample_entry 5 4)), sample_tracker True)"
  using unbalanced_entry_handling[of "sample_entry 5 4" "sample_tracker True" sample_env]
  by (simp add: sample_tracker_def new_tracker_def new_with_currency_def new_with_currency_and_framework_def)

text \<open>The type found for an account code does not depend on the iteration order of the
  registered codes, provided that registered codes which are both prefixes of it have one
  type.\<close>

theorem account_type_order_independent:
  assumes "set (tr_account_types tr') = set (tr_account_types tr)" "tr_framework tr' = tr_framework tr"
    and "\<forall>p ty p' ty'. (p, ty) \<in> set (tr_account_types tr) \<and> (p', ty') \<in> set (tr_account_types tr)
       \<and> starts_with code p \<and> starts_with code p' \<longrightarrow> ty = ty'"
  shows "determine_account_type tr' code = determine_account_type tr code"
proof -
  have "map_option snd (find (\<lambda>(r, _). starts_with code r) (tr_account_types tr)) =
      map_option snd (find (\<lambda>(r, _). starts_with code r) (tr_account_types tr'))"
    by (rule find_mset_eq) (use assms in auto)
  then show ?thesis using assms(2)
    by (auto simp: determine_account_type_def split: option.splits)
qed

theorem account_type_order_independent_witness:
  "determine_account_type ((sample_tracker True)\<lparr>tr_account_types := [(''2'', Liability), (''10'', ContraAsset)]\<rparr>) ''1000''
     = determine_account_type ((sample_tracker True)\<lparr>tr_account_types := [(''10'', ContraAsset), (''2'', Liability)]\<rparr>) ''1000''"
  by (rule account_type_order_independent) (auto simp: starts_with_def)

text \<open>With overlapping registered codes the iteration order decides.\<close>

lemma account_type_order_matters:
  "set [(''1'', Asset), (''15'', ContraAsset)] = set [(''15'', ContraAsset), (''1'', Asset)]"
  "determine_account_type (tr\<lparr>tr_account_types := [(''1'', Asset), (''15'', ContraAsset)]\<rparr>) ''1590'' = Asset"
  "determine_account_type (tr\<lparr>tr_account_types := [(''15'', ContraAsset), (''1'', Asset)]\<rparr>) ''1590'' = ContraAsset"
  by (auto simp: determine_account_type_def starts_with_def)

text \<open>A snapshot taken from the tracker holds the balances but none of the totals: it
  reports total assets and difference zero and says balanced, whatever the balances are.\<close>

theorem tracker_snapshot_totals_unset:
  "map_option (\<lambda>s. (sn_is_balanced s, sn_balance_difference s, sn_total_assets s, sn_net_income s))
     (get_snapshot env tr company dt) =
   map_option (\<lambda>_. (True, 0, 0, 0)) (map_of (tr_balances tr) company)"
  by (cases "map_of (tr_balances tr) company")
     (simp_all add: get_snapshot_def snapshot_of_def Let_def new_snapshot_def recalculate_totals_def)

text \<open>The opening balance that \<^verbatim>\<open>get_balance_changes\<close> reports for a credit-normal account: one
  entry of \<open>x\<close> to the fresh account leaves it at \<open>x\<close>, and the reported opening is \<open>2 * x\<close>, not
  the recorded previous balance of zero.\<close>

lemma credit_normal_opening_reported:
  assumes "0 < x"
  shows "map_of (map (\<lambda>c. (pa_account_code c, (pa_opening_balance c, pa_closing_balance c)))
     (get_balance_changes (post_entry sample_env (sample_entry x x) (sample_tracker False)) ''C1'' 1 9)) ''4000''
     = Some (2 * x, x)"
  using assms
  by (simp add: post_entry_def sample_entry_def Let_def)
     (simp add: debit_line_def credit_line_def apply_line_def Let_def get_balance_changes_def
      sample_tracker_def new_tracker_def new_with_currency_def new_with_currency_and_framework_def
      default_config_def count_tracked_def get_or_empty_def balance_or_new_def new_balance_def post_line_def
      apply_debit_def apply_credit_def recalculate_closing_def add_history_entry_def new_activity_def
      set_period_balances_def determine_account_type_def classify_account_type_def classify_def
      us_gaap_classify_def from_account_def)

end
