(* ===== verification/Blueprint.thy ===== *)
theory Blueprint
  imports Prelude
begin

text \<open>
  Model of the audit methodology blueprints: the schema types of
  \<^verbatim>\<open>crates/datasynth-audit-fsm/src/schema.rs\<close>, the raw on-disk types and their conversion in
  \<^verbatim>\<open>loader.rs\<close>, its structural validation, and the errors of \<^verbatim>\<open>error.rs\<close>. The fields of a
  struct carry a prefix for the struct. Opaque JSON values have the type parameter \<open>'j\<close>,
  floating-point numbers \<open>'f\<close>. Parsing the YAML text (\<^verbatim>\<open>serde_yaml\<close>) is not modelled: the
  model starts at the raw blueprint it returns. A \<^verbatim>\<open>HashMap\<close> is an association list whose
  order stands for the iteration order; \<^verbatim>\<open>to_lowercase\<close> is modelled on ASCII text.
\<close>

section \<open>Errors\<close>

record ValidationViolation =
  location :: string
  message :: string

text \<open>The parse and file errors carry the foreign error as text.\<close>

datatype AuditFsmError =
    BlueprintParse string string
  | BlueprintValidation "ValidationViolation list"
  | OverlayParse string string
  | GuardFailure string string string
  | PreconditionNotMet string string string
  | SourceNotFound string
  | DagCycle "string list"

section \<open>Schema\<close>

datatype DepthLevel = Simplified | Standard | Full

datatype BindingLevel = Requirement | Guidance | Informational | Example

record BlueprintMethodology =
  meth_framework :: string
  meth_default_depth :: DepthLevel
  meth_description :: "string option"

record BlueprintActor =
  act_id :: string
  act_label :: string
  act_description :: "string option"

record 'j BlueprintStandard =
  std_id :: string
  std_title :: string
  std_binding :: BindingLevel
  std_isa_group :: "string option"
  std_requirement_count :: "u32 option"
  std_application_count :: "u32 option"
  std_paragraphs :: "'j list"
  std_dependencies :: "'j list"

record BlueprintEvidence =
  ev_id :: string
  ev_evidence_type :: string
  ev_description :: "string option"
  ev_required :: bool
  ev_source_forms :: "string list"
  ev_signoff_required :: "string list"
  ev_required_fields :: "string list"
  ev_is_noise :: "bool option"
  ev_source_type :: "string option"
  ev_responsible_actor :: "string option"
  ev_expected_content :: "string option"

record GateCondition =
  cond_predicate :: string
  cond_rationale :: "string option"

record PhaseGate =
  gate_all_of :: "GateCondition list"
  gate_any_of :: "GateCondition list"

record ProcedureTransition =
  tn_from_state :: string
  tn_to_state :: string
  tn_command :: "string option"
  tn_emits :: "string option"
  tn_guards :: "string list"

record ProcedureAggregate =
  agg_initial_state :: string
  agg_states :: "string list"
  agg_transitions :: "ProcedureTransition list"

record StepGuard =
  sg_guard_type :: string
  sg_expression :: string
  sg_failure_message :: "string option"

record EvidenceRef =
  er_ref_id :: string

record StepEvidence =
  se_template_ref :: "EvidenceRef option"
  se_evidence_type :: "string option"
  se_required :: bool
  se_direction :: string

record StepStandard =
  ss_ref_id :: string
  ss_paragraph :: "string option"

record DecisionBranch =
  db_label :: string
  db_target :: string
  db_condition :: "string option"

record StepDecision =
  sd_question :: string
  sd_branches :: "DecisionBranch list"

record 'j BlueprintStep =
  st_id :: string
  st_name :: string
  st_description :: "string option"
  st_actor :: "string option"
  st_command :: "string option"
  st_emits :: "string option"
  st_binding :: BindingLevel
  st_guards :: "StepGuard list"
  st_evidence :: "StepEvidence list"
  st_standards :: "StepStandard list"
  st_decision :: "StepDecision option"
  st_judgment_level :: "string option"
  st_ai_capabilities :: "string list"
  st_human_responsibilities :: "string list"
  st_isa_mandate :: "string option"
  st_form_refs :: "'j list"
  st_deliverable_fields :: "string list"
  st_standard_field_trace :: "string list"

record ('f, 'j) BlueprintProcedure =
  pr_id :: string
  pr_name :: string
  pr_description :: "string option"
  pr_discriminators :: "(string \<times> string list) list"
  pr_aggregate :: ProcedureAggregate
  pr_steps :: "'j BlueprintStep list"
  pr_base_hours :: "'f option"
  pr_required_roles :: "string list"

record ('f, 'j) BlueprintPhase =
  ph_id :: string
  ph_name :: string
  ph_order :: "i32 option"
  ph_description :: "string option"
  ph_entry_gate :: "PhaseGate option"
  ph_exit_gate :: "PhaseGate option"
  ph_procedures :: "('f, 'j) BlueprintProcedure list"

record ('f, 'j) AuditBlueprint =
  bp_id :: string
  bp_name :: string
  bp_version :: string
  bp_methodology :: BlueprintMethodology
  bp_discriminators :: "(string \<times> string list) list"
  bp_actors :: "BlueprintActor list"
  bp_standards :: "'j BlueprintStandard list"
  bp_evidence_templates :: "BlueprintEvidence list"
  bp_phases :: "('f, 'j) BlueprintPhase list"
  bp_forms_catalog :: "'j list"
  bp_standard_dependencies :: "'j list"
  bp_coverage :: "'j option"
  bp_form_enrichment :: "'j option"

section \<open>Raw types\<close>

text \<open>The parsed YAML of a discriminators entry.\<close>

datatype YamlValue =
    YamlString string
  | YamlSequence "YamlValue list"
  | YamlMapping "(YamlValue \<times> YamlValue) list"
  | YamlOther

record RawMethodology =
  rmeth_name :: string
  rmeth_version :: string
  rmeth_framework :: string
  rmeth_description :: "string option"

record RawActor =
  ract_id :: string
  ract_name :: string
  ract_responsibilities :: "string list"

record 'j RawStandard =
  rstd_ref_id :: string
  rstd_title :: string
  rstd_binding :: string
  rstd_isa_group :: "string option"
  rstd_requirement_count :: "u32 option"
  rstd_application_count :: "u32 option"
  rstd_paragraphs :: "'j list"
  rstd_dependencies :: "'j list"

record RawEvidence =
  rev_id :: string
  rev_name :: string
  rev_evidence_type :: string
  rev_lifecycle :: "string list"
  rev_source_forms :: "string list"
  rev_signoff_required :: "string list"
  rev_required_fields :: "string list"
  rev_is_noise :: "bool option"
  rev_source_type :: "string option"
  rev_responsible_actor :: "string option"
  rev_expected_content :: "string option"

record RawGateCondition =
  rcond_procedure :: string
  rcond_state :: string

record RawGate =
  rgate_all_of :: "RawGateCondition list"
  rgate_any_of :: "RawGateCondition list"

record RawPhase =
  rph_id :: string
  rph_name :: string
  rph_order :: "i32 option"
  rph_description :: "string option"
  rph_gate :: "RawGate option"

record RawTransition =
  rtn_from_state :: string
  rtn_to_state :: string
  rtn_command :: "string option"
  rtn_emits :: "string option"
  rtn_guards :: "string list"

record RawAggregate =
  ragg_initial_state :: string
  ragg_states :: "string list"
  ragg_transitions :: "RawTransition list"

record RawStepGuard =
  rsg_guard_type :: string
  rsg_fields :: "string list"

record RawEvidenceRef =
  rer_ref_id :: string
  rer_evidence_type :: "string option"

record RawStepEvidence =
  rse_inputs :: "RawEvidenceRef list"
  rse_outputs :: "RawEvidenceRef list"

record RawStepStandard =
  rss_ref_id :: string
  rss_paragraphs :: "string list"
  rss_binding :: string

record RawBranch =
  rb_label :: string
  rb_description :: "string option"
  rb_next_step :: "string option"

record RawDecision =
  rd_condition :: string
  rd_branches :: "RawBranch list"

record 'j RawStep =
  rst_id :: string
  rst_order :: "u32 option"
  rst_action :: "string option"
  rst_actor :: "string option"
  rst_description :: "string option"
  rst_binding :: string
  rst_command :: "string option"
  rst_emits :: "string option"
  rst_guards :: "RawStepGuard list"
  rst_evidence :: "RawStepEvidence option"
  rst_standards :: "RawStepStandard list"
  rst_decisions :: "RawDecision list"
  rst_judgment_level :: "string option"
  rst_ai_capabilities :: "string list"
  rst_human_responsibilities :: "string list"
  rst_isa_mandate :: "string option"
  rst_form_refs :: "'j list"
  rst_deliverable_fields :: "string list"
  rst_standard_field_trace :: "string list"

record ('f, 'j) RawProcedure =
  rpr_id :: string
  rpr_phase :: string
  rpr_title :: string
  rpr_discriminators :: "YamlValue option"
  rpr_aggregate :: "RawAggregate option"
  rpr_steps :: "'j RawStep list"
  rpr_preconditions :: "string list"
  rpr_knowledge_refs :: "string list"
  rpr_base_hours :: "'f option"
  rpr_required_roles :: "string list"

record ('f, 'j) RawBlueprint =
  rbp_schema_version :: string
  rbp_depth :: "string option"
  rbp_methodology :: RawMethodology
  rbp_discriminators :: "YamlValue option"
  rbp_actors :: "RawActor list"
  rbp_standards_catalog :: "'j RawStandard list"
  rbp_evidence_catalog :: "RawEvidence list"
  rbp_phases :: "RawPhase list"
  rbp_procedures :: "('f, 'j) RawProcedure list"
  rbp_forms_catalog :: "'j list"
  rbp_standard_dependencies :: "'j list"
  rbp_coverage :: "'j option"
  rbp_form_enrichment :: "'j option"
  rbp_projections :: "'j option"
  rbp_reports :: "'j option"

section \<open>Conversion\<close>

definition to_lowercase :: "string \<Rightarrow> string" where
  "to_lowercase s = map ascii_lower s"

definition convert_binding :: "string \<Rightarrow> BindingLevel" where
  "convert_binding s =
     (let l = to_lowercase s
      in if l = ''guidance'' then Guidance
         else if l = ''informational'' then Informational
         else if l = ''example'' then Example
         else Requirement)"

fun yaml_strings :: "YamlValue list \<Rightarrow> string list" where
  "yaml_strings [] = []"
| "yaml_strings (YamlString s # vs) = s # yaml_strings vs"
| "yaml_strings (_ # vs) = yaml_strings vs"

fun discriminator_entries ::
    "(YamlValue \<times> YamlValue) list \<Rightarrow> (string \<times> string list) list \<Rightarrow> (string \<times> string list) list" where
  "discriminator_entries [] m = m"
| "discriminator_entries ((YamlString key, YamlSequence vs) # kvs) m =
     discriminator_entries kvs (AList.update key (yaml_strings vs) m)"
| "discriminator_entries (_ # kvs) m = discriminator_entries kvs m"

fun convert_discriminators_value :: "YamlValue option \<Rightarrow> (string \<times> string list) list" where
  "convert_discriminators_value (Some (YamlMapping kvs)) = discriminator_entries kvs []"
| "convert_discriminators_value _ = []"

definition convert_evidence_ref :: "bool \<Rightarrow> string \<Rightarrow> RawEvidenceRef \<Rightarrow> StepEvidence" where
  "convert_evidence_ref required direction r =
     \<lparr>se_template_ref = Some \<lparr>er_ref_id = rer_ref_id r\<rparr>, se_evidence_type = rer_evidence_type r,
      se_required = required, se_direction = direction\<rparr>"

definition convert_decision :: "RawDecision \<Rightarrow> StepDecision" where
  "convert_decision d =
     \<lparr>sd_question = rd_condition d,
      sd_branches = map (\<lambda>b. \<lparr>db_label = rb_label b,
          db_target = (case rb_next_step b of None \<Rightarrow> [] | Some t \<Rightarrow> t),
          db_condition = rb_description b\<rparr>) (rd_branches d)\<rparr>"

definition convert_raw_step :: "'j RawStep \<Rightarrow> 'j BlueprintStep" where
  "convert_raw_step s =
     \<lparr>st_id = rst_id s,
      st_name = (case rst_action s of None \<Rightarrow> [] | Some a \<Rightarrow> a),
      st_description = rst_description s, st_actor = rst_actor s, st_command = rst_command s,
      st_emits = rst_emits s, st_binding = convert_binding (rst_binding s),
      st_guards = map (\<lambda>g. \<lparr>sg_guard_type = rsg_guard_type g,
          sg_expression = join '', '' (rsg_fields g), sg_failure_message = None\<rparr>) (rst_guards s),
      st_evidence = (case rst_evidence s of None \<Rightarrow> []
        | Some ev \<Rightarrow> map (convert_evidence_ref False ''consumes'') (rse_inputs ev) @
                    map (convert_evidence_ref True ''produces'') (rse_outputs ev)),
      st_standards = map (\<lambda>r. \<lparr>ss_ref_id = rss_ref_id r,
          ss_paragraph = (if rss_paragraphs r = [] then None else Some (join '', '' (rss_paragraphs r)))\<rparr>)
        (rst_standards s),
      st_decision = (case rst_decisions s of [] \<Rightarrow> None | d # _ \<Rightarrow> Some (convert_decision d)),
      st_judgment_level = rst_judgment_level s, st_ai_capabilities = rst_ai_capabilities s,
      st_human_responsibilities = rst_human_responsibilities s,
      st_isa_mandate = rst_isa_mandate s, st_form_refs = rst_form_refs s,
      st_deliverable_fields = rst_deliverable_fields s,
      st_standard_field_trace = rst_standard_field_trace s\<rparr>"

text \<open>A missing aggregate is the default one, without states.\<close>

definition convert_aggregate :: "RawAggregate option \<Rightarrow> ProcedureAggregate" where
  "convert_aggregate a =
     (case a of
        None \<Rightarrow> \<lparr>agg_initial_state = [], agg_states = [], agg_transitions = []\<rparr>
      | Some g \<Rightarrow>
          \<lparr>agg_initial_state = ragg_initial_state g, agg_states = ragg_states g,
           agg_transitions = map (\<lambda>t. \<lparr>tn_from_state = rtn_from_state t, tn_to_state = rtn_to_state t,
               tn_command = rtn_command t, tn_emits = rtn_emits t, tn_guards = rtn_guards t\<rparr>)
             (ragg_transitions g)\<rparr>)"

definition convert_raw_procedure :: "('f, 'j) RawProcedure \<Rightarrow> ('f, 'j) BlueprintProcedure" where
  "convert_raw_procedure p =
     \<lparr>pr_id = rpr_id p, pr_name = rpr_title p, pr_description = None,
      pr_discriminators = convert_discriminators_value (rpr_discriminators p),
      pr_aggregate = convert_aggregate (rpr_aggregate p),
      pr_steps = map convert_raw_step (rpr_steps p), pr_base_hours = rpr_base_hours p,
      pr_required_roles = rpr_required_roles p\<rparr>"

definition convert_gate_condition :: "RawGateCondition \<Rightarrow> GateCondition" where
  "convert_gate_condition c =
     \<lparr>cond_predicate = ''procedure.'' @ rcond_procedure c @ ''.'' @ rcond_state c, cond_rationale = None\<rparr>"

definition convert_gate :: "RawGate \<Rightarrow> PhaseGate" where
  "convert_gate g =
     \<lparr>gate_all_of = map convert_gate_condition (rgate_all_of g),
      gate_any_of = map convert_gate_condition (rgate_any_of g)\<rparr>"

text \<open>Procedures are grouped by phase, then each phase takes its group out of the map.\<close>

definition group_by_phase ::
    "('f, 'j) RawProcedure list \<Rightarrow> (string \<times> ('f, 'j) RawProcedure list) list" where
  "group_by_phase procs =
     fold (\<lambda>p m. AList.update (rpr_phase p) (get_or_empty m (rpr_phase p) @ [p]) m) procs []"

fun build_phases ::
    "RawPhase list \<Rightarrow> (string \<times> ('f, 'j) RawProcedure list) list \<Rightarrow> ('f, 'j) BlueprintPhase list" where
  "build_phases [] m = []"
| "build_phases (p # ps) m =
     \<lparr>ph_id = rph_id p, ph_name = rph_name p, ph_order = rph_order p,
      ph_description = rph_description p, ph_entry_gate = None,
      ph_exit_gate = map_option convert_gate (rph_gate p),
      ph_procedures = map convert_raw_procedure (get_or_empty m (rph_id p))\<rparr>
     # build_phases ps (AList.delete (rph_id p) m)"

definition convert_raw_to_blueprint :: "('f, 'j) RawBlueprint \<Rightarrow> ('f, 'j) AuditBlueprint" where
  "convert_raw_to_blueprint raw =
     \<lparr>bp_id = to_lowercase (rmeth_framework (rbp_methodology raw)) @ ''-'' @ rbp_schema_version raw,
      bp_name = rmeth_name (rbp_methodology raw),
      bp_version = rbp_schema_version raw,
      bp_methodology =
        \<lparr>meth_framework = rmeth_framework (rbp_methodology raw),
         meth_default_depth =
           (if rbp_depth raw = Some ''simplified'' then Simplified
            else if rbp_depth raw = Some ''full'' then Full else Standard),
         meth_description = rmeth_description (rbp_methodology raw)\<rparr>,
      bp_discriminators = convert_discriminators_value (rbp_discriminators raw),
      bp_actors = map (\<lambda>a. \<lparr>act_id = ract_id a, act_label = ract_name a,
          act_description = (if ract_responsibilities a = [] then None
                             else Some (join ''; '' (ract_responsibilities a)))\<rparr>) (rbp_actors raw),
      bp_standards = map (\<lambda>s. \<lparr>std_id = rstd_ref_id s, std_title = rstd_title s,
          std_binding = convert_binding (rstd_binding s), std_isa_group = rstd_isa_group s,
          std_requirement_count = rstd_requirement_count s,
          std_application_count = rstd_application_count s,
          std_paragraphs = rstd_paragraphs s, std_dependencies = rstd_dependencies s\<rparr>)
        (rbp_standards_catalog raw),
      bp_evidence_templates = map (\<lambda>e. \<lparr>ev_id = rev_id e, ev_evidence_type = rev_evidence_type e,
          ev_description = Some (rev_name e), ev_required = False, ev_source_forms = rev_source_forms e,
          ev_signoff_required = rev_signoff_required e, ev_required_fields = rev_required_fields e,
          ev_is_noise = rev_is_noise e, ev_source_type = rev_source_type e,
          ev_responsible_actor = rev_responsible_actor e, ev_expected_content = rev_expected_content e\<rparr>)
        (rbp_evidence_catalog raw),
      bp_phases = build_phases (rbp_phases raw) (group_by_phase (rbp_procedures raw)),
      bp_forms_catalog = rbp_forms_catalog raw,
      bp_standard_dependencies = rbp_standard_dependencies raw,
      bp_coverage = rbp_coverage raw, bp_form_enrichment = rbp_form_enrichment raw\<rparr>"

section \<open>Structural validation\<close>

definition procedures :: "('f, 'j) AuditBlueprint \<Rightarrow> ('f, 'j) BlueprintProcedure list" where
  "procedures bp = concat (map ph_procedures (bp_phases bp))"

definition procedure_ids :: "('f, 'j) AuditBlueprint \<Rightarrow> string list" where
  "procedure_ids bp = map pr_id (procedures bp)"

text \<open>\<^verbatim>\<open>splitn(3, '.')\<close>: the parts before the first two dots and the rest.\<close>

definition split_once :: "string \<Rightarrow> string \<times> string option" where
  "split_once s =
     (case dropWhile (\<lambda>c. c \<noteq> CHR ''.'') s of
        [] \<Rightarrow> (s, None)
      | _ # rest \<Rightarrow> (takeWhile (\<lambda>c. c \<noteq> CHR ''.'') s, Some rest))"

fun splitn :: "nat \<Rightarrow> string \<Rightarrow> string list" where
  "splitn 0 s = []"
| "splitn (Suc 0) s = [s]"
| "splitn (Suc (Suc n)) s =
     (case split_once s of
        (a, None) \<Rightarrow> [a]
      | (a, Some rest) \<Rightarrow> a # splitn (Suc n) rest)"

definition extract_procedure_id_from_predicate :: "string \<Rightarrow> string option" where
  "extract_procedure_id_from_predicate predicate =
     (case splitn 3 predicate of
        a # b # _ \<Rightarrow> if a = ''procedure'' then Some b else None
      | _ \<Rightarrow> None)"

text \<open>A name in single quotes, as in the messages.\<close>

definition quoted :: "string \<Rightarrow> string" where
  "quoted s = [CHR 0x27] @ s @ [CHR 0x27]"

definition step_location :: "('f, 'j) BlueprintProcedure \<Rightarrow> 'j BlueprintStep \<Rightarrow> string" where
  "step_location p s = ''procedure.'' @ pr_id p @ ''.step.'' @ st_id s"

definition precondition_violations ::
    "('f, 'j) AuditBlueprint \<Rightarrow> (string \<times> string list) list \<Rightarrow> ValidationViolation list" where
  "precondition_violations bp preconds =
     concat (map (\<lambda>(proc_id, deps).
       map (\<lambda>dep. \<lparr>location = ''procedure.'' @ proc_id,
                    message = ''precondition '' @ quoted dep @ '' not found in procedures''\<rparr>)
         (filter (\<lambda>dep. dep \<notin> set (procedure_ids bp)) deps)) preconds)"

definition actor_violations :: "('f, 'j) AuditBlueprint \<Rightarrow> ValidationViolation list" where
  "actor_violations bp =
     concat (map (\<lambda>p. concat (map (\<lambda>s.
       (case st_actor s of
          None \<Rightarrow> []
        | Some actor \<Rightarrow>
            if actor \<in> set (map act_id (bp_actors bp)) then []
            else [\<lparr>location = step_location p s,
                   message = ''actor '' @ quoted actor @ '' not found in actors list''\<rparr>])) (pr_steps p)))
       (procedures bp))"

definition evidence_violations :: "('f, 'j) AuditBlueprint \<Rightarrow> ValidationViolation list" where
  "evidence_violations bp =
     concat (map (\<lambda>p. concat (map (\<lambda>s. concat (map (\<lambda>ev.
       (case se_template_ref ev of
          None \<Rightarrow> []
        | Some r \<Rightarrow>
            if er_ref_id r \<in> set (map ev_id (bp_evidence_templates bp)) then []
            else [\<lparr>location = step_location p s,
                   message = ''evidence ref '' @ quoted (er_ref_id r) @ '' not found in evidence_catalog''\<rparr>]))
       (st_evidence s))) (pr_steps p))) (procedures bp))"

definition standard_violations :: "('f, 'j) AuditBlueprint \<Rightarrow> ValidationViolation list" where
  "standard_violations bp =
     concat (map (\<lambda>p. concat (map (\<lambda>s.
       map (\<lambda>r. \<lparr>location = step_location p s,
                  message = ''standards ref '' @ quoted (ss_ref_id r) @ '' not found in standards_catalog''\<rparr>)
         (filter (\<lambda>r. ss_ref_id r \<notin> set (map std_id (bp_standards bp))) (st_standards s))) (pr_steps p)))
       (procedures bp))"

definition gate_conditions :: "('f, 'j) BlueprintPhase \<Rightarrow> GateCondition list" where
  "gate_conditions ph =
     concat (map (\<lambda>g. case g of None \<Rightarrow> [] | Some g \<Rightarrow> gate_all_of g @ gate_any_of g)
       [ph_entry_gate ph, ph_exit_gate ph])"

definition gate_violations :: "('f, 'j) AuditBlueprint \<Rightarrow> ValidationViolation list" where
  "gate_violations bp =
     concat (map (\<lambda>ph. concat (map (\<lambda>c.
       (case extract_procedure_id_from_predicate (cond_predicate c) of
          None \<Rightarrow> []
        | Some proc_id \<Rightarrow>
            if proc_id \<in> set (procedure_ids bp) then []
            else [\<lparr>location = ''phase.'' @ ph_id ph @ ''.gate'',
                   message = ''gate references procedure '' @ quoted proc_id @ '' not found in procedures''\<rparr>]))
       (gate_conditions ph))) (bp_phases bp))"

definition collect_structural_violations ::
    "('f, 'j) AuditBlueprint \<Rightarrow> (string \<times> string list) list option \<Rightarrow> ValidationViolation list" where
  "collect_structural_violations bp preconditions =
     (case preconditions of None \<Rightarrow> [] | Some pre \<Rightarrow> precondition_violations bp pre) @
     actor_violations bp @ evidence_violations bp @ standard_violations bp @ gate_violations bp"

section \<open>Lemmas\<close>

lemma get_or_empty_group:
  "get_or_empty (group_by_phase procs) ph = filter (\<lambda>p. rpr_phase p = ph) procs"
proof -
  have "get_or_empty (fold (\<lambda>p m. AList.update (rpr_phase p) (get_or_empty m (rpr_phase p) @ [p]) m) procs m) ph
      = get_or_empty m ph @ filter (\<lambda>p. rpr_phase p = ph) procs" for m
    by (induction procs arbitrary: m) (auto simp: get_or_empty_update)
  then show ?thesis by (simp add: group_by_phase_def)
qed

lemma get_or_empty_delete:
  "get_or_empty (AList.delete k m) k' = (if k' = k then [] else get_or_empty m k')"
  by (simp add: get_or_empty_def delete_conv')

lemma build_phases_procedures:
  "distinct (map rph_id phs) \<Longrightarrow>
   map ph_procedures (build_phases phs m) = map (\<lambda>p. map convert_raw_procedure (get_or_empty m (rph_id p))) phs"
proof (induction phs arbitrary: m)
  case (Cons p ps)
  have "rph_id q \<noteq> rph_id p" if "q \<in> set ps" for q using Cons.prems that by (auto simp: image_iff)
  then show ?case using Cons by (auto simp: get_or_empty_delete)
qed simp

lemma pr_id_convert [simp]: "pr_id (convert_raw_procedure p) = rpr_id p"
  by (simp add: convert_raw_procedure_def)

lemma split_once_append:
  "CHR ''.'' \<notin> set a \<Longrightarrow> split_once (a @ CHR ''.'' # rest) = (a, Some rest)"
  by (simp add: split_once_def dropWhile_append takeWhile_append dropWhile_eq_self_iff) 

lemma splitn_predicate:
  assumes "CHR ''.'' \<notin> set p"
  shows "splitn 3 (''procedure.'' @ p @ ''.'' @ s) = [''procedure'', p, s]"
proof -
  have "split_once (''procedure'' @ CHR ''.'' # (p @ ''.'' @ s)) = (''procedure'', Some (p @ ''.'' @ s))"
    by (rule split_once_append) simp
  moreover have "split_once (p @ CHR ''.'' # s) = (p, Some s)" by (rule split_once_append[OF assms])
  ultimately show ?thesis by (simp add: numeral_3_eq_3)
qed

lemma option_check_empty:
  "(case ov of None \<Rightarrow> [] | Some r \<Rightarrow> if f r \<in> A then [] else [g r]) = [] \<longleftrightarrow> f ` set_option ov \<subseteq> A"
  by (cases ov) auto

lemma option_check_id_empty:
  "(case ov of None \<Rightarrow> [] | Some r \<Rightarrow> if r \<in> A then [] else [g r]) = [] \<longleftrightarrow> set_option ov \<subseteq> A"
  by (cases ov) auto

text \<open>All references of a blueprint and of the preconditions resolve.\<close>

definition refs_resolve :: "('f, 'j) AuditBlueprint \<Rightarrow> (string \<times> string list) list \<Rightarrow> bool" where
  "refs_resolve bp pre \<longleftrightarrow>
     (\<forall>(q, deps) \<in> set pre. set deps \<subseteq> set (procedure_ids bp)) \<and>
     (\<forall>p \<in> set (procedures bp). \<forall>s \<in> set (pr_steps p).
        set_option (st_actor s) \<subseteq> act_id ` set (bp_actors bp) \<and>
        (\<forall>ev \<in> set (st_evidence s).
           er_ref_id ` set_option (se_template_ref ev) \<subseteq> ev_id ` set (bp_evidence_templates bp)) \<and>
        ss_ref_id ` set (st_standards s) \<subseteq> std_id ` set (bp_standards bp)) \<and>
     (\<forall>ph \<in> set (bp_phases bp). \<forall>c \<in> set (gate_conditions ph).
        set_option (extract_procedure_id_from_predicate (cond_predicate c)) \<subseteq> set (procedure_ids bp))"

text \<open>A small document with two phases, the second of them before the first in the list of
  procedures.\<close>

definition sample_raw_procedure :: "string \<Rightarrow> string \<Rightarrow> (unit, unit) RawProcedure" where
  "sample_raw_procedure i ph =
     \<lparr>rpr_id = i, rpr_phase = ph, rpr_title = i, rpr_discriminators = None, rpr_aggregate = None,
      rpr_steps = [], rpr_preconditions = [], rpr_knowledge_refs = [], rpr_base_hours = None,
      rpr_required_roles = []\<rparr>"

definition sample_raw_phase :: "string \<Rightarrow> RawPhase" where
  "sample_raw_phase i = \<lparr>rph_id = i, rph_name = i, rph_order = None, rph_description = None, rph_gate = None\<rparr>"

definition sample_raw :: "(unit, unit) RawBlueprint" where
  "sample_raw =
     \<lparr>rbp_schema_version = ''1.0'', rbp_depth = None,
      rbp_methodology = \<lparr>rmeth_name = ''M'', rmeth_version = ''1'', rmeth_framework = ''ISA'', rmeth_description = None\<rparr>,
      rbp_discriminators = None, rbp_actors = [], rbp_standards_catalog = [], rbp_evidence_catalog = [],
      rbp_phases = [sample_raw_phase ''plan'', sample_raw_phase ''test''],
      rbp_procedures = [sample_raw_procedure ''b'' ''test'', sample_raw_procedure ''a'' ''plan'',
                        sample_raw_procedure ''x'' ''other''],
      rbp_forms_catalog = [], rbp_standard_dependencies = [], rbp_coverage = None,
      rbp_form_enrichment = None, rbp_projections = None, rbp_reports = None\<rparr>"

section \<open>Properties\<close>

text \<open>Conversion keeps the procedures: with distinct phase ids the procedures of the
  blueprint are those of the raw document, phase by phase in the order of the phases and within
  a phase in the order of the document; a procedure whose phase the document does not list is
  left out, and a second phase with the same id would get none.\<close>

theorem conversion_groups_procedures:
  assumes "distinct (map rph_id (rbp_phases raw))"
  shows "procedure_ids (convert_raw_to_blueprint raw) =
    concat (map (\<lambda>ph. map rpr_id (filter (\<lambda>p. rpr_phase p = rph_id ph) (rbp_procedures raw))) (rbp_phases raw))"
  using build_phases_procedures[OF assms, of "group_by_phase (rbp_procedures raw)"]
  by (simp add: procedure_ids_def procedures_def convert_raw_to_blueprint_def get_or_empty_group
      map_concat comp_def)

theorem conversion_groups_procedures_witness:
  "procedure_ids (convert_raw_to_blueprint sample_raw) = [''a'', ''b'']"
  by (subst conversion_groups_procedures)
     (simp_all add: sample_raw_def sample_raw_phase_def sample_raw_procedure_def)


end
