(* ===== verification/Overlay.thy ===== *)
theory Overlay
  imports Blueprint Complex_Main
begin

text \<open>
  Model of the overlay part of \<^verbatim>\<open>crates/datasynth-audit-fsm/src/schema.rs\<close>: iteration limits,
  resource costs, transition and anomaly settings and their defaults. \<^verbatim>\<open>f64\<close> is an ordered
  field with a floor function: rounding and the special values are not modelled. Hash maps are
  association lists.
\<close>

section \<open>Settings\<close>

record IterationLimits =
  il_default :: nat
  il_per_procedure :: "(string \<times> nat) list"

definition default_iteration_limits :: IterationLimits where
  "default_iteration_limits = \<lparr>il_default = 30, il_per_procedure = []\<rparr>"

record 'f ResourceCosts =
  rc_cost_multiplier :: 'f
  rc_role_hourly_rates :: "(string \<times> 'f) list"
  rc_per_procedure_multipliers :: "(string \<times> 'f) list"

definition default_resource_costs :: "'f::floor_ceiling ResourceCosts" where
  "default_resource_costs =
     \<lparr>rc_cost_multiplier = 1, rc_role_hourly_rates = [], rc_per_procedure_multipliers = []\<rparr>"

definition unwrap_or :: "'a option \<Rightarrow> 'a \<Rightarrow> 'a" where
  "unwrap_or x d = (case x of None \<Rightarrow> d | Some y \<Rightarrow> y)"

lemma unwrap_or_simps [simp]: "unwrap_or None d = d" "unwrap_or (Some y) d = y"
  by (simp_all add: unwrap_or_def)

definition effective_hours :: "'f::floor_ceiling ResourceCosts \<Rightarrow> ('f, 'j) BlueprintProcedure \<Rightarrow> 'f" where
  "effective_hours rc p =
     unwrap_or (pr_base_hours p) 8 * rc_cost_multiplier rc *
     unwrap_or (map_of (rc_per_procedure_multipliers rc) (pr_id p)) 1"

definition procedure_cost :: "'f::floor_ceiling ResourceCosts \<Rightarrow> ('f, 'j) BlueprintProcedure \<Rightarrow> 'f" where
  "procedure_cost rc p =
     (let hours = effective_hours rc p;
          role = (case pr_required_roles p of [] \<Rightarrow> ''audit_staff'' | r # _ \<Rightarrow> r);
          rate = unwrap_or (map_of (rc_role_hourly_rates rc) role) 200
      in hours * rate)"

record 'f TimingDistribution =
  tim_mu_hours :: 'f
  tim_sigma_hours :: 'f

record 'f TransitionDefaults =
  td_revision_probability :: 'f
  td_timing :: "'f TimingDistribution"

record 'f TransitionOverride =
  to_revision_probability :: "'f option"
  to_timing :: "'f TimingDistribution option"

record 'f TransitionConfig =
  tc_defaults :: "'f TransitionDefaults"
  tc_overrides :: "(string \<times> 'f TransitionOverride) list"

definition default_transition_defaults :: "'f::floor_ceiling TransitionDefaults" where
  "default_transition_defaults =
     \<lparr>td_revision_probability = 15 / 100, td_timing = \<lparr>tim_mu_hours = 24, tim_sigma_hours = 8\<rparr>\<rparr>"

record VolumeRange =
  vr_min :: u32
  vr_max :: u32

text \<open>\<^verbatim>\<open>random_range\<close> on the inclusive range is the library's: an argument.\<close>

definition sample_volume :: "(u32 \<Rightarrow> u32 \<Rightarrow> 'r \<Rightarrow> u32 \<times> 'r) \<Rightarrow> VolumeRange \<Rightarrow> 'r \<Rightarrow> u32 \<times> 'r" where
  "sample_volume random_range v rng =
     (let effective_max = max (vr_max v) (vr_min v)
      in if effective_max = vr_min v then (vr_min v, rng)
         else random_range (vr_min v) effective_max rng)"

record ArtifactConfig =
  ac_workpapers_per_step :: VolumeRange
  ac_evidence_items_per_workpaper :: VolumeRange

definition default_artifact_config :: ArtifactConfig where
  "default_artifact_config =
     \<lparr>ac_workpapers_per_step = \<lparr>vr_min = 1, vr_max = 3\<rparr>,
      ac_evidence_items_per_workpaper = \<lparr>vr_min = 2, vr_max = 5\<rparr>\<rparr>"

record 'f AnomalyRule =
  ar_anomaly_type :: string
  ar_procedure_id :: "string option"
  ar_step_id :: "string option"
  ar_probability :: 'f

record 'f AnomalyConfig =
  an_skipped_approval :: 'f
  an_late_posting :: 'f
  an_max_delay_hours :: 'f
  an_missing_evidence :: 'f
  an_out_of_sequence :: 'f
  an_rules :: "'f AnomalyRule list"

definition default_anomaly_config :: "'f::floor_ceiling AnomalyConfig" where
  "default_anomaly_config =
     \<lparr>an_skipped_approval = 2 / 100, an_late_posting = 5 / 100, an_max_delay_hours = 72,
      an_missing_evidence = 3 / 100, an_out_of_sequence = 1 / 100, an_rules = []\<rparr>"

record 'f ActorProfile =
  ap_revision_multiplier :: 'f
  ap_evidence_multiplier :: 'f
  ap_skip_guidance_steps :: bool

record 'f GenerationOverlay =
  ov_blueprint_id :: "string option"
  ov_depth :: "DepthLevel option"
  ov_max_self_loop_iterations :: nat
  ov_transitions :: "'f TransitionConfig"
  ov_artifacts :: ArtifactConfig
  ov_anomalies :: "'f AnomalyConfig"
  ov_actor_profiles :: "(string \<times> 'f ActorProfile) list"
  ov_discriminators :: "(string \<times> string list) list option"
  ov_iteration_limits :: IterationLimits
  ov_resource_costs :: "'f ResourceCosts"

definition default_overlay :: "'f::floor_ceiling GenerationOverlay" where
  "default_overlay =
     \<lparr>ov_blueprint_id = None, ov_depth = None, ov_max_self_loop_iterations = 5,
      ov_transitions = \<lparr>tc_defaults = default_transition_defaults, tc_overrides = []\<rparr>,
      ov_artifacts = default_artifact_config, ov_anomalies = default_anomaly_config,
      ov_actor_profiles = [], ov_discriminators = None,
      ov_iteration_limits = default_iteration_limits, ov_resource_costs = default_resource_costs\<rparr>"

section \<open>Lemmas\<close>

text \<open>A sampled volume lies in the range, which is widened to one value when its bounds are
  in the wrong order.\<close>

lemma sample_volume_in_range:
  assumes "\<And>a b rng. a < b \<Longrightarrow> a \<le> fst (random_range a b rng) \<and> fst (random_range a b rng) \<le> b"
  shows "vr_min v \<le> fst (sample_volume random_range v rng) \<and>
    fst (sample_volume random_range v rng) \<le> max (vr_max v) (vr_min v)"
  using assms[of "vr_min v" "max (vr_max v) (vr_min v)" rng]
  by (auto simp: sample_volume_def Let_def max_def)

text \<open>The cost of a procedure is proportional to the overlay's multiplier.\<close>

lemma procedure_cost_scales:
  "procedure_cost (rc\<lparr>rc_cost_multiplier := k * rc_cost_multiplier rc\<rparr>) p = k * procedure_cost rc p"
  by (simp add: procedure_cost_def effective_hours_def Let_def mult_ac)

end
