(* ===== verification/Topo.thy ===== *)
theory Topo
  imports Blueprint
begin

text \<open>
  Model of the execution order of \<^verbatim>\<open>crates/datasynth-audit-fsm/src/loader.rs\<close>: the two
  topological sorts of the procedures by their preconditions (Kahn's algorithm), the extraction
  of the preconditions and the two validation functions. In-degrees are integers, so that a
  decrement below zero would show as a negative number; the proofs show that none happens. The
  YAML texts that \<^verbatim>\<open>extract_preconditions_from_builtin\<close> parses again are built into the
  binary from data files: the parsed documents are the argument \<open>parsed\<close>.
\<close>

section \<open>Preconditions\<close>

datatype BuiltinBlueprint = Fsa | Ia | Kpmg | Pwc | Deloitte | EyGamLite | Soc2 | Pcaob | Regulatory

definition builtin_for :: "('f, 'j) AuditBlueprint \<Rightarrow> BuiltinBlueprint" where
  "builtin_for bp =
     (let framework = meth_framework (bp_methodology bp); nm = bp_name bp
      in if framework = ''IIA-GIAS'' then Ia
         else if framework = ''AICPA-TSC'' then Soc2
         else if framework = ''PCAOB'' then Pcaob
         else if framework = ''REGULATORY'' then Regulatory
         else if framework = ''ISA'' \<and> contains nm ''KPMG'' then Kpmg
         else if framework = ''ISA'' \<and> contains nm ''PwC'' then Pwc
         else if framework = ''ISA'' \<and> contains nm ''Deloitte'' then Deloitte
         else if framework = ''ISA'' \<and> contains nm ''EY'' then EyGamLite
         else Fsa)"

text \<open>Every procedure of the document with its preconditions, and an empty list for the
  blueprint's other procedures.\<close>

definition extract_preconditions ::
    "('f, 'j) RawBlueprint \<Rightarrow> ('f, 'j) AuditBlueprint \<Rightarrow> (string \<times> string list) list" where
  "extract_preconditions raw bp =
     fold (\<lambda>i m. if map_of m i = None then AList.update i [] m else m) (procedure_ids bp)
       (fold (\<lambda>p m. AList.update (rpr_id p) (rpr_preconditions p) m) (rbp_procedures raw) [])"

definition extract_preconditions_from_builtin ::
    "(BuiltinBlueprint \<Rightarrow> (AuditFsmError, ('f, 'j) RawBlueprint) result) \<Rightarrow> ('f, 'j) AuditBlueprint
     \<Rightarrow> (AuditFsmError, (string \<times> string list) list) result" where
  "extract_preconditions_from_builtin parsed bp =
     try_bind (parsed (builtin_for bp)) (\<lambda>raw. Inr (extract_preconditions raw bp))"

section \<open>Kahn's algorithm\<close>

text \<open>The first precondition, in iteration order, that is not a procedure.\<close>

definition missing_precondition :: "string list \<Rightarrow> (string \<times> string list) list \<Rightarrow> (string \<times> string) option" where
  "missing_precondition ids preconds =
     find (\<lambda>(_, dep). dep \<notin> set ids) (concat (map (\<lambda>(proc_id, deps). map (Pair proc_id) deps) preconds))"

definition missing_error :: "string \<times> string \<Rightarrow> AuditFsmError" where
  "missing_error pd = (case pd of (proc_id, dep) \<Rightarrow>
     BlueprintValidation [\<lparr>location = ''procedure.'' @ proc_id,
        message = ''precondition '' @ quoted dep @ '' not found in procedures''\<rparr>])"

type_synonym graph = "(string \<times> int) list \<times> (string \<times> string list) list"

definition init_degrees :: "string list \<Rightarrow> (string \<times> int) list" where
  "init_degrees ids = fold (\<lambda>i m. AList.update i 0 m) ids []"

definition add_edge :: "string \<Rightarrow> string \<Rightarrow> graph \<Rightarrow> graph" where
  "add_edge proc_id dep g =
     (case g of (in_degree, dependents) \<Rightarrow>
        (AList.update proc_id ((case map_of in_degree proc_id of None \<Rightarrow> 0 | Some k \<Rightarrow> k) + 1) in_degree,
         AList.update dep (get_or_empty dependents dep @ [proc_id]) dependents))"

definition add_preconditions :: "string list \<Rightarrow> string \<Rightarrow> string list \<Rightarrow> graph \<Rightarrow> graph" where
  "add_preconditions ids proc_id deps g =
     fold (\<lambda>dep g. if dep \<in> set ids then add_edge proc_id dep g else g) deps g"

text \<open>\<^verbatim>\<open>topological_sort_procedures\<close> takes every entry of the preconditions,
  \<^verbatim>\<open>topological_sort_with_preconditions\<close> only those of the blueprint's procedures.\<close>

definition build_graph :: "string list \<Rightarrow> (string \<times> string list) list \<Rightarrow> graph" where
  "build_graph ids preconds =
     fold (\<lambda>(proc_id, deps). add_preconditions ids proc_id deps) preconds (init_degrees ids, [])"

definition build_graph_known :: "string list \<Rightarrow> (string \<times> string list) list \<Rightarrow> graph" where
  "build_graph_known ids preconds =
     fold (\<lambda>(proc_id, deps) g. if proc_id \<notin> set ids then g else add_preconditions ids proc_id deps g)
       preconds (init_degrees ids, [])"

text \<open>The loop over the dependents of a node: decrement, and collect those that reach zero.\<close>

fun relax :: "string list \<Rightarrow> (string \<times> int) list \<Rightarrow> string list \<times> (string \<times> int) list" where
  "relax [] m = ([], m)"
| "relax (d # ds) m =
     (case map_of m d of
        None \<Rightarrow> relax ds m
      | Some k \<Rightarrow>
          (case relax ds (AList.update d (k - 1) m) of
             (next_nodes, m') \<Rightarrow> (if k - 1 = 0 then d # next_nodes else next_nodes, m')))"

definition degree_sum :: "(string \<times> int) list \<Rightarrow> nat" where
  "degree_sum m = sum_list (map (nat \<circ> snd) m)"

lemma degree_sum_update:
  "map_of m d = Some k \<Longrightarrow> degree_sum (AList.update d (k - 1) m) + (if k - 1 = 0 then 1 else 0) \<le> degree_sum m"
  by (induction m) (auto simp: degree_sum_def split: if_splits)

lemma relax_measure: "relax ds m = (nxt, m') \<Longrightarrow> length nxt + degree_sum m' \<le> degree_sum m"
proof (induction ds m arbitrary: nxt m' rule: relax.induct)
  case (2 d ds m)
  then show ?case
    by (fastforce split: option.splits prod.splits if_splits dest!: degree_sum_update)
qed simp

function kahn ::
    "(string \<times> string list) list \<Rightarrow> string list \<Rightarrow> (string \<times> int) list \<Rightarrow> string list \<Rightarrow> string list" where
  "kahn dependents [] in_degree acc = acc"
| "kahn dependents (node # queue) in_degree acc =
     (case map_of dependents node of
        None \<Rightarrow> kahn dependents queue in_degree (acc @ [node])
      | Some deps \<Rightarrow>
          (case relax deps in_degree of
             (next_nodes, in_degree') \<Rightarrow> kahn dependents (queue @ sort next_nodes) in_degree' (acc @ [node])))"
  by pat_completeness auto
termination
  by (relation "measure (\<lambda>(ds, q, m, acc). length q + degree_sum m)") (auto dest!: relax_measure[OF sym])

definition initial_queue :: "(string \<times> int) list \<Rightarrow> string list" where
  "initial_queue in_degree = sort (map fst (filter (\<lambda>(_, deg). deg = 0) in_degree))"

definition kahn_sort :: "string list \<Rightarrow> graph \<Rightarrow> (AuditFsmError, string list) result" where
  "kahn_sort ids g =
     (case g of (in_degree, dependents) \<Rightarrow>
       (let sorted_ids = kahn dependents (initial_queue in_degree) in_degree []
        in if length sorted_ids \<noteq> length ids
           then Inl (DagCycle (filter (\<lambda>i. i \<notin> set sorted_ids) ids))
           else Inr sorted_ids))"

definition topological_sort_with_preconditions ::
    "('f, 'j) AuditBlueprint \<Rightarrow> (string \<times> string list) list \<Rightarrow> (AuditFsmError, string list) result" where
  "topological_sort_with_preconditions bp preconds =
     (let ids = procedure_ids bp
      in case missing_precondition ids preconds of
           Some pd \<Rightarrow> Inl (missing_error pd)
         | None \<Rightarrow> kahn_sort ids (build_graph_known ids preconds))"

definition topological_sort_procedures ::
    "(BuiltinBlueprint \<Rightarrow> (AuditFsmError, ('f, 'j) RawBlueprint) result) \<Rightarrow> ('f, 'j) AuditBlueprint
     \<Rightarrow> (AuditFsmError, string list) result" where
  "topological_sort_procedures parsed bp =
     try_bind (extract_preconditions_from_builtin parsed bp) (\<lambda>preconds.
       let ids = procedure_ids bp
       in case missing_precondition ids preconds of
            Some pd \<Rightarrow> Inl (missing_error pd)
          | None \<Rightarrow> kahn_sort ids (build_graph ids preconds))"

section \<open>Validation\<close>

definition validate_blueprint ::
    "(BuiltinBlueprint \<Rightarrow> (AuditFsmError, ('f, 'j) RawBlueprint) result) \<Rightarrow> ('f, 'j) AuditBlueprint
     \<Rightarrow> (AuditFsmError, unit) result" where
  "validate_blueprint parsed bp =
     (let violations = collect_structural_violations bp None
      in try_bind (topological_sort_procedures parsed bp) (\<lambda>_.
           if violations = [] then Inr () else Inl (BlueprintValidation violations)))"

definition validate_blueprint_with_preconditions ::
    "('f, 'j) AuditBlueprint \<Rightarrow> (string \<times> string list) list \<Rightarrow> (AuditFsmError, unit) result" where
  "validate_blueprint_with_preconditions bp preconds =
     (let violations = collect_structural_violations bp (Some preconds)
      in try_bind (topological_sort_with_preconditions bp preconds) (\<lambda>_.
           if violations = [] then Inr () else Inl (BlueprintValidation violations)))"

text \<open>\<^verbatim>\<open>BlueprintWithPreconditions\<close> bundles the two.\<close>

record ('f, 'j) BlueprintWithPreconditions =
  bwp_blueprint :: "('f, 'j) AuditBlueprint"
  bwp_preconditions :: "(string \<times> string list) list"

definition bwp_validate :: "('f, 'j) BlueprintWithPreconditions \<Rightarrow> (AuditFsmError, unit) result" where
  "bwp_validate b = validate_blueprint_with_preconditions (bwp_blueprint b) (bwp_preconditions b)"

definition bwp_topological_sort :: "('f, 'j) BlueprintWithPreconditions \<Rightarrow> (AuditFsmError, string list) result" where
  "bwp_topological_sort b = topological_sort_with_preconditions (bwp_blueprint b) (bwp_preconditions b)"

text \<open>Loading from YAML text, given the parsed document.\<close>

definition load_with_preconditions ::
    "('f, 'j) RawBlueprint \<Rightarrow> ('f, 'j) BlueprintWithPreconditions" where
  "load_with_preconditions raw =
     (let bp = convert_raw_to_blueprint raw
      in \<lparr>bwp_blueprint = bp, bwp_preconditions = extract_preconditions raw bp\<rparr>)"

section \<open>The graph\<close>

text \<open>The edges from a precondition to its procedure, in the order in which they are added.\<close>

definition precondition_edges :: "string list \<Rightarrow> (string \<times> string list) list \<Rightarrow> (string \<times> string) list" where
  "precondition_edges ids preconds =
     concat (map (\<lambda>(p, ds). if p \<in> set ids then map (\<lambda>d. (d, p)) (filter (\<lambda>d. d \<in> set ids) ds) else [])
       preconds)"

definition in_count :: "(string \<times> string) list \<Rightarrow> string set \<Rightarrow> string \<Rightarrow> int" where
  "in_count es done_ids v = int (length (filter (\<lambda>(u, w). w = v \<and> u \<notin> done_ids) es))"

definition successors :: "(string \<times> string) list \<Rightarrow> string \<Rightarrow> string list" where
  "successors es u = map snd (filter (\<lambda>(x, _). x = u) es)"

definition degrees_ok :: "string set \<Rightarrow> (string \<times> string) list \<Rightarrow> string set \<Rightarrow> (string \<times> int) list \<Rightarrow> bool" where
  "degrees_ok V es done_ids m \<longleftrightarrow> (\<forall>v. map_of m v = (if v \<in> V then Some (in_count es done_ids v) else None))"

definition graph_ok :: "string set \<Rightarrow> (string \<times> string) list \<Rightarrow> graph \<Rightarrow> bool" where
  "graph_ok V es g \<longleftrightarrow> degrees_ok V es {} (fst g) \<and> distinct (map fst (fst g)) \<and>
     (\<forall>u. get_or_empty (snd g) u = successors es u)"

lemma in_count_Nil [simp]: "in_count [] D v = 0"
  by (simp add: in_count_def)

lemma in_count_append: "in_count (es @ fs) D v = in_count es D v + in_count fs D v"
  by (simp add: in_count_def)

lemma successors_append: "successors (es @ fs) u = successors es u @ successors fs u"
  by (simp add: successors_def)

lemma in_count_0_iff: "in_count es D v = 0 \<longleftrightarrow> (\<forall>u. (u, v) \<in> set es \<longrightarrow> u \<in> D)"
  by (auto simp: in_count_def filter_empty_conv)

lemma in_count_nonneg [simp]: "0 \<le> in_count es D v"
  by (simp add: in_count_def)

lemma in_count_insert:
  "n \<notin> D \<Longrightarrow> in_count es (insert n D) v = in_count es D v - int (count_list (successors es n) v)"
  by (induction es) (auto simp: in_count_def successors_def)

lemma init_degrees_ok: "map_of (init_degrees ids) v = (if v \<in> set ids then Some 0 else None)"
  "distinct (map fst (init_degrees ids))"
proof -
  have "map_of (fold (\<lambda>i m. AList.update i 0 m) ids m) v = (if v \<in> set ids then Some 0 else map_of m v) \<and>
        (distinct (map fst m) \<longrightarrow> distinct (map fst (fold (\<lambda>i m. AList.update i (0::int) m) ids m)))" for m
    by (induction ids arbitrary: m) (auto simp: update_conv' distinct_update)
  from this[of "[]"] show "map_of (init_degrees ids) v = (if v \<in> set ids then Some 0 else None)"
    "distinct (map fst (init_degrees ids))" by (auto simp: init_degrees_def)
qed

lemma add_edge_ok:
  assumes "graph_ok V es g" "p \<in> V"
  shows "graph_ok V (es @ [(d, p)]) (add_edge p d g)"
  using assms
  by (cases g)
     (auto simp: graph_ok_def degrees_ok_def add_edge_def update_conv' distinct_update in_count_append
        successors_append get_or_empty_update, auto simp: in_count_def successors_def)

lemma add_preconditions_ok:
  assumes "graph_ok V es g" "p \<in> V"
  shows "graph_ok V (es @ map (\<lambda>d. (d, p)) (filter (\<lambda>d. d \<in> set ids) ds)) (add_preconditions ids p ds g)"
  using assms(1) unfolding add_preconditions_def
proof (induction ds arbitrary: es g)
  case (Cons d ds)
  then show ?case using Cons.IH[OF add_edge_ok[OF Cons.prems assms(2), of d]] Cons.IH[OF Cons.prems] by auto
qed simp

lemma build_graph_known_ok: "graph_ok (set ids) (precondition_edges ids preconds) (build_graph_known ids preconds)"
proof -
  have "graph_ok (set ids) es g \<Longrightarrow> graph_ok (set ids) (es @ precondition_edges ids preconds)
      (fold (\<lambda>(proc_id, deps) g. if proc_id \<notin> set ids then g else add_preconditions ids proc_id deps g) preconds g)" for es g
  proof (induction preconds arbitrary: es g)
    case (Cons pd preconds)
    obtain p ds where pd: "pd = (p, ds)" by force
    show ?case
      using Cons.IH[OF add_preconditions_ok[OF Cons.prems, of p ids ds]] Cons.IH[OF Cons.prems]
      by (auto simp: pd precondition_edges_def)
  qed (simp add: precondition_edges_def)
  from this[of "[]" "(init_degrees ids, [])"] show ?thesis
    by (simp add: build_graph_known_def graph_ok_def degrees_ok_def init_degrees_ok successors_def get_or_empty_def)
qed

section \<open>The queue\<close>

lemma relax_spec:
  "relax ds m = (nxt, m') \<Longrightarrow>
   map_of m' v = map_option (\<lambda>k. k - int (count_list ds v)) (map_of m v) \<and>
   count_list nxt v = (case map_of m v of None \<Rightarrow> 0 | Some k \<Rightarrow> if 1 \<le> k \<and> k \<le> int (count_list ds v) then 1 else 0)"
proof (induction ds m arbitrary: nxt m' rule: relax.induct)
  case (2 d ds m)
  show ?case
  proof (cases "map_of m d")
    case None
    then show ?thesis using 2 by (auto split: option.splits)
  next
    case (Some k)
    obtain nx mx where r: "relax ds (AList.update d (k - 1) m) = (nx, mx)" by force
    from 2(2)[OF Some r] 2(3) Some r show ?thesis
      by (auto simp: update_conv' split: option.splits if_splits)
  qed
qed (auto split: option.splits)

lemma kahn_Cons:
  "kahn dependents (node # queue) m acc =
     (case relax (get_or_empty dependents node) m of
        (next_nodes, m') \<Rightarrow> kahn dependents (queue @ sort next_nodes) m' (acc @ [node]))"
  by (auto simp: get_or_empty_def split: option.splits)

text \<open>A list is ordered when every node comes after all its predecessors.\<close>

fun ordered :: "(string \<times> string) list \<Rightarrow> string set \<Rightarrow> string list \<Rightarrow> bool" where
  "ordered es seen [] = True"
| "ordered es seen (v # vs) \<longleftrightarrow> (\<forall>u. (u, v) \<in> set es \<longrightarrow> u \<in> seen) \<and> ordered es (insert v seen) vs"

definition ready :: "string set \<Rightarrow> (string \<times> string) list \<Rightarrow> string set \<Rightarrow> string set" where
  "ready V es done_ids = {v \<in> V. \<forall>u. (u, v) \<in> set es \<longrightarrow> u \<in> done_ids}"

definition queue_inv :: "string set \<Rightarrow> (string \<times> string) list \<Rightarrow> string list \<Rightarrow> (string \<times> int) list \<Rightarrow> string list \<Rightarrow> bool" where
  "queue_inv V es q m acc \<longleftrightarrow>
     degrees_ok V es (set acc) m \<and> distinct (acc @ q) \<and> set (acc @ q) = ready V es (set acc) \<and>
     ordered es {} acc"

lemma ordered_append: "ordered es S (xs @ ys) \<longleftrightarrow> ordered es S xs \<and> ordered es (S \<union> set xs) ys"
  by (induction xs arbitrary: S) auto

lemma relax_newly_ready:
  assumes "degrees_ok V es D m" "n \<notin> D" "relax (successors es n) m = (nxt, m')"
  shows "degrees_ok V es (insert n D) m'"
    and "distinct nxt"
    and "set nxt = ready V es (insert n D) - ready V es D"
proof -
  note spec = relax_spec[OF assms(3)]
  have m: "map_of m v = (if v \<in> V then Some (in_count es D v) else None)" for v
    using assms(1) by (simp add: degrees_ok_def)
  show "degrees_ok V es (insert n D) m'"
    using spec by (simp add: degrees_ok_def m in_count_insert[OF assms(2)])
  have c: "count_list nxt v = (if v \<in> ready V es (insert n D) - ready V es D then 1 else 0)" for v
  proof (cases "v \<in> V")
    case True
    have "in_count es (insert n D) v = in_count es D v - int (count_list (successors es n) v)"
      by (rule in_count_insert[OF assms(2)])
    then have "1 \<le> in_count es D v \<and> in_count es D v \<le> int (count_list (successors es n) v)
        \<longleftrightarrow> in_count es (insert n D) v = 0 \<and> in_count es D v \<noteq> 0"
      using in_count_nonneg[of es "insert n D" v] in_count_nonneg[of es D v] by linarith
    then show ?thesis using spec[of v] True by (simp add: m in_count_0_iff ready_def)
  next
    case False
    then show ?thesis using spec[of v] by (simp add: m ready_def)
  qed
  have "count (mset nxt) v = (if v \<in> set nxt then 1 else 0)" for v
    using c[of v] count_list_0_iff[of nxt v] by (auto simp: count_mset split: if_splits)
  then show "distinct nxt" by (simp add: distinct_count_atmost_1)
  show "set nxt = ready V es (insert n D) - ready V es D"
  proof (rule set_eqI)
    fix v
    show "v \<in> set nxt \<longleftrightarrow> v \<in> ready V es (insert n D) - ready V es D"
      using c[of v] count_list_0_iff[of nxt v] by (auto split: if_splits)
  qed
qed

lemma queue_inv_step:
  assumes inv: "queue_inv V es (n # q) m acc" and r: "relax (successors es n) m = (nxt, m')"
  shows "queue_inv V es (q @ sort nxt) m' (acc @ [n])"
proof -
  have n: "n \<notin> set acc" and d: "degrees_ok V es (set acc) m" and dist: "distinct (acc @ n # q)"
    and rdy: "set (acc @ n # q) = ready V es (set acc)" and ord: "ordered es {} acc"
    using inv by (auto simp: queue_inv_def)
  note new = relax_newly_ready[OF d n r]
  have sub: "ready V es (set acc) \<subseteq> ready V es (insert n (set acc))" by (auto simp: ready_def)
  have "n \<in> ready V es (set acc)" using rdy by auto
  then have "ordered es {} (acc @ [n])" using ord by (auto simp: ordered_append ready_def)
  moreover have "set nxt \<inter> set (acc @ n # q) = {}" using new(3) rdy by auto
  ultimately show ?thesis
    unfolding queue_inv_def using new dist rdy sub by auto
qed

lemma kahn_result:
  assumes "\<And>u. get_or_empty dependents u = successors es u"
  shows "queue_inv V es q m acc \<Longrightarrow> \<exists>m'. queue_inv V es [] m' (kahn dependents q m acc)"
  using assms
proof (induction dependents q m acc rule: kahn.induct)
  case (1 dependents m acc)
  then show ?case by auto
next
  case (2 dependents n q m acc)
  obtain nxt m' where r: "relax (successors es n) m = (nxt, m')" by force
  note inv = queue_inv_step[OF 2(3) r]
  show ?case
  proof (cases "map_of dependents n")
    case None
    then have "successors es n = []" using 2(4)[of n] by (simp add: get_or_empty_def)
    then show ?thesis using 2(1)[OF None _ 2(4)] inv r None by simp
  next
    case (Some ds)
    then have "successors es n = ds" using 2(4)[of n] by (simp add: get_or_empty_def)
    then show ?thesis using 2(2)[OF Some, of nxt m'] inv r Some 2(4) by simp
  qed
qed

lemma initial_queue_inv:
  assumes "graph_ok V es (m, dependents)"
  shows "queue_inv V es (initial_queue m) m []"
proof -
  have m: "map_of m v = (if v \<in> V then Some (in_count es {} v) else None)" for v
    using assms by (simp add: graph_ok_def degrees_ok_def)
  have d: "distinct (map fst m)" using assms by (simp add: graph_ok_def)
  have "(v, 0) \<in> set m \<longleftrightarrow> v \<in> V \<and> in_count es {} v = 0" for v
    using m[of v] map_of_eq_Some_iff[OF d, of v 0] by (auto split: if_splits)
  then have "set (initial_queue m) = ready V es {}"
    by (auto simp: initial_queue_def ready_def in_count_0_iff image_iff)
  moreover have "distinct (initial_queue m)"
    using d by (simp add: initial_queue_def distinct_map_filter case_prod_unfold)
  ultimately show ?thesis using assms by (simp add: queue_inv_def graph_ok_def)
qed

text \<open>What the queue has produced when it is empty.\<close>

definition sort_done :: "string set \<Rightarrow> (string \<times> string) list \<Rightarrow> string list \<Rightarrow> bool" where
  "sort_done V es s \<longleftrightarrow> distinct s \<and> ordered es {} s \<and> set s = ready V es (set s)"

lemma kahn_sort_done:
  assumes "graph_ok V es (m, dependents)"
  shows "sort_done V es (kahn dependents (initial_queue m) m [])"
proof -
  have "get_or_empty dependents u = successors es u" for u
    using assms by (simp add: graph_ok_def)
  from kahn_result[OF this initial_queue_inv[OF assms]] show ?thesis
    by (auto simp: queue_inv_def sort_done_def)
qed

lemma sort_done_subset: "sort_done V es s \<Longrightarrow> set s \<subseteq> V"
  by (auto simp: sort_done_def ready_def)

text \<open>A node that was left over has a predecessor that was left over, and the nodes that were
  output are on no cycle.\<close>

lemma left_over_has_predecessor:
  "sort_done V es s \<Longrightarrow> v \<in> V - set s \<Longrightarrow> \<exists>u. (u, v) \<in> set es \<and> u \<notin> set s"
  by (auto simp: sort_done_def ready_def)

lemma ordered_seen: "ordered es S vs \<Longrightarrow> v \<in> set vs \<Longrightarrow> (u, v) \<in> set es \<Longrightarrow> u \<in> S \<union> set vs"
  by (induction vs arbitrary: S) auto

lemma ordered_no_cycle:
  "ordered es S vs \<Longrightarrow> v \<in> set vs \<Longrightarrow> v \<notin> S \<Longrightarrow> S \<inter> set vs = {} \<Longrightarrow> distinct vs \<Longrightarrow>
   (\<And>x y. x \<in> S \<Longrightarrow> (y, x) \<in> set es \<Longrightarrow> y \<in> S) \<Longrightarrow> (v, v) \<notin> (set es)\<^sup>+"
proof (induction vs arbitrary: S)
  case (Cons w vs)
  have closed: "y \<in> S" if "(y, x) \<in> (set es)\<^sup>*" "x \<in> S" for x y
    using that by (induction rule: converse_rtrancl_induct) (auto dest: Cons.prems(6))
  show ?case
  proof (cases "v = w")
    case True
    show ?thesis
    proof
      assume "(v, v) \<in> (set es)\<^sup>+"
      then obtain z where "(v, z) \<in> (set es)\<^sup>*" "(z, v) \<in> set es" by (meson tranclE tranclD2)
      then have "v \<in> S" using Cons.prems(1) True closed by auto
      then show False using Cons.prems(3) by simp
    qed
  next
    case False
    then show ?thesis
      using Cons.prems by (intro Cons.IH[of "insert w S"]) auto
  qed
qed simp

lemma sorted_no_cycle: "sort_done V es s \<Longrightarrow> v \<in> set s \<Longrightarrow> (v, v) \<notin> (set es)\<^sup>+"
  using ordered_no_cycle[of es "{}" s v] by (simp add: sort_done_def)

lemma sorted_closed: "sort_done V es s \<Longrightarrow> v \<in> set s \<Longrightarrow> (u, v) \<in> (set es)\<^sup>* \<Longrightarrow> u \<in> set s"
  by (rotate_tac 2, induction rule: converse_rtrancl_induct)
     (auto simp: sort_done_def ready_def)

text \<open>So the left-over nodes are exactly those downstream of a cycle.\<close>

definition behind_cycle :: "(string \<times> string) list \<Rightarrow> string \<Rightarrow> bool" where
  "behind_cycle es p \<longleftrightarrow> (\<exists>c. (c, c) \<in> (set es)\<^sup>+ \<and> (c, p) \<in> (set es)\<^sup>*)"

lemma left_over_iff:
  assumes done_: "sort_done V es s" and edges: "set es \<subseteq> V \<times> V" and p: "p \<in> V"
  shows "p \<notin> set s \<longleftrightarrow> behind_cycle es p"
proof
  assume "behind_cycle es p"
  then show "p \<notin> set s"
    using sorted_closed[OF done_] sorted_no_cycle[OF done_] by (auto simp: behind_cycle_def)
next
  assume p_left: "p \<notin> set s"
  define A where "A = {u. (u, p) \<in> (set es)\<^sup>* \<and> u \<notin> set s}"
  have pA: "p \<in> A" using p_left by (simp add: A_def)
  have pred: "\<exists>u \<in> A. (u, v) \<in> set es" if vA: "v \<in> A" for v
  proof -
    have "v \<in> V" using vA edges p by (auto simp: A_def elim: converse_rtranclE)
    then obtain u where "(u, v) \<in> set es" "u \<notin> set s"
      using left_over_has_predecessor[OF done_, of v] vA by (auto simp: A_def)
    then show ?thesis using vA by (auto simp: A_def intro: converse_rtrancl_into_rtrancl)
  qed
  show "behind_cycle es p"
  proof (rule ccontr)
    assume no: "\<not> behind_cycle es p"
    have "acyclic (set es \<inter> A \<times> A)"
      unfolding acyclic_def
    proof
      fix x
      show "(x, x) \<notin> (set es \<inter> A \<times> A)\<^sup>+"
      proof
        assume c: "(x, x) \<in> (set es \<inter> A \<times> A)\<^sup>+"
        then have "x \<in> A" by (auto elim: tranclE)
        moreover have "(x, x) \<in> (set es)\<^sup>+" using c trancl_mono by blast
        ultimately show False using no by (auto simp: behind_cycle_def A_def)
      qed
    qed
    then have "wf (set es \<inter> A \<times> A)" by (intro finite_acyclic_wf) auto
    then obtain z where "z \<in> A" "\<forall>y. (y, z) \<in> set es \<inter> A \<times> A \<longrightarrow> y \<notin> A"
      using pA by (meson wfE_min)
    then show False using pred by blast
  qed
qed

section \<open>The sorts\<close>

lemma precondition_edges_iff:
  "(d, p) \<in> set (precondition_edges ids preconds) \<longleftrightarrow>
   p \<in> set ids \<and> d \<in> set ids \<and> (\<exists>ds. (p, ds) \<in> set preconds \<and> d \<in> set ds)"
  by (fastforce simp: precondition_edges_def split: if_splits)

lemma precondition_edges_subset: "set (precondition_edges ids preconds) \<subseteq> set ids \<times> set ids"
  by (auto simp: precondition_edges_iff)

lemma missing_precondition_None_iff:
  "missing_precondition ids preconds = None \<longleftrightarrow> (\<forall>(p, ds) \<in> set preconds. set ds \<subseteq> set ids)"
  by (fastforce simp: missing_precondition_def find_None_iff)

text \<open>The list that the queue produces for a blueprint's procedures and preconditions.\<close>

definition kahn_output :: "string list \<Rightarrow> (string \<times> string list) list \<Rightarrow> string list" where
  "kahn_output ids preconds =
     (case build_graph_known ids preconds of (m, dependents) \<Rightarrow> kahn dependents (initial_queue m) m [])"

lemma kahn_output_done: "sort_done (set ids) (precondition_edges ids preconds) (kahn_output ids preconds)"
  using build_graph_known_ok[of ids preconds] kahn_sort_done
  by (auto simp: kahn_output_def split: prod.split)

lemma topological_sort_with_preconditions_alt:
  "topological_sort_with_preconditions bp preconds =
     (let ids = procedure_ids bp; s = kahn_output ids preconds
      in case missing_precondition ids preconds of
           Some pd \<Rightarrow> Inl (missing_error pd)
         | None \<Rightarrow> if length s = length ids then Inr s
                    else Inl (DagCycle (filter (\<lambda>i. i \<notin> set s) ids)))"
  by (auto simp: topological_sort_with_preconditions_def kahn_sort_def kahn_output_def Let_def
           split: option.splits prod.splits)

lemma same_length_iff:
  assumes "distinct s" "set s \<subseteq> set ids"
  shows "length s = length ids \<longleftrightarrow> mset s = mset ids"
proof
  assume l: "length s = length ids"
  have "card (set s) = length ids" using assms(1) l by (simp add: distinct_card)
  then have "card (set ids) = length ids" "set s = set ids"
    using card_length[of ids] card_mono[OF _ assms(2)] card_seteq[OF _ assms(2)] by auto
  then show "mset s = mset ids"
    using assms(1) by (simp add: card_distinct set_eq_iff_mset_eq_distinct)
next
  assume "mset s = mset ids"
  then show "length s = length ids" by (rule mset_eq_length)
qed

definition comes_before :: "string list \<Rightarrow> string \<Rightarrow> string \<Rightarrow> bool" where
  "comes_before s u v \<longleftrightarrow> (\<exists>i j. i < j \<and> j < length s \<and> s ! i = u \<and> s ! j = v)"

lemma comes_before_Cons_in: "v \<in> set vs \<Longrightarrow> comes_before (u # vs) u v"
  by (force simp: comes_before_def in_set_conv_nth)

lemma comes_before_Cons: "comes_before vs u v \<Longrightarrow> comes_before (w # vs) u v"
  unfolding comes_before_def by (metis Suc_less_eq length_Cons nth_Cons_Suc)

lemma ordered_comes_before:
  "ordered es S vs \<Longrightarrow> v \<in> set vs \<Longrightarrow> (u, v) \<in> set es \<Longrightarrow> distinct vs \<Longrightarrow> u \<in> S \<or> comes_before vs u v"
proof (induction vs arbitrary: S)
  case (Cons w vs)
  show ?case
  proof (cases "v = w")
    case True
    then show ?thesis using Cons.prems by auto
  next
    case False
    then have "v \<in> set vs" using Cons.prems(2) by simp
    then show ?thesis
      using Cons.IH[of "insert w S"] Cons.prems comes_before_Cons_in[of v vs w] comes_before_Cons[of vs u v w]
      by auto
  qed
qed simp

lemma sort_ok_facts:
  assumes "topological_sort_with_preconditions bp preconds = Inr s"
  shows "s = kahn_output (procedure_ids bp) preconds" "mset s = mset (procedure_ids bp)"
  using assms same_length_iff[of "kahn_output (procedure_ids bp) preconds" "procedure_ids bp"]
    kahn_output_done[of "procedure_ids bp" preconds] sort_done_subset[OF kahn_output_done]
  by (auto simp: topological_sort_with_preconditions_alt Let_def sort_done_def split: option.splits if_splits)

lemma sort_respects:
  assumes "topological_sort_with_preconditions bp preconds = Inr s"
    and "(d, p) \<in> set (precondition_edges (procedure_ids bp) preconds)"
  shows "comes_before s d p"
proof -
  let ?ids = "procedure_ids bp" and ?es = "precondition_edges (procedure_ids bp) preconds"
  note s = sort_ok_facts[OF assms(1)]
  have "sort_done (set ?ids) ?es s" using kahn_output_done s(1) by simp
  then show ?thesis
    using ordered_comes_before[of ?es "{}" s p d] assms(2) mset_eq_setD[OF s(2)]
    by (auto simp: sort_done_def precondition_edges_iff)
qed

lemma tail_in_second: "A @ B = xs @ e # ys \<Longrightarrow> e \<notin> set A \<Longrightarrow> set ys \<subseteq> set B"
  by (auto simp: append_eq_append_conv2 Cons_eq_append_conv append_eq_Cons_conv)

lemma concat_before:
  assumes "comes_before order d q" "distinct order" "\<And>x e. x \<in> set order \<Longrightarrow> e \<in> set (segs x) \<Longrightarrow> f e = x"
    and "concat (map segs order) = xs @ e # ys" "f e = q" "e' \<in> set ys"
  shows "f e' \<noteq> d"
proof
  assume fd: "f e' = d"
  from assms(1) obtain i j where ij: "i < j" "j < length order" "order ! i = d" "order ! j = q"
    by (auto simp: comes_before_def)
  define as where "as = take j order"
  define bs where "bs = drop (Suc j) order"
  have order: "order = as @ q # bs" using id_take_nth_drop[OF ij(2)] ij(4) by (simp add: as_def bs_def)
  have d: "d \<in> set as" using ij by (auto simp: as_def in_set_conv_nth intro!: exI[of _ i])
  have dist: "d \<noteq> q" "d \<notin> set bs" "q \<notin> set as" "q \<notin> set bs" using assms(2) d order by auto
  have ids: "e \<in> set (concat (map segs zs)) \<Longrightarrow> set zs \<subseteq> set order \<Longrightarrow> f e \<in> set zs" for e zs
    using assms(3) by auto
  let ?A = "concat (map segs as)" and ?B = "segs q @ concat (map segs bs)"
  have AB: "?A @ ?B = xs @ e # ys" using assms(4) order by simp
  have "e \<notin> set ?A" using ids[of e as] assms(5) dist order by auto
  with AB have "set ys \<subseteq> set ?B" by (rule tail_in_second)
  then have "e' \<in> set ?B" using assms(6) by blast
  then have "d = q \<or> d \<in> set bs" using assms(3)[of q e'] ids[of e' bs] fd order by auto
  then show False using dist by blast
qed

text \<open>The contract between the sort and the engine that walks its result: every node once, and
  the source of an edge before its target. A client that emits a segment of events for each node
  in the order of the schedule emits nothing for a source after it has emitted for the target;
  and a schedule exists only for acyclic edges.\<close>

locale schedule =
  fixes sched :: "'c \<Rightarrow> ('e, string list) result"
    and nodes :: "'c \<Rightarrow> string list"
    and edges :: "'c \<Rightarrow> (string \<times> string) set"
  assumes sched_distinct: "sched c = Inr s \<Longrightarrow> distinct s"
    and sched_nodes: "sched c = Inr s \<Longrightarrow> mset s = mset (nodes c)"
    and sched_before: "sched c = Inr s \<Longrightarrow> (d, p) \<in> edges c \<Longrightarrow> comes_before s d p"
begin

lemma sched_set: "sched c = Inr s \<Longrightarrow> set s = set (nodes c)"
  by (rule mset_eq_setD[OF sched_nodes])

lemma segments_in_order:
  assumes "sched c = Inr s" "(d, q) \<in> edges c"
    and "\<And>x e. x \<in> set s \<Longrightarrow> e \<in> set (segs x) \<Longrightarrow> f e = x"
    and "concat (map segs s) = xs @ e # ys" "f e = q" "e' \<in> set ys"
  shows "f e' \<noteq> d"
  by (rule concat_before[where f = f, OF sched_before[OF assms(1,2)] sched_distinct[OF assms(1)] assms(3-6)])

end

interpretation procedure_order: schedule bwp_topological_sort
  "\<lambda>b. procedure_ids (bwp_blueprint b)"
  "\<lambda>b. set (precondition_edges (procedure_ids (bwp_blueprint b)) (bwp_preconditions b))"
proof
  fix b :: "('f, 'j) BlueprintWithPreconditions" and s d p
  assume "bwp_topological_sort b = Inr s"
  then have ok: "topological_sort_with_preconditions (bwp_blueprint b) (bwp_preconditions b) = Inr s"
    by (simp add: bwp_topological_sort_def)
  show "distinct s"
    using sort_ok_facts(1)[OF ok] kahn_output_done by (auto simp: sort_done_def)
  show "mset s = mset (procedure_ids (bwp_blueprint b))" by (rule sort_ok_facts(2)[OF ok])
  show "(d, p) \<in> set (precondition_edges (procedure_ids (bwp_blueprint b)) (bwp_preconditions b)) \<Longrightarrow> comes_before s d p"
    by (rule sort_respects[OF ok])
qed

text \<open>C29. A successful sort is a schedule: it lists every procedure of the blueprint exactly once,
  and every precondition of a procedure of the blueprint comes before it.\<close>

theorem topological_sort_orders:
  assumes "topological_sort_with_preconditions bp preconds = Inr s"
  shows "distinct s \<and> mset s = mset (procedure_ids bp) \<and>
    (\<forall>(d, p) \<in> set (precondition_edges (procedure_ids bp) preconds). comes_before s d p)"
  using sort_respects[OF assms] sort_ok_facts[OF assms] kahn_output_done
  by (auto simp: sort_done_def)

lemma sort_ok_iff_acyclic:
  assumes "distinct (procedure_ids bp)" "missing_precondition (procedure_ids bp) preconds = None"
  shows "is_ok (topological_sort_with_preconditions bp preconds) \<longleftrightarrow>
    acyclic (set (precondition_edges (procedure_ids bp) preconds))"
proof -
  let ?ids = "procedure_ids bp" and ?es = "precondition_edges (procedure_ids bp) preconds"
  let ?s = "kahn_output ?ids preconds"
  have done_: "sort_done (set ?ids) ?es ?s" by (rule kahn_output_done)
  have "is_ok (topological_sort_with_preconditions bp preconds) \<longleftrightarrow> mset ?s = mset ?ids"
    using same_length_iff[of ?s ?ids] done_ sort_done_subset[OF done_] assms(2)
    by (simp add: topological_sort_with_preconditions_alt Let_def sort_done_def)
  also have "\<dots> \<longleftrightarrow> set ?ids \<subseteq> set ?s"
    using assms(1) done_ sort_done_subset[OF done_]
    by (auto simp: sort_done_def set_eq_iff_mset_eq_distinct[symmetric])
  also have "\<dots> \<longleftrightarrow> (\<forall>p \<in> set ?ids. \<not> behind_cycle ?es p)"
    using left_over_iff[OF done_ precondition_edges_subset] by auto
  also have "\<dots> \<longleftrightarrow> acyclic (set ?es)"
    using trancl_subset_Sigma[OF precondition_edges_subset[of ?ids preconds]]
    by (fastforce simp: acyclic_def behind_cycle_def)
  finally show ?thesis .
qed

text \<open>C30. The sort succeeds exactly for acyclic preconditions: with distinct procedure ids and no
  reference to an unknown procedure, a list is returned if and only if the graph of the
  preconditions has no cycle.\<close>

theorem topological_sort_succeeds_iff:
  assumes "distinct (procedure_ids bp)" "missing_precondition (procedure_ids bp) preconds = None"
  shows "is_ok (topological_sort_with_preconditions bp preconds) \<longleftrightarrow>
    acyclic (set (precondition_edges (procedure_ids bp) preconds))"
  by (rule sort_ok_iff_acyclic[OF assms])

text \<open>The cycle error names exactly the procedures that can never run: those on a cycle of
  preconditions or downstream of one; it names at least one if the procedure ids are distinct.\<close>

theorem topological_sort_reports_cycle:
  assumes "topological_sort_with_preconditions bp preconds = Inl (DagCycle ps)"
  shows "(\<forall>p. p \<in> set ps \<longleftrightarrow> p \<in> set (procedure_ids bp) \<and>
            behind_cycle (precondition_edges (procedure_ids bp) preconds) p) \<and>
    (distinct (procedure_ids bp) \<longrightarrow> ps \<noteq> [])"
proof -
  let ?ids = "procedure_ids bp" and ?es = "precondition_edges (procedure_ids bp) preconds"
  let ?s = "kahn_output ?ids preconds"
  have done_: "sort_done (set ?ids) ?es ?s" by (rule kahn_output_done)
  have ps: "ps = filter (\<lambda>i. i \<notin> set ?s) ?ids" and len: "length ?s \<noteq> length ?ids"
    using assms by (auto simp: topological_sort_with_preconditions_alt Let_def missing_error_def
        split: option.splits if_splits)
  have "ps \<noteq> []" if "distinct ?ids"
  proof
    assume "ps = []"
    then have "set ?s = set ?ids" using ps sort_done_subset[OF done_] by (auto simp: filter_empty_conv)
    then show False using that done_ len by (metis distinct_card sort_done_def)
  qed
  then show ?thesis using left_over_iff[OF done_ precondition_edges_subset] ps by auto
qed

text \<open>The order of the map that holds the preconditions does not matter.\<close>

lemma sort_mset_cong: "mset xs = mset ys \<Longrightarrow> sort xs = (sort ys :: string list)"
  by (rule properties_for_sort) simp_all

lemma relax_perm:
  assumes "mset ds = mset ds2" "map_of m = map_of m2" "relax ds m = (n1, m1)" "relax ds2 m2 = (n2, m3)"
  shows "mset n1 = mset n2" "map_of m1 = map_of m3"
proof -
  have c: "count_list ds v = count_list ds2 v" for v
    using assms(1) by (metis count_mset)
  show "mset n1 = mset n2"
    using relax_spec[OF assms(3)] relax_spec[OF assms(4)] assms(2) c
    by (intro multiset_eqI) (simp add: count_mset split: option.splits)
  show "map_of m1 = map_of m3"
    using relax_spec[OF assms(3)] relax_spec[OF assms(4)] assms(2) c by (intro ext) simp
qed

lemma kahn_perm:
  assumes "\<And>u. mset (get_or_empty d1 u) = mset (get_or_empty d2 u)"
  shows "map_of m1 = map_of m2 \<Longrightarrow> kahn d1 q m1 acc = kahn d2 q m2 acc"
  using assms
proof (induction d1 q m1 acc arbitrary: m2 rule: kahn.induct)
  case (2 d1 n q m1 acc)
  obtain n1 m1' where r1: "relax (get_or_empty d1 n) m1 = (n1, m1')" by force
  obtain n2 m2' where r2: "relax (get_or_empty d2 n) m2 = (n2, m2')" by force
  note p = relax_perm[OF 2(4) 2(3) r1 r2]
  have "kahn d1 (q @ sort n1) m1' (acc @ [n]) = kahn d2 (q @ sort n1) m2' (acc @ [n])"
  proof (cases "map_of d1 n")
    case None
    then have "n1 = []" "m1' = m1" using r1 by (simp_all add: get_or_empty_def)
    then show ?thesis using 2(1)[OF None _ 2(4)] p(2) by simp
  next
    case (Some ds)
    then have "relax ds m1 = (n1, m1')" using r1 by (simp add: get_or_empty_def)
    then show ?thesis using 2(2)[OF Some _ p(2) 2(4)] by metis
  qed
  then show ?case using r1 r2 sort_mset_cong[OF p(1)] by (simp add: kahn_Cons del: kahn.simps)
qed simp

lemma in_count_mset: "mset es = mset fs \<Longrightarrow> in_count es D v = in_count fs D v"
  by (simp add: in_count_def) (metis mset_filter size_mset)

lemma successors_mset: "mset es = mset fs \<Longrightarrow> mset (successors es u) = mset (successors fs u)"
  unfolding successors_def by (metis mset_filter mset_map)

lemma precondition_edges_mset:
  assumes "mset pre = mset pre'"
  shows "mset (precondition_edges ids pre) = mset (precondition_edges ids pre')"
proof -
  define f where "f = (\<lambda>(p, ds). if p \<in> set ids then map (\<lambda>d. (d, p)) (filter (\<lambda>d. d \<in> set ids) ds) else [])"
  have "mset (precondition_edges ids x) = \<Sum>\<^sub># (image_mset (mset \<circ> f) (mset x))" for x
    by (induction x) (simp_all add: precondition_edges_def f_def)
  then show ?thesis using assms by simp
qed

lemma initial_queue_cong:
  assumes "distinct (map fst m)" "distinct (map fst m2)" "map_of m = map_of m2"
  shows "initial_queue m = initial_queue m2"
proof -
  let ?f = "\<lambda>m. map fst (filter (\<lambda>(_, deg). deg = (0::int)) m)"
  have "set m = set m2"
    by (metis assms map_of_eq_Some_iff subrelI subset_antisym)
  then have "set (?f m) = set (?f m2)" by simp
  moreover have "distinct (?f m)" "distinct (?f m2)"
    using assms(1,2) by (simp_all add: distinct_map_filter)
  ultimately have "mset (?f m) = mset (?f m2)"
    using set_eq_iff_mset_eq_distinct by blast
  then show ?thesis unfolding initial_queue_def by (rule sort_mset_cong)
qed

lemma kahn_output_perm:
  assumes "mset pre = mset pre'"
  shows "kahn_output ids pre = kahn_output ids pre'"
proof -
  obtain m d where g: "build_graph_known ids pre = (m, d)" by force
  obtain m2 d2 where g2: "build_graph_known ids pre' = (m2, d2)" by force
  note ok = build_graph_known_ok[of ids pre, unfolded g] build_graph_known_ok[of ids pre', unfolded g2]
  note e = precondition_edges_mset[OF assms, of ids]
  have m: "map_of m = map_of m2"
    using ok in_count_mset[OF e] by (auto simp: graph_ok_def degrees_ok_def)
  have "mset (get_or_empty d u) = mset (get_or_empty d2 u)" for u
    using ok successors_mset[OF e] by (simp add: graph_ok_def)
  from kahn_perm[OF this m] show ?thesis
    using initial_queue_cong[OF _ _ m] ok by (simp add: kahn_output_def g g2 graph_ok_def)
qed

text \<open>The result is deterministic: the iteration order of the hash map that holds the
  preconditions does not change it.\<close>

theorem topological_sort_order_independent:
  assumes "mset pre = mset pre'" "missing_precondition (procedure_ids bp) pre = None"
  shows "topological_sort_with_preconditions bp pre = topological_sort_with_preconditions bp pre'"
proof -
  have "set pre = set pre'" using assms(1) by (rule mset_eq_setD)
  then have "missing_precondition (procedure_ids bp) pre' = None"
    using assms(2) by (simp add: missing_precondition_None_iff)
  then show ?thesis
    using assms(2) by (simp add: topological_sort_with_preconditions_alt kahn_output_perm[OF assms(1)])
qed

text \<open>The two sorts agree when every entry of the preconditions belongs to the blueprint; an
  entry of another procedure makes \<^verbatim>\<open>topological_sort_procedures\<close> report a cycle without nodes.\<close>

lemma build_graph_eq_known:
  "fst ` set preconds \<subseteq> set ids \<Longrightarrow> build_graph ids preconds = build_graph_known ids preconds"
  unfolding build_graph_def build_graph_known_def by (rule fold_cong) auto

lemma sorts_agree:
  assumes "extract_preconditions_from_builtin parsed bp = Inr pre" "fst ` set pre \<subseteq> set (procedure_ids bp)"
  shows "topological_sort_procedures parsed bp = topological_sort_with_preconditions bp pre"
  using assms(1)
  by (simp add: topological_sort_procedures_def topological_sort_with_preconditions_def Let_def
      build_graph_eq_known[OF assms(2)] split: option.split)

lemma foreign_precondition_rejected:
  defines "raw \<equiv> sample_raw\<lparr>rbp_procedures := [sample_raw_procedure ''a'' ''plan'', sample_raw_procedure ''b'' ''test'',
        (sample_raw_procedure ''x'' ''other'')\<lparr>rpr_preconditions := [''a'']\<rparr>]\<rparr>"
  shows "topological_sort_procedures (\<lambda>_. Inr raw) (convert_raw_to_blueprint sample_raw) = Inl (DagCycle [])"
proof -
  have ids: "procedure_ids (convert_raw_to_blueprint sample_raw) = [''a'', ''b'']"
    by (subst conversion_groups_procedures)
       (simp_all add: sample_raw_def sample_raw_phase_def sample_raw_procedure_def)
  have pre: "extract_preconditions raw (convert_raw_to_blueprint sample_raw) = [(''a'', []), (''b'', []), (''x'', [''a''])]"
    unfolding extract_preconditions_def ids unfolding raw_def sample_raw_def sample_raw_procedure_def by simp
  have g: "build_graph [''a'', ''b''] [(''a'', []), (''b'', []), (''x'', [''a''])] =
      ([(''a'', 0), (''b'', 0), (''x'', 1)], [(''a'', [''x''])])"
    by (simp add: build_graph_def init_degrees_def add_preconditions_def add_edge_def get_or_empty_def)
  have k: "kahn_sort [''a'', ''b''] ([(''a'', 0), (''b'', 0), (''x'', 1)], [(''a'', [''x''])]) = Inl (DagCycle [])"
    by (simp add: kahn_sort_def initial_queue_def)
  show ?thesis
    by (simp add: topological_sort_procedures_def extract_preconditions_from_builtin_def ids pre g k
        missing_precondition_def)
qed

section \<open>Concrete instances\<close>

lemma sample_ids: "procedure_ids (convert_raw_to_blueprint sample_raw) = [''a'', ''b'']"
  by (subst conversion_groups_procedures)
     (simp_all add: sample_raw_def sample_raw_phase_def sample_raw_procedure_def)

lemma sample_sort: "topological_sort_with_preconditions (convert_raw_to_blueprint sample_raw) [(''a'', [''b'']), (''b'', [])] = Inr [''b'', ''a'']"
  unfolding topological_sort_with_preconditions_def sample_ids
  by (simp add: missing_precondition_def build_graph_known_def init_degrees_def add_preconditions_def
      add_edge_def get_or_empty_def kahn_sort_def initial_queue_def)

lemma sample_cycle: "topological_sort_with_preconditions (convert_raw_to_blueprint sample_raw) [(''a'', [''b'']), (''b'', [''a''])] = Inl (DagCycle [''a'', ''b''])"
  unfolding topological_sort_with_preconditions_def sample_ids
  by (simp add: missing_precondition_def build_graph_known_def init_degrees_def add_preconditions_def
      add_edge_def get_or_empty_def kahn_sort_def initial_queue_def)

theorem topological_sort_orders_witness: "comes_before [''b'', ''a''] ''b'' ''a''"
  using topological_sort_orders[OF sample_sort] by (simp add: sample_ids precondition_edges_def)

theorem topological_sort_succeeds_iff_witness: "acyclic {(''b'', ''a'')}"
  using topological_sort_succeeds_iff[of "convert_raw_to_blueprint sample_raw" "[(''a'', [''b'']), (''b'', [])]"]
  by (simp add: sample_ids sample_sort missing_precondition_def precondition_edges_def)

theorem topological_sort_reports_cycle_witness: "behind_cycle [(''b'', ''a''), (''a'', ''b'')] ''a''"
  using topological_sort_reports_cycle[OF sample_cycle] by (auto simp: sample_ids precondition_edges_def)

theorem topological_sort_order_independent_witness:
  "topological_sort_with_preconditions (convert_raw_to_blueprint sample_raw) [(''b'', []), (''a'', [''b''])] = Inr [''b'', ''a'']"
  using topological_sort_order_independent[of "[(''a'', [''b'']), (''b'', [])]" "[(''b'', []), (''a'', [''b''])]" "convert_raw_to_blueprint sample_raw"]
  by (simp add: sample_ids sample_sort missing_precondition_def)

end
