(* ===== verification/Engine.thy ===== *)
theory Engine
  imports Overlay Topo Uuid_Factory
begin

text \<open>
  Model of \<^verbatim>\<open>crates/datasynth-audit-fsm/src/engine.rs\<close> and \<^verbatim>\<open>event.rs\<close>: the walk over the
  procedures of a blueprint in the order of their preconditions, with the event trail, the
  injected anomalies and the completed phases. The random generator, the log-normal sampler,
  the step dispatcher (which produces the artifacts) and the f64 functions \<open>ln\<close>, \<open>sqrt\<close> and
  \<open>is_finite\<close> are the record \<open>engine_env\<close>; time stamps count minutes. Every function that
  mutates \<^verbatim>\<open>self\<close> or the accumulator returns both.
\<close>

section \<open>Events\<close>

datatype AuditAnomalyType =
  SkippedApproval | LatePosting | MissingEvidence | OutOfSequence | InsufficientDocumentation

fun display_anomaly :: "AuditAnomalyType \<Rightarrow> string" where
  "display_anomaly SkippedApproval = ''skipped_approval''"
| "display_anomaly LatePosting = ''late_posting''"
| "display_anomaly MissingEvidence = ''missing_evidence''"
| "display_anomaly OutOfSequence = ''out_of_sequence''"
| "display_anomaly InsufficientDocumentation = ''insufficient_documentation''"

datatype AnomalySeverity = Low | Medium | High | Critical

record AuditEvent =
  ae_event_id :: "u8 list"
  ae_timestamp :: int
  ae_event_type :: string
  ae_procedure_id :: string
  ae_step_id :: "string option"
  ae_phase_id :: string
  ae_from_state :: "string option"
  ae_to_state :: "string option"
  ae_actor_id :: string
  ae_command :: string
  ae_evidence_refs :: "string list"
  ae_standards_refs :: "string list"
  ae_is_anomaly :: bool
  ae_anomaly_type :: "AuditAnomalyType option"

record AuditAnomalyRecord =
  aar_anomaly_id :: "u8 list"
  aar_anomaly_type :: AuditAnomalyType
  aar_severity :: AnomalySeverity
  aar_procedure_id :: string
  aar_step_id :: "string option"
  aar_timestamp :: int
  aar_description :: string

record AuditEventBuilder =
  eb_event_type :: string
  eb_procedure_id :: string
  eb_step_id :: "string option"
  eb_phase_id :: string
  eb_from_state :: "string option"
  eb_to_state :: "string option"
  eb_actor_id :: string
  eb_command :: string
  eb_evidence_refs :: "string list"
  eb_standards_refs :: "string list"
  eb_timestamp :: "int option"
  eb_is_anomaly :: bool
  eb_anomaly_type :: "AuditAnomalyType option"

definition new_builder :: AuditEventBuilder where
  "new_builder =
     \<lparr>eb_event_type = [], eb_procedure_id = [], eb_step_id = None, eb_phase_id = [],
      eb_from_state = None, eb_to_state = None, eb_actor_id = [], eb_command = [],
      eb_evidence_refs = [], eb_standards_refs = [], eb_timestamp = None, eb_is_anomaly = False,
      eb_anomaly_type = None\<rparr>"

definition evidence_ref :: "string \<Rightarrow> AuditEventBuilder \<Rightarrow> AuditEventBuilder" where
  "evidence_ref r b = b\<lparr>eb_evidence_refs := eb_evidence_refs b @ [r]\<rparr>"

definition standard_ref :: "string \<Rightarrow> AuditEventBuilder \<Rightarrow> AuditEventBuilder" where
  "standard_ref r b = b\<lparr>eb_standards_refs := eb_standards_refs b @ [r]\<rparr>"

definition anomaly :: "AuditAnomalyType \<Rightarrow> AuditEventBuilder \<Rightarrow> AuditEventBuilder" where
  "anomaly t b = b\<lparr>eb_is_anomaly := True, eb_anomaly_type := Some t\<rparr>"

text \<open>\<^verbatim>\<open>uuid::Builder::from_random_bytes\<close> sets the version and variant bits of the sixteen
  random bytes.\<close>

definition from_random_bytes :: "u8 list \<Rightarrow> u8 list" where
  "from_random_bytes bs = bs[6 := set_version (bs ! 6), 8 := set_variant (bs ! 8)]"

definition build_event :: "u8 list \<Rightarrow> AuditEventBuilder \<Rightarrow> AuditEvent" where
  "build_event bytes b =
     \<lparr>ae_event_id = from_random_bytes bytes,
      ae_timestamp = (case eb_timestamp b of None \<Rightarrow> 0 | Some ts \<Rightarrow> ts),
      ae_event_type = eb_event_type b, ae_procedure_id = eb_procedure_id b,
      ae_step_id = eb_step_id b, ae_phase_id = eb_phase_id b, ae_from_state = eb_from_state b,
      ae_to_state = eb_to_state b, ae_actor_id = eb_actor_id b, ae_command = eb_command b,
      ae_evidence_refs = eb_evidence_refs b, ae_standards_refs = eb_standards_refs b,
      ae_is_anomaly = eb_is_anomaly b, ae_anomaly_type = eb_anomaly_type b\<rparr>"

section \<open>Engine state\<close>

record ('f, 'j, 'r, 'd, 'art, 'ctx) engine_env =
  random_f64 :: "'r \<Rightarrow> 'f \<times> 'r"
  random_bytes :: "'r \<Rightarrow> u8 list \<times> 'r"
  random_u64 :: "'r \<Rightarrow> u64 \<times> 'r"
  lognormal :: "'f \<Rightarrow> 'f \<Rightarrow> ('r \<Rightarrow> 'f \<times> 'r) option"
  f_ln :: "'f \<Rightarrow> 'f"
  f_sqrt :: "'f \<Rightarrow> 'f"
  f_is_finite :: "'f \<Rightarrow> bool"
  new_dispatcher :: "u64 \<Rightarrow> 'd"
  dispatch :: "'j BlueprintStep \<Rightarrow> string \<Rightarrow> 'ctx \<Rightarrow> 'd \<times> 'art \<Rightarrow> 'd \<times> 'art"
  empty_bag :: 'art
  engagement_start :: "'ctx \<Rightarrow> int"

record 'art RunAccum =
  ra_event_log :: "AuditEvent list"
  ra_procedure_states :: "(string \<times> string) list"
  ra_step_completions :: "(string \<times> bool) list"
  ra_evidence_states :: "(string \<times> string) list"
  ra_anomalies :: "AuditAnomalyRecord list"
  ra_artifacts :: 'art
  ra_current_ts :: int

record ('f, 'art) EngagementResult =
  res_event_log :: "AuditEvent list"
  res_procedure_states :: "(string \<times> string) list"
  res_step_completions :: "(string \<times> bool) list"
  res_evidence_states :: "(string \<times> string) list"
  res_anomalies :: "AuditAnomalyRecord list"
  res_phases_completed :: "string list"
  res_total_duration_hours :: 'f
  res_artifacts :: 'art

record ('f, 'j, 'r, 'd) AuditFsmEngine =
  eng_blueprint :: "('f, 'j) AuditBlueprint"
  eng_overlay :: "'f GenerationOverlay"
  eng_rng :: 'r
  eng_preconditions :: "(string \<times> string list) list"
  eng_dispatcher :: 'd

text \<open>The dispatcher's seed is drawn from a copy of the generator.\<close>

definition new_engine ::
    "('f, 'j, 'r, 'd, 'art, 'ctx) engine_env \<Rightarrow> ('f, 'j) BlueprintWithPreconditions \<Rightarrow> 'f GenerationOverlay
     \<Rightarrow> 'r \<Rightarrow> ('f, 'j, 'r, 'd) AuditFsmEngine" where
  "new_engine env bwp overlay rng =
     (let (seed, _) = random_u64 env rng
      in \<lparr>eng_blueprint = bwp_blueprint bwp, eng_overlay = overlay, eng_rng = rng,
          eng_preconditions = bwp_preconditions bwp, eng_dispatcher = new_dispatcher env seed\<rparr>)"

definition build_with_rng ::
    "('f, 'j, 'r, 'd, 'art, 'ctx) engine_env \<Rightarrow> AuditEventBuilder \<Rightarrow> ('f, 'j, 'r, 'd) AuditFsmEngine
     \<Rightarrow> AuditEvent \<times> ('f, 'j, 'r, 'd) AuditFsmEngine" where
  "build_with_rng env b eng =
     (let (bytes, r) = random_bytes env (eng_rng eng)
      in (build_event bytes b, eng\<lparr>eng_rng := r\<rparr>))"

section \<open>Time\<close>

definition sample_lognormal_hours ::
    "('f::floor_ceiling, 'j, 'r, 'd, 'art, 'ctx) engine_env \<Rightarrow> 'f \<Rightarrow> 'f \<Rightarrow> ('f, 'j, 'r, 'd) AuditFsmEngine
     \<Rightarrow> 'f \<times> ('f, 'j, 'r, 'd) AuditFsmEngine" where
  "sample_lognormal_hours env mu0 sigma0 eng =
     (let mu = max mu0 (1 / 100); sigma = max sigma0 (1 / 100);
          variance = sigma * sigma;
          sigma_ln = f_sqrt env (f_ln env (1 + variance / (mu * mu)));
          mu_ln = f_ln env (mu * mu / f_sqrt env (mu * mu + variance));
          sigma_ln1 = max sigma_ln (1 / 100);
          mu_ln1 = (if f_is_finite env mu_ln then mu_ln else 1 / 100)
      in case lognormal env mu_ln1 sigma_ln1 of
           Some sample \<Rightarrow> (let (x, r) = sample (eng_rng eng)
                           in (min (max x (1 / 10)) 200, eng\<lparr>eng_rng := r\<rparr>))
         | None \<Rightarrow> (max mu (1 / 10), eng))"

definition advance_time ::
    "('f::floor_ceiling, 'j, 'r, 'd, 'art, 'ctx) engine_env \<Rightarrow> int \<Rightarrow> ('f, 'j, 'r, 'd) AuditFsmEngine
     \<Rightarrow> int \<times> ('f, 'j, 'r, 'd) AuditFsmEngine" where
  "advance_time env current eng =
     (let timing = td_timing (tc_defaults (ov_transitions (eng_overlay eng)));
          (hours, eng1) = sample_lognormal_hours env (tim_mu_hours timing) (tim_sigma_hours timing) eng
      in (current + \<lfloor>hours * 60\<rfloor>, eng1))"

definition advance_step_time ::
    "('f::floor_ceiling, 'j, 'r, 'd, 'art, 'ctx) engine_env \<Rightarrow> int \<Rightarrow> ('f, 'j, 'r, 'd) AuditFsmEngine
     \<Rightarrow> int \<times> ('f, 'j, 'r, 'd) AuditFsmEngine" where
  "advance_step_time env current eng =
     (let (hours, eng1) = sample_lognormal_hours env 1 (1 / 2) eng
      in (current + \<lfloor>hours * 60\<rfloor>, eng1))"

section \<open>Choices\<close>

definition state_index :: "string list \<Rightarrow> string \<Rightarrow> nat" where
  "state_index states s = (if s \<in> set states then length (takeWhile (\<lambda>x. x \<noteq> s) states) else 0)"

definition select_transition ::
    "('f::floor_ceiling, 'j, 'r, 'd, 'art, 'ctx) engine_env \<Rightarrow> ProcedureTransition list \<Rightarrow> string list
     \<Rightarrow> ('f, 'j, 'r, 'd) AuditFsmEngine \<Rightarrow> ProcedureTransition \<times> ('f, 'j, 'r, 'd) AuditFsmEngine" where
  "select_transition env outgoing states eng =
     (if length outgoing = 1 then (hd outgoing, eng)
      else
        (let revision_prob = td_revision_probability (tc_defaults (ov_transitions (eng_overlay eng)));
             (roll, r) = random_f64 env (eng_rng eng);
             eng1 = eng\<lparr>eng_rng := r\<rparr>;
             from_idx = state_index states (tn_from_state (hd outgoing));
             forward = find (\<lambda>t. state_index states (tn_to_state t) > from_idx) outgoing;
             backward = find (\<lambda>t. state_index states (tn_to_state t) \<le> from_idx) outgoing
         in case (if roll < revision_prob then backward else None) of
              Some rev_t \<Rightarrow> (rev_t, eng1)
            | None \<Rightarrow> (unwrap_or forward (hd outgoing), eng1)))"

text \<open>The bound on self-loops: the transition to take with the new count, or \<open>None\<close> when the
  loop over the procedure ends.\<close>

definition bound_self_loop ::
    "nat \<Rightarrow> ProcedureTransition list \<Rightarrow> ProcedureTransition \<Rightarrow> nat \<Rightarrow> (ProcedureTransition \<times> nat) option" where
  "bound_self_loop max_self_loop outgoing t self_loop_count =
     (if tn_from_state t = tn_to_state t
      then (let c = self_loop_count + 1
            in if c \<ge> max_self_loop
               then map_option (\<lambda>forward. (forward, 0)) (find (\<lambda>t. tn_from_state t \<noteq> tn_to_state t) outgoing)
               else Some (t, c))
      else Some (t, 0))"

definition select_actor_for_transition ::
    "('f, 'j) AuditBlueprint \<Rightarrow> ProcedureTransition \<Rightarrow> ('f, 'j) BlueprintProcedure \<Rightarrow> string" where
  "select_actor_for_transition bp t p =
     (let cmd = unwrap_or (tn_command t) []
      in if contains cmd ''approve'' \<or> contains cmd ''issue''
         then (case bp_actors bp of [] \<Rightarrow> ''engagement_partner'' | a # _ \<Rightarrow> act_id a)
         else (case (case pr_steps p of [] \<Rightarrow> None | s # _ \<Rightarrow> st_actor s) of
                 Some a \<Rightarrow> a
               | None \<Rightarrow> if bp_actors bp = [] then ''audit_staff'' else act_id (last (bp_actors bp))))"

definition should_skip_procedure :: "'f GenerationOverlay \<Rightarrow> ('f, 'j) BlueprintProcedure \<Rightarrow> bool" where
  "should_skip_procedure overlay p =
     (case ov_discriminators overlay of
        None \<Rightarrow> False
      | Some overlay_discs \<Rightarrow>
          pr_discriminators p \<noteq> [] \<and>
          list_ex (\<lambda>(category, filter_values).
            case map_of (pr_discriminators p) category of
              None \<Rightarrow> False
            | Some proc_values \<Rightarrow> \<not> list_ex (\<lambda>v. v \<in> set filter_values) proc_values) overlay_discs)"

section \<open>Steps\<close>

definition anomaly_checks :: "'f AnomalyConfig \<Rightarrow> ('f \<times> AuditAnomalyType \<times> AnomalySeverity \<times> string) list" where
  "anomaly_checks cfg =
     [(an_skipped_approval cfg, SkippedApproval, High, ''Approval step was skipped''),
      (an_late_posting cfg, LatePosting, Medium, ''Step was posted late''),
      (an_missing_evidence cfg, MissingEvidence, High, ''Required evidence was not attached''),
      (an_out_of_sequence cfg, OutOfSequence, Medium, ''Step executed out of defined sequence'')]"

fun run_anomaly_checks ::
    "('f::floor_ceiling, 'j, 'r, 'd, 'art, 'ctx) engine_env
     \<Rightarrow> ('f \<times> AuditAnomalyType \<times> AnomalySeverity \<times> string) list \<Rightarrow> string \<Rightarrow> string \<Rightarrow> int
     \<Rightarrow> AuditAnomalyRecord list \<Rightarrow> ('f, 'j, 'r, 'd) AuditFsmEngine
     \<Rightarrow> (bool \<times> AuditAnomalyType option) \<times> AuditAnomalyRecord list \<times> ('f, 'j, 'r, 'd) AuditFsmEngine" where
  "run_anomaly_checks env [] proc_id step_id ts anomalies eng = ((False, None), anomalies, eng)"
| "run_anomaly_checks env ((prob, ty, severity, desc) # checks) proc_id step_id ts anomalies eng =
     (let (roll, r) = random_f64 env (eng_rng eng); eng1 = eng\<lparr>eng_rng := r\<rparr>
      in if roll < prob then
           (let (bytes, r2) = random_bytes env (eng_rng eng1)
            in ((True, Some ty),
                anomalies @ [\<lparr>aar_anomaly_id = from_random_bytes bytes, aar_anomaly_type = ty,
                   aar_severity = severity, aar_procedure_id = proc_id, aar_step_id = Some step_id,
                   aar_timestamp = ts, aar_description = desc\<rparr>],
                eng1\<lparr>eng_rng := r2\<rparr>))
         else run_anomaly_checks env checks proc_id step_id ts anomalies eng1)"

definition check_anomaly_injection ::
    "('f::floor_ceiling, 'j, 'r, 'd, 'art, 'ctx) engine_env \<Rightarrow> string \<Rightarrow> string \<Rightarrow> int
     \<Rightarrow> AuditAnomalyRecord list \<Rightarrow> ('f, 'j, 'r, 'd) AuditFsmEngine
     \<Rightarrow> (bool \<times> AuditAnomalyType option) \<times> AuditAnomalyRecord list \<times> ('f, 'j, 'r, 'd) AuditFsmEngine" where
  "check_anomaly_injection env proc_id step_id ts anomalies eng =
     run_anomaly_checks env (anomaly_checks (ov_anomalies (eng_overlay eng))) proc_id step_id ts anomalies eng"

definition add_evidence ::
    "StepEvidence \<Rightarrow> AuditEventBuilder \<times> (string \<times> string) list \<Rightarrow> AuditEventBuilder \<times> (string \<times> string) list" where
  "add_evidence ev bs =
     (case se_template_ref ev of
        None \<Rightarrow> bs
      | Some r \<Rightarrow> (evidence_ref (er_ref_id r) (fst bs), AList.update (er_ref_id r) (se_direction ev) (snd bs)))"

definition step_builder :: "string \<Rightarrow> string \<Rightarrow> 'j BlueprintStep \<Rightarrow> int \<Rightarrow> AuditEventBuilder" where
  "step_builder proc_id phase_id s ts =
     new_builder\<lparr>eb_event_type := ''procedure_step'', eb_procedure_id := proc_id,
       eb_step_id := Some (st_id s), eb_phase_id := phase_id,
       eb_actor_id := unwrap_or (st_actor s) ''audit_staff'',
       eb_command := unwrap_or (st_command s) (''execute_'' @ st_id s), eb_timestamp := Some ts\<rparr>"

definition execute_step ::
    "('f::floor_ceiling, 'j, 'r, 'd, 'art, 'ctx) engine_env \<Rightarrow> 'ctx \<Rightarrow> string \<Rightarrow> string \<Rightarrow> 'j BlueprintStep
     \<Rightarrow> ('f, 'j, 'r, 'd) AuditFsmEngine \<times> 'art RunAccum \<Rightarrow> ('f, 'j, 'r, 'd) AuditFsmEngine \<times> 'art RunAccum" where
  "execute_step env ctx proc_id phase_id s = (\<lambda>(eng, acc).
     (let (ts, eng1) = advance_step_time env (ra_current_ts acc) eng;
          ((is_anomaly, ty), anomalies, eng2) =
            check_anomaly_injection env proc_id (st_id s) ts (ra_anomalies acc) eng1;
          (b1, evidence) = fold add_evidence (st_evidence s)
            (step_builder proc_id phase_id s ts, ra_evidence_states acc);
          b2 = fold (\<lambda>r. standard_ref (ss_ref_id r)) (st_standards s) b1;
          b3 = (case (if is_anomaly then ty else None) of Some a \<Rightarrow> anomaly a b2 | None \<Rightarrow> b2);
          (event, eng3) = build_with_rng env b3 eng2;
          (disp, art) = dispatch env s proc_id ctx (eng_dispatcher eng3, ra_artifacts acc)
      in (eng3\<lparr>eng_dispatcher := disp\<rparr>,
          acc\<lparr>ra_current_ts := ts, ra_anomalies := anomalies, ra_evidence_states := evidence,
              ra_event_log := ra_event_log acc @ [event], ra_artifacts := art,
              ra_step_completions := AList.update (st_id s) True (ra_step_completions acc)\<rparr>)))"

definition execute_steps ::
    "('f::floor_ceiling, 'j, 'r, 'd, 'art, 'ctx) engine_env \<Rightarrow> 'ctx \<Rightarrow> ('f, 'j) BlueprintProcedure \<Rightarrow> string
     \<Rightarrow> ('f, 'j, 'r, 'd) AuditFsmEngine \<times> 'art RunAccum \<Rightarrow> ('f, 'j, 'r, 'd) AuditFsmEngine \<times> 'art RunAccum" where
  "execute_steps env ctx p phase_id st = fold (execute_step env ctx (pr_id p) phase_id) (pr_steps p) st"

section \<open>Procedures\<close>

definition transition_builder ::
    "string \<Rightarrow> string \<Rightarrow> string \<Rightarrow> ProcedureTransition \<Rightarrow> string \<Rightarrow> int \<Rightarrow> AuditEventBuilder" where
  "transition_builder proc_id phase_id current_state t actor_id ts =
     new_builder\<lparr>eb_event_type := ''state_transition'', eb_procedure_id := proc_id,
       eb_phase_id := phase_id, eb_from_state := Some current_state,
       eb_to_state := Some (tn_to_state t), eb_actor_id := actor_id,
       eb_command := unwrap_or (tn_command t) ''transition'', eb_timestamp := Some ts\<rparr>"

text \<open>One pass of the loop after the transition has been chosen.\<close>

definition take_transition ::
    "('f::floor_ceiling, 'j, 'r, 'd, 'art, 'ctx) engine_env \<Rightarrow> 'ctx \<Rightarrow> string \<Rightarrow> string \<Rightarrow> ('f, 'j) BlueprintProcedure
     \<Rightarrow> string \<Rightarrow> ProcedureTransition \<Rightarrow> ('f, 'j, 'r, 'd) AuditFsmEngine \<times> 'art RunAccum
     \<Rightarrow> ('f, 'j, 'r, 'd) AuditFsmEngine \<times> 'art RunAccum" where
  "take_transition env ctx proc_id phase_id p current_state t = (\<lambda>(eng, acc).
     (let actor_id = select_actor_for_transition (eng_blueprint eng) t p;
          (event, eng1) = build_with_rng env
            (transition_builder proc_id phase_id current_state t actor_id (ra_current_ts acc)) eng;
          next_state = tn_to_state t;
          acc1 = acc\<lparr>ra_event_log := ra_event_log acc @ [event],
                     ra_procedure_states := AList.update proc_id next_state (ra_procedure_states acc)\<rparr>;
          states = agg_states (pr_aggregate p);
          work_state = (if 1 < length states then states ! 1 else ''in_progress'');
          is_self_loop = (current_state = next_state);
          entering_work = (next_state = work_state \<and> current_state \<noteq> work_state);
          (eng2, acc2) = (if entering_work \<or> is_self_loop
                          then execute_steps env ctx p phase_id (eng1, acc1) else (eng1, acc1));
          (ts, eng3) = advance_time env (ra_current_ts acc2) eng2
      in (eng3, acc2\<lparr>ra_current_ts := ts\<rparr>)))"

text \<open>The loop, on the number of iterations that are left.\<close>

fun procedure_loop ::
    "('f::floor_ceiling, 'j, 'r, 'd, 'art, 'ctx) engine_env \<Rightarrow> 'ctx \<Rightarrow> string \<Rightarrow> string \<Rightarrow> ('f, 'j) BlueprintProcedure
     \<Rightarrow> nat \<Rightarrow> string \<Rightarrow> nat \<Rightarrow> ('f, 'j, 'r, 'd) AuditFsmEngine \<times> 'art RunAccum
     \<Rightarrow> ('f, 'j, 'r, 'd) AuditFsmEngine \<times> 'art RunAccum" where
  "procedure_loop env ctx proc_id phase_id p 0 current_state self_loop_count st = st"
| "procedure_loop env ctx proc_id phase_id p (Suc n) current_state self_loop_count st =
     (let outgoing = filter (\<lambda>t. tn_from_state t = current_state) (agg_transitions (pr_aggregate p))
      in if outgoing = [] then st
         else
           (let (t, eng1) = select_transition env outgoing (agg_states (pr_aggregate p)) (fst st)
            in case bound_self_loop (ov_max_self_loop_iterations (eng_overlay (fst st))) outgoing t self_loop_count of
                 None \<Rightarrow> (eng1, snd st)
               | Some (t1, c) \<Rightarrow>
                   procedure_loop env ctx proc_id phase_id p n (tn_to_state t1) c
                     (take_transition env ctx proc_id phase_id p current_state t1 (eng1, snd st))))"

definition max_iterations :: "'f GenerationOverlay \<Rightarrow> string \<Rightarrow> nat" where
  "max_iterations overlay proc_id =
     unwrap_or (map_of (il_per_procedure (ov_iteration_limits overlay)) proc_id)
       (il_default (ov_iteration_limits overlay))"

definition proc_lookup :: "('f, 'j) AuditBlueprint \<Rightarrow> (string \<times> string \<times> ('f, 'j) BlueprintProcedure) list" where
  "proc_lookup bp =
     fold (\<lambda>ph m. fold (\<lambda>p. AList.update (pr_id p) (ph_id ph, p)) (ph_procedures ph) m) (bp_phases bp) []"

definition run_procedure ::
    "('f::floor_ceiling, 'j, 'r, 'd, 'art, 'ctx) engine_env \<Rightarrow> 'ctx \<Rightarrow> string
     \<Rightarrow> ('f, 'j, 'r, 'd) AuditFsmEngine \<times> 'art RunAccum \<Rightarrow> ('f, 'j, 'r, 'd) AuditFsmEngine \<times> 'art RunAccum" where
  "run_procedure env ctx proc_id = (\<lambda>(eng, acc).
     (case map_of (proc_lookup (eng_blueprint eng)) proc_id of
        None \<Rightarrow> (eng, acc)
      | Some (phase_id, p) \<Rightarrow>
          if should_skip_procedure (eng_overlay eng) p then (eng, acc)
          else if agg_initial_state (pr_aggregate p) = [] \<or> agg_states (pr_aggregate p) = [] then (eng, acc)
          else
            procedure_loop env ctx proc_id phase_id p (max_iterations (eng_overlay eng) proc_id)
              (agg_initial_state (pr_aggregate p)) 0
              (eng, acc\<lparr>ra_procedure_states :=
                 AList.update proc_id (agg_initial_state (pr_aggregate p)) (ra_procedure_states acc)\<rparr>)))"

section \<open>Engagements\<close>

definition condition_met :: "(string \<times> string) list \<Rightarrow> GateCondition \<Rightarrow> bool" where
  "condition_met procedure_states c =
     (case splitn 3 (cond_predicate c) of
        a # proc_id # required_state # _ \<Rightarrow>
          a = ''procedure'' \<and> map_of procedure_states proc_id = Some required_state
      | _ \<Rightarrow> False)"

definition phase_complete :: "(string \<times> string) list \<Rightarrow> ('f, 'j) BlueprintPhase \<Rightarrow> bool" where
  "phase_complete procedure_states ph =
     (\<not> (case ph_order ph of None \<Rightarrow> False | Some ord \<Rightarrow> sint ord < 0) \<and>
      (case ph_exit_gate ph of
         None \<Rightarrow> True
       | Some gate \<Rightarrow> list_all (condition_met procedure_states) (gate_all_of gate)))"

definition compute_completed_phases :: "('f, 'j) AuditBlueprint \<Rightarrow> (string \<times> string) list \<Rightarrow> string list" where
  "compute_completed_phases bp procedure_states =
     map ph_id (filter (phase_complete procedure_states) (bp_phases bp))"

definition start_minutes :: "('f, 'j, 'r, 'd, 'art, 'ctx) engine_env \<Rightarrow> 'ctx \<Rightarrow> int" where
  "start_minutes env ctx = engagement_start env ctx * (24 * 60) + 9 * 60"

definition new_accum :: "('f, 'j, 'r, 'd, 'art, 'ctx) engine_env \<Rightarrow> 'ctx \<Rightarrow> 'art RunAccum" where
  "new_accum env ctx =
     \<lparr>ra_event_log = [], ra_procedure_states = [], ra_step_completions = [], ra_evidence_states = [],
      ra_anomalies = [], ra_artifacts = empty_bag env, ra_current_ts = start_minutes env ctx\<rparr>"

definition engagement_result ::
    "('f::floor_ceiling, 'j, 'r, 'd, 'art, 'ctx) engine_env \<Rightarrow> 'ctx \<Rightarrow> ('f, 'j) AuditBlueprint \<Rightarrow> 'art RunAccum
     \<Rightarrow> ('f, 'art) EngagementResult" where
  "engagement_result env ctx bp acc =
     \<lparr>res_event_log = ra_event_log acc, res_procedure_states = ra_procedure_states acc,
      res_step_completions = ra_step_completions acc, res_evidence_states = ra_evidence_states acc,
      res_anomalies = ra_anomalies acc,
      res_phases_completed = compute_completed_phases bp (ra_procedure_states acc),
      res_total_duration_hours = of_int (ra_current_ts acc - start_minutes env ctx) / 60,
      res_artifacts = ra_artifacts acc\<rparr>"

definition run_engagement ::
    "('f::floor_ceiling, 'j, 'r, 'd, 'art, 'ctx) engine_env \<Rightarrow> 'ctx \<Rightarrow> ('f, 'j, 'r, 'd) AuditFsmEngine
     \<Rightarrow> (AuditFsmError, ('f, 'art) EngagementResult) result \<times> ('f, 'j, 'r, 'd) AuditFsmEngine" where
  "run_engagement env ctx eng =
     (case bwp_topological_sort \<lparr>bwp_blueprint = eng_blueprint eng, bwp_preconditions = eng_preconditions eng\<rparr> of
        Inl e \<Rightarrow> (Inl e, eng)
      | Inr exec_order \<Rightarrow>
          (case fold (run_procedure env ctx) exec_order (eng, new_accum env ctx) of
             (eng', acc) \<Rightarrow> (Inr (engagement_result env ctx (eng_blueprint eng) acc), eng')))"

section \<open>Proofs\<close>

section \<open>What the operations leave alone\<close>

text \<open>The blueprint, the overlay and the preconditions are never assigned.\<close>

definition same_config :: "('f, 'j, 'r, 'd) AuditFsmEngine \<Rightarrow> ('f, 'j, 'r, 'd) AuditFsmEngine \<Rightarrow> bool" where
  "same_config eng eng' \<longleftrightarrow> eng_blueprint eng' = eng_blueprint eng \<and> eng_overlay eng' = eng_overlay eng \<and>
     eng_preconditions eng' = eng_preconditions eng"

lemma same_config_refl [simp]: "same_config eng eng"
  by (simp add: same_config_def)

lemma same_config_trans: "same_config a b \<Longrightarrow> same_config b c \<Longrightarrow> same_config a c"
  by (simp add: same_config_def)

lemma build_with_rng_config: "build_with_rng env b eng = (e, eng') \<Longrightarrow> same_config eng eng' \<and> (\<exists>bytes. e = build_event bytes b)"
  by (auto simp: build_with_rng_def same_config_def Let_def split: prod.splits)

lemma sample_lognormal_hours_config:
  "sample_lognormal_hours env mu sigma eng = (x, eng') \<Longrightarrow> same_config eng eng' \<and> 0 \<le> x"
  by (auto simp: sample_lognormal_hours_def same_config_def Let_def le_max_iff_disj split: option.splits prod.splits)

lemma advance_time_config: "advance_time env ts eng = (ts', eng') \<Longrightarrow> same_config eng eng' \<and> ts \<le> ts'"
  by (auto simp: advance_time_def Let_def split: prod.splits dest!: sample_lognormal_hours_config)

lemma advance_step_time_config: "advance_step_time env ts eng = (ts', eng') \<Longrightarrow> same_config eng eng' \<and> ts \<le> ts'"
  by (auto simp: advance_step_time_def Let_def split: prod.splits dest!: sample_lognormal_hours_config)

lemma select_transition_config:
  assumes "select_transition env outgoing states eng = (t, eng')" "outgoing \<noteq> []"
  shows "same_config eng eng'" "t \<in> set outgoing"
  using assms
  by (auto simp: select_transition_def same_config_def Let_def find_Some_iff unwrap_or_def
      split: if_splits option.splits prod.splits)

lemma bound_self_loop_Some:
  assumes "bound_self_loop m outgoing t c = Some (t1, c1)" "t \<in> set outgoing"
  shows "t1 \<in> set outgoing \<and> (tn_from_state t1 = tn_to_state t1 \<longrightarrow> c + 1 < m) \<and>
    c1 = (if tn_from_state t1 = tn_to_state t1 then c + 1 else 0)"
  using assms
  by (auto simp: bound_self_loop_def Let_def find_Some_iff split: if_splits)

lemma run_anomaly_checks_config:
  "run_anomaly_checks env checks pid sid ts as eng = (r, as', eng') \<Longrightarrow> same_config eng eng'"
proof (induction env checks pid sid ts as eng rule: run_anomaly_checks.induct)
  case (2 env prob ty severity desc checks pid sid ts as eng)
  obtain roll r1 where r: "random_f64 env (eng_rng eng) = (roll, r1)" by force
  show ?case
    using 2(2) 2(1)[OF r[symmetric] refl refl] r
    by (auto simp: same_config_def Let_def split: if_splits prod.splits)
qed simp

lemma fold_add_evidence_builder:
  "fst (fold add_evidence evs (b, m)) =
   b\<lparr>eb_evidence_refs := eb_evidence_refs b @ map er_ref_id (List.map_filter se_template_ref evs)\<rparr>"
proof (induction evs arbitrary: b m)
  case (Cons ev evs)
  then show ?case
    by (cases "se_template_ref ev") (simp_all add: add_evidence_def evidence_ref_def map_filter_simps)
qed (simp add: map_filter_simps)

lemma fold_standard_ref:
  "fold (\<lambda>r. standard_ref (ss_ref_id r)) rs b =
   b\<lparr>eb_standards_refs := eb_standards_refs b @ map ss_ref_id rs\<rparr>"
  by (induction rs arbitrary: b) (auto simp: standard_ref_def)

text \<open>The event of a step, and what executing a step does to the accumulator.\<close>

definition step_event_of :: "string \<Rightarrow> string \<Rightarrow> 'j BlueprintStep \<Rightarrow> AuditEvent \<Rightarrow> bool" where
  "step_event_of proc_id phase_id s e \<longleftrightarrow>
     ae_event_type e = ''procedure_step'' \<and> ae_procedure_id e = proc_id \<and> ae_phase_id e = phase_id \<and>
     ae_step_id e = Some (st_id s) \<and> ae_from_state e = None \<and> ae_to_state e = None \<and>
     ae_evidence_refs e = map er_ref_id (List.map_filter se_template_ref (st_evidence s)) \<and>
     ae_standards_refs e = map ss_ref_id (st_standards s) \<and>
     ae_is_anomaly e = (ae_anomaly_type e \<noteq> None)"

lemma step_event_built:
  "step_event_of proc_id phase_id s
     (build_event bytes
       (case a of None \<Rightarrow> fold (\<lambda>r. standard_ref (ss_ref_id r)) (st_standards s)
            ((step_builder proc_id phase_id s ts)\<lparr>eb_evidence_refs :=
               map er_ref_id (List.map_filter se_template_ref (st_evidence s))\<rparr>)
        | Some y \<Rightarrow> anomaly y (fold (\<lambda>r. standard_ref (ss_ref_id r)) (st_standards s)
            ((step_builder proc_id phase_id s ts)\<lparr>eb_evidence_refs :=
               map er_ref_id (List.map_filter se_template_ref (st_evidence s))\<rparr>))))"
  by (cases a)
     (simp_all add: step_event_of_def build_event_def fold_standard_ref step_builder_def new_builder_def anomaly_def)

definition anomaly_key :: "AuditAnomalyRecord \<Rightarrow> AuditAnomalyType \<times> string \<times> string option \<times> int" where
  "anomaly_key a = (aar_anomaly_type a, aar_procedure_id a, aar_step_id a, aar_timestamp a)"

definition event_keys :: "AuditEvent \<Rightarrow> (AuditAnomalyType \<times> string \<times> string option \<times> int) list" where
  "event_keys e = (case ae_anomaly_type e of
      None \<Rightarrow> [] | Some ty \<Rightarrow> [(ty, ae_procedure_id e, ae_step_id e, ae_timestamp e)])"

lemma run_anomaly_checks_record:
  "run_anomaly_checks env checks pid sid ts as eng = ((b, ty), as', eng') \<Longrightarrow>
   b = (ty \<noteq> None) \<and>
   map anomaly_key as' = map anomaly_key as @ (case ty of None \<Rightarrow> [] | Some t \<Rightarrow> [(t, pid, Some sid, ts)])"
proof (induction env checks pid sid ts as eng rule: run_anomaly_checks.induct)
  case (2 env prob ty' severity desc checks pid sid ts as eng)
  obtain roll r1 where r: "random_f64 env (eng_rng eng) = (roll, r1)" by force
  show ?case
    using 2(2) 2(1)[OF r[symmetric] refl] r
    by (auto simp: Let_def anomaly_key_def split: if_splits prod.splits)
qed simp

lemma execute_step_effect:
  assumes "execute_step env ctx pid ph s (eng, acc) = (eng', acc')"
  shows "same_config eng eng'"
    and "\<exists>e. ra_event_log acc' = ra_event_log acc @ [e] \<and> step_event_of pid ph s e \<and>
           ae_timestamp e = ra_current_ts acc' \<and>
           map anomaly_key (ra_anomalies acc') = map anomaly_key (ra_anomalies acc) @ event_keys e"
    and "ra_current_ts acc \<le> ra_current_ts acc'"
    and "ra_procedure_states acc' = ra_procedure_states acc"
    and "ra_step_completions acc' = AList.update (st_id s) True (ra_step_completions acc)"
proof -
  obtain ts eng1 where ts: "advance_step_time env (ra_current_ts acc) eng = (ts, eng1)" by force
  obtain b ty as eng2 where an: "check_anomaly_injection env pid (st_id s) ts (ra_anomalies acc) eng1 = ((b, ty), as, eng2)"
    by (metis prod.exhaust)
  obtain b1 m where ev: "fold add_evidence (st_evidence s) (step_builder pid ph s ts, ra_evidence_states acc) = (b1, m)"
    by force
  let ?b2 = "fold (\<lambda>r. standard_ref (ss_ref_id r)) (st_standards s) b1"
  let ?b3 = "case (if b then ty else None) of Some a \<Rightarrow> anomaly a ?b2 | None \<Rightarrow> ?b2"
  obtain e eng3 where e: "build_with_rng env ?b3 eng2 = (e, eng3)" by force
  obtain disp art where d: "dispatch env s pid ctx (eng_dispatcher eng3, ra_artifacts acc) = (disp, art)" by force
  have res: "eng' = eng3\<lparr>eng_dispatcher := disp\<rparr>"
    "acc' = acc\<lparr>ra_current_ts := ts, ra_anomalies := as, ra_evidence_states := m,
              ra_event_log := ra_event_log acc @ [e], ra_artifacts := art,
              ra_step_completions := AList.update (st_id s) True (ra_step_completions acc)\<rparr>"
    using assms ts an ev e d by (simp_all add: execute_step_def Let_def)
  note c1 = advance_step_time_config[OF ts]
  note rec = run_anomaly_checks_record[OF an[unfolded check_anomaly_injection_def]]
  note c2 = run_anomaly_checks_config[OF an[unfolded check_anomaly_injection_def]]
  obtain bytes where bytes: "e = build_event bytes ?b3" and c3: "same_config eng2 eng3"
    using build_with_rng_config[OF e] by blast
  have b1: "b1 = (step_builder pid ph s ts)\<lparr>eb_evidence_refs := map er_ref_id (List.map_filter se_template_ref (st_evidence s))\<rparr>"
    using fold_add_evidence_builder[of "st_evidence s" "step_builder pid ph s ts" "ra_evidence_states acc"]
    unfolding ev fst_conv by (simp add: step_builder_def new_builder_def)
  have se: "step_event_of pid ph s e"
    unfolding bytes b1 by (rule step_event_built)
  have et: "ae_timestamp e = ts" "ae_anomaly_type e = ty"
    using rec unfolding bytes b1
    by (auto simp: build_event_def fold_standard_ref step_builder_def new_builder_def anomaly_def split: option.splits)
  show "same_config eng eng'" using c1 c2 c3 by (simp add: res same_config_def)
  have "event_keys e = (case ty of None \<Rightarrow> [] | Some t \<Rightarrow> [(t, pid, Some (st_id s), ts)])"
    using se et by (simp add: event_keys_def step_event_of_def split: option.split)
  then show "\<exists>e. ra_event_log acc' = ra_event_log acc @ [e] \<and> step_event_of pid ph s e \<and>
           ae_timestamp e = ra_current_ts acc' \<and>
           map anomaly_key (ra_anomalies acc') = map anomaly_key (ra_anomalies acc) @ event_keys e"
    using se et rec by (simp add: res)
  show "ra_current_ts acc \<le> ra_current_ts acc'" "ra_procedure_states acc' = ra_procedure_states acc"
    "ra_step_completions acc' = AList.update (st_id s) True (ra_step_completions acc)"
    using c1 by (simp_all add: res)
qed

text \<open>What every part of the walk does to the accumulator: events are appended, one anomaly
  record is appended for each of them that carries an anomaly, the time stamps do not go back,
  and the steps of the new events are completed.\<close>

definition completions_ok :: "'art RunAccum \<Rightarrow> bool" where
  "completions_ok acc \<longleftrightarrow>
     (\<forall>i. map_of (ra_step_completions acc) i =
       (if Some i \<in> ae_step_id ` set (ra_event_log acc) then Some True else None))"

definition appends :: "'art RunAccum \<Rightarrow> AuditEvent list \<Rightarrow> 'art RunAccum \<Rightarrow> bool" where
  "appends acc evs acc' \<longleftrightarrow>
     ra_event_log acc' = ra_event_log acc @ evs \<and>
     map anomaly_key (ra_anomalies acc') = map anomaly_key (ra_anomalies acc) @ concat (map event_keys evs) \<and>
     sorted (ra_current_ts acc # map ae_timestamp evs @ [ra_current_ts acc']) \<and>
     (completions_ok acc \<longrightarrow> completions_ok acc')"

lemma appends_refl [simp]: "appends acc [] acc"
  by (simp add: appends_def)

lemma appends_trans: "appends a es b \<Longrightarrow> appends b fs c \<Longrightarrow> appends a (es @ fs) c"
  unfolding appends_def by (auto simp: sorted_append intro: order_trans)

lemma appends_states:
  "appends (acc\<lparr>ra_procedure_states := x\<rparr>) evs acc' \<longleftrightarrow> appends acc evs acc'"
  "appends acc evs (acc'\<lparr>ra_procedure_states := y\<rparr>) \<longleftrightarrow> appends acc evs acc'"
  by (simp_all add: appends_def completions_ok_def)

lemma appends_later: "appends acc evs acc' \<Longrightarrow> ra_current_ts acc' \<le> ts \<Longrightarrow> appends acc evs (acc'\<lparr>ra_current_ts := ts\<rparr>)"
  by (auto simp: appends_def completions_ok_def sorted_append intro: order_trans)

lemma execute_step_appends:
  assumes "execute_step env ctx pid ph s (eng, acc) = (eng', acc')"
  shows "same_config eng eng'" "ra_procedure_states acc' = ra_procedure_states acc"
    "\<exists>e. step_event_of pid ph s e \<and> appends acc [e] acc'"
proof -
  note eff = execute_step_effect[OF assms]
  show "same_config eng eng'" "ra_procedure_states acc' = ra_procedure_states acc" by (fact eff)+
  obtain e where e: "ra_event_log acc' = ra_event_log acc @ [e]" "step_event_of pid ph s e"
    "ae_timestamp e = ra_current_ts acc'"
    "map anomaly_key (ra_anomalies acc') = map anomaly_key (ra_anomalies acc) @ event_keys e"
    using eff(2) by blast
  have "completions_ok acc \<longrightarrow> completions_ok acc'"
    using e(1,2) by (auto simp: completions_ok_def eff(5) update_conv' step_event_of_def)
  then show "\<exists>e. step_event_of pid ph s e \<and> appends acc [e] acc'"
    using e eff(3) by (auto simp: appends_def)
qed

lemma execute_steps_effect:
  "fold (execute_step env ctx pid ph) ss (eng, acc) = (eng', acc') \<Longrightarrow>
   same_config eng eng' \<and> ra_procedure_states acc' = ra_procedure_states acc \<and>
   (\<exists>evs. list_all2 (step_event_of pid ph) ss evs \<and> appends acc evs acc')"
proof (induction ss arbitrary: eng acc)
  case (Cons s ss)
  obtain eng1 acc1 where st: "execute_step env ctx pid ph s (eng, acc) = (eng1, acc1)" by force
  obtain e where e: "step_event_of pid ph s e" "appends acc [e] acc1"
    using execute_step_appends(3)[OF st] by blast
  have "fold (execute_step env ctx pid ph) ss (eng1, acc1) = (eng', acc')" using Cons.prems st by simp
  from Cons.IH[OF this] obtain evs where "list_all2 (step_event_of pid ph) ss evs" "appends acc1 evs acc'"
    "same_config eng1 eng'" "ra_procedure_states acc' = ra_procedure_states acc1" by blast
  then show ?case
    using e appends_trans[OF e(2)] execute_step_appends(1,2)[OF st] same_config_trans
    by (intro conjI exI[of _ "e # evs"]) (fastforce)+
qed simp

definition enters_work :: "('f, 'j) BlueprintProcedure \<Rightarrow> string \<Rightarrow> string \<Rightarrow> bool" where
  "enters_work p s s' \<longleftrightarrow>
     (let work = (if 1 < length (agg_states (pr_aggregate p)) then agg_states (pr_aggregate p) ! 1 else ''in_progress'')
      in s' = work \<and> s \<noteq> work)"

definition move_event_of :: "string \<Rightarrow> string \<Rightarrow> string \<Rightarrow> ProcedureTransition \<Rightarrow> AuditEvent \<Rightarrow> bool" where
  "move_event_of proc_id phase_id s t e \<longleftrightarrow>
     ae_event_type e = ''state_transition'' \<and> ae_procedure_id e = proc_id \<and> ae_phase_id e = phase_id \<and>
     ae_step_id e = None \<and> ae_from_state e = Some s \<and> ae_to_state e = Some (tn_to_state t) \<and>
     ae_command e = unwrap_or (tn_command t) ''transition'' \<and> \<not> ae_is_anomaly e \<and> ae_anomaly_type e = None"

definition steps_run :: "('f, 'j) BlueprintProcedure \<Rightarrow> string \<Rightarrow> string \<Rightarrow> 'j BlueprintStep list" where
  "steps_run p s s' = (if enters_work p s s' \<or> s = s' then pr_steps p else [])"

lemma take_transition_effect:
  assumes "take_transition env ctx pid ph p s t (eng, acc) = (eng', acc')" "pr_id p = pid"
  shows "same_config eng eng' \<and>
    ra_procedure_states acc' = AList.update pid (tn_to_state t) (ra_procedure_states acc) \<and>
    (\<exists>e evs. move_event_of pid ph s t e \<and> list_all2 (step_event_of pid ph) (steps_run p s (tn_to_state t)) evs \<and>
       appends acc (e # evs) acc')"
proof -
  let ?b = "transition_builder pid ph s t (select_actor_for_transition (eng_blueprint eng) t p) (ra_current_ts acc)"
  obtain e eng1 where e: "build_with_rng env ?b eng = (e, eng1)" by force
  let ?acc1 = "acc\<lparr>ra_event_log := ra_event_log acc @ [e],
                   ra_procedure_states := AList.update pid (tn_to_state t) (ra_procedure_states acc)\<rparr>"
  obtain eng2 acc2 where st: "(if enters_work p s (tn_to_state t) \<or> s = tn_to_state t
      then execute_steps env ctx p ph (eng1, ?acc1) else (eng1, ?acc1)) = (eng2, acc2)" by force
  obtain ts eng3 where ts: "advance_time env (ra_current_ts acc2) eng2 = (ts, eng3)" by force
  have res: "eng' = eng3" "acc' = acc2\<lparr>ra_current_ts := ts\<rparr>"
    using assms(1) e st ts by (simp_all add: take_transition_def Let_def enters_work_def)
  obtain bytes where b: "e = build_event bytes ?b" and c1: "same_config eng eng1"
    using build_with_rng_config[OF e] by blast
  have mv: "move_event_of pid ph s t e" "ae_timestamp e = ra_current_ts acc"
    by (simp_all add: b move_event_of_def build_event_def transition_builder_def new_builder_def)
  have a1: "appends acc [e] ?acc1"
    using mv by (auto simp: appends_def completions_ok_def event_keys_def move_event_of_def)
  have "fold (execute_step env ctx pid ph) (steps_run p s (tn_to_state t)) (eng1, ?acc1) = (eng2, acc2)"
    using st assms(2) by (auto simp: steps_run_def execute_steps_def split: if_splits)
  from execute_steps_effect[OF this] obtain evs where
    "list_all2 (step_event_of pid ph) (steps_run p s (tn_to_state t)) evs" "appends ?acc1 evs acc2"
    "same_config eng1 eng2" "ra_procedure_states acc2 = ra_procedure_states ?acc1" by blast
  moreover from this have "appends acc (e # evs) acc2" using appends_trans[OF a1] by simp
  moreover from this have "same_config eng eng3"
    using \<open>same_config eng1 eng2\<close> advance_time_config[OF ts] c1 by (simp add: same_config_def)
  ultimately show ?thesis
    using advance_time_config[OF ts] mv(1)
    by (auto simp: res intro!: exI[of _ e] exI[of _ evs] appends_later)
qed

section \<open>The trail of a procedure\<close>

text \<open>The specification of a procedure's events: a path through the declared transitions, each
  followed by the steps when it enters the work state or stays where it is, with fewer than
  \<open>m\<close> self-loops in a row; \<open>c\<close> counts those just taken and \<open>n\<close> the transitions.\<close>

inductive trail :: "nat \<Rightarrow> string \<Rightarrow> ('f, 'j) BlueprintProcedure \<Rightarrow> nat \<Rightarrow> nat \<Rightarrow> string \<Rightarrow> AuditEvent list \<Rightarrow> string \<Rightarrow> bool"
  for m ph p where
  stop: "trail m ph p c 0 s [] s"
| move: "t \<in> set (agg_transitions (pr_aggregate p)) \<Longrightarrow> tn_from_state t = s \<Longrightarrow>
     (s = tn_to_state t \<longrightarrow> c + 1 < m) \<Longrightarrow>
     move_event_of (pr_id p) ph s t e \<Longrightarrow>
     list_all2 (step_event_of (pr_id p) ph) (steps_run p s (tn_to_state t)) evs \<Longrightarrow>
     trail m ph p (if s = tn_to_state t then c + 1 else 0) n (tn_to_state t) rest final \<Longrightarrow>
     trail m ph p c (Suc n) s (e # evs @ rest) final"

inductive_cases trailE: "trail m ph p c n s es final"

lemma procedure_loop_trail:
  "procedure_loop env ctx (pr_id p) ph p n s c (eng, acc) = (eng', acc') \<Longrightarrow>
   map_of (ra_procedure_states acc) (pr_id p) = Some s \<Longrightarrow>
   same_config eng eng' \<and>
   (\<exists>k evs final. k \<le> n \<and> trail (ov_max_self_loop_iterations (eng_overlay eng)) ph p c k s evs final \<and>
      appends acc evs acc' \<and>
      map_of (ra_procedure_states acc') = (map_of (ra_procedure_states acc))(pr_id p \<mapsto> final))"
proof (induction n arbitrary: s c eng acc)
  case 0
  then show ?case by (auto intro!: exI[of _ "[]"] exI[of _ s] stop)
next
  case (Suc n)
  define outgoing where "outgoing = filter (\<lambda>t. tn_from_state t = s) (agg_transitions (pr_aggregate p))"
  let ?m = "ov_max_self_loop_iterations (eng_overlay eng)"
  have stays: "\<exists>k evs final. k \<le> Suc n \<and> trail ?m ph p c k s evs final \<and> appends acc evs acc \<and>
      map_of (ra_procedure_states acc) = (map_of (ra_procedure_states acc))(pr_id p \<mapsto> final)"
    using Suc.prems(2) stop[of ?m ph p c s] by (metis appends_refl fun_upd_triv le0)
  show ?case
  proof (cases "outgoing = []")
    case True
    then have eqs: "eng' = eng" "acc' = acc"
      using Suc.prems(1) by (simp_all add: outgoing_def[symmetric])
    show ?thesis unfolding eqs using stays same_config_refl by blast
  next
    case False
    obtain t eng1 where t: "select_transition env outgoing (agg_states (pr_aggregate p)) eng = (t, eng1)" by force
    note sel = select_transition_config[OF t False]
    show ?thesis
    proof (cases "bound_self_loop ?m outgoing t c")
      case None
      then have eqs: "eng' = eng1" "acc' = acc"
        using Suc.prems(1) False t by (simp_all add: outgoing_def[symmetric])
      show ?thesis unfolding eqs using stays sel(1) by blast
    next
      case (Some tc)
      obtain t1 c1 where tc: "tc = (t1, c1)" by force
      note b = bound_self_loop_Some[OF Some[unfolded tc] sel(2)]
      obtain eng2 acc2 where tk: "take_transition env ctx (pr_id p) ph p s t1 (eng1, acc) = (eng2, acc2)" by force
      from take_transition_effect[OF tk refl] obtain e evs where eff: "same_config eng1 eng2"
        "ra_procedure_states acc2 = AList.update (pr_id p) (tn_to_state t1) (ra_procedure_states acc)"
        "move_event_of (pr_id p) ph s t1 e"
        "list_all2 (step_event_of (pr_id p) ph) (steps_run p s (tn_to_state t1)) evs" "appends acc (e # evs) acc2"
        by blast
      have upd: "map_of (ra_procedure_states acc2) = (map_of (ra_procedure_states acc))(pr_id p \<mapsto> tn_to_state t1)"
        by (simp only: eff(2) update_conv')
      have "procedure_loop env ctx (pr_id p) ph p n (tn_to_state t1) c1 (eng2, acc2) = (eng', acc')"
        using Suc.prems(1) False t Some tc tk by (simp add: outgoing_def[symmetric])
      from Suc.IH[OF this] obtain k rest final where ih: "same_config eng2 eng'" "k \<le> n"
        "trail (ov_max_self_loop_iterations (eng_overlay eng2)) ph p c1 k (tn_to_state t1) rest final"
        "appends acc2 rest acc'"
        "map_of (ra_procedure_states acc') = (map_of (ra_procedure_states acc2))(pr_id p \<mapsto> final)"
        using upd by (metis fun_upd_same)
      have m: "ov_max_self_loop_iterations (eng_overlay eng2) = ?m" "same_config eng eng'"
        using sel(1) eff(1) ih(1) by (simp_all add: same_config_def)
      have from_s: "tn_from_state t1 = s" "t1 \<in> set (agg_transitions (pr_aggregate p))"
        using b by (auto simp: outgoing_def)
      have "trail ?m ph p c (Suc k) s (e # evs @ rest) final"
        using b from_s eff(3,4) ih(3) m by (intro move[of t1]) auto
      moreover have "appends acc (e # evs @ rest) acc'"
        using appends_trans[OF eff(5) ih(4)] by simp
      ultimately show ?thesis
        using ih(2) m(2) ih(5)[unfolded upd fun_upd_upd]
        by (intro conjI exI[of _ "Suc k"] exI[of _ "e # evs @ rest"] exI[of _ final]) simp_all
    qed
  qed
qed

lemma trail_procedure_id: "trail m ph p c n s es final \<Longrightarrow> e \<in> set es \<Longrightarrow> ae_procedure_id e = pr_id p"
  by (induction rule: trail.induct)
     (auto simp: move_event_of_def step_event_of_def list_all2_conv_all_nth in_set_conv_nth)

lemma trail_moves: "trail m ph p c n s es final \<Longrightarrow> length (filter (\<lambda>e. ae_event_type e = ''state_transition'') es) = n"
proof (induction rule: trail.induct)
  case (move t s c e evs n rest final)
  have "x \<in> set evs \<Longrightarrow> ae_event_type x \<noteq> ''state_transition''" for x
    using move(5) by (auto simp: step_event_of_def list_all2_conv_all_nth in_set_conv_nth)
  then have "filter (\<lambda>e. ae_event_type e = ''state_transition'') evs = []" by (auto simp: filter_empty_conv)
  then show ?case using move by (simp add: move_event_of_def)
qed simp

section \<open>Engagements\<close>

definition runs :: "'f GenerationOverlay \<Rightarrow> ('f, 'j) BlueprintProcedure \<Rightarrow> bool" where
  "runs overlay p \<longleftrightarrow> \<not> should_skip_procedure overlay p \<and>
     agg_initial_state (pr_aggregate p) \<noteq> [] \<and> agg_states (pr_aggregate p) \<noteq> []"

text \<open>The events and the state that a procedure contributes.\<close>

definition segment_ok ::
    "('f, 'j, 'r, 'd) AuditFsmEngine \<Rightarrow> string \<Rightarrow> AuditEvent list \<Rightarrow> string option \<Rightarrow> string option \<Rightarrow> bool" where
  "segment_ok eng q evs old_state new_state \<longleftrightarrow>
     (case map_of (proc_lookup (eng_blueprint eng)) q of
        None \<Rightarrow> evs = [] \<and> new_state = old_state
      | Some (ph, p) \<Rightarrow>
          if runs (eng_overlay eng) p
          then \<exists>n final. n \<le> max_iterations (eng_overlay eng) q \<and> new_state = Some final \<and>
                 trail (ov_max_self_loop_iterations (eng_overlay eng)) ph p 0 n
                   (agg_initial_state (pr_aggregate p)) evs final
          else evs = [] \<and> new_state = old_state)"

lemma segment_ok_config:
  assumes "same_config eng eng'"
  shows "segment_ok eng' = segment_ok eng"
proof -
  have "eng_blueprint eng' = eng_blueprint eng" "eng_overlay eng' = eng_overlay eng"
    using assms by (simp_all add: same_config_def)
  then show ?thesis by (intro ext) (simp only: segment_ok_def)
qed

definition numbered_procedures :: "('f, 'j) AuditBlueprint \<Rightarrow> (string \<times> ('f, 'j) BlueprintProcedure) list" where
  "numbered_procedures bp = concat (map (\<lambda>ph. map (Pair (ph_id ph)) (ph_procedures ph)) (bp_phases bp))"

lemma proc_lookup_flat:
  "proc_lookup bp = fold (\<lambda>x. AList.update (pr_id (snd x)) x) (numbered_procedures bp) []"
proof -
  have one: "fold (\<lambda>p. AList.update (pr_id p) (i, p)) ps m =
      fold (\<lambda>x. AList.update (pr_id (snd x)) x) (map (Pair i) ps) m"
    for i :: string and ps :: "('a, 'b) BlueprintProcedure list" and m
    by (induction ps arbitrary: m) auto
  have "fold (\<lambda>ph m. fold (\<lambda>p. AList.update (pr_id p) (ph_id ph, p)) (ph_procedures ph) m) phs m =
      fold (\<lambda>x. AList.update (pr_id (snd x)) x) (concat (map (\<lambda>ph. map (Pair (ph_id ph)) (ph_procedures ph)) phs)) m"
    for phs :: "('a, 'b) BlueprintPhase list" and m
    by (induction phs arbitrary: m) (auto simp: one)
  then show ?thesis by (simp add: proc_lookup_def numbered_procedures_def)
qed

lemma fold_update_key:
  "map_of (fold (\<lambda>x. AList.update (f x) x) xs m) q = Some y \<Longrightarrow> f y = q \<and> y \<in> set xs \<or> map_of m q = Some y"
  by (induction xs arbitrary: m) (force simp: update_conv' split: if_splits)+

lemma fold_update_dom:
  "map_of (fold (\<lambda>x. AList.update (f x) x) xs m) q \<noteq> None \<longleftrightarrow> q \<in> f ` set xs \<or> map_of m q \<noteq> None"
  by (induction xs arbitrary: m) (auto simp: update_conv')

lemma numbered_procedures_snd: "map snd (numbered_procedures bp) = procedures bp"
  by (simp add: numbered_procedures_def procedures_def map_concat comp_def)

lemma proc_lookup_Some:
  assumes "map_of (proc_lookup bp) q = Some (ph, p)"
  shows "pr_id p = q \<and> p \<in> set (procedures bp)"
  using fold_update_key[OF assms[unfolded proc_lookup_flat]]
  by (auto simp: numbered_procedures_snd[symmetric] image_iff) force

lemma proc_lookup_dom: "map_of (proc_lookup bp) q \<noteq> None \<longleftrightarrow> q \<in> set (procedure_ids bp)"
  using fold_update_dom[of "\<lambda>x. pr_id (snd x)" "numbered_procedures bp" "[]" q]
  by (simp add: proc_lookup_flat procedure_ids_def image_comp flip: numbered_procedures_snd)

lemma run_procedure_segment:
  assumes "run_procedure env ctx q (eng, acc) = (eng', acc')"
  shows "same_config eng eng' \<and>
    (\<exists>evs. appends acc evs acc' \<and>
       segment_ok eng q evs (map_of (ra_procedure_states acc) q) (map_of (ra_procedure_states acc') q) \<and>
       (\<forall>e \<in> set evs. ae_procedure_id e = q)) \<and>
    (\<forall>r. r \<noteq> q \<longrightarrow> map_of (ra_procedure_states acc') r = map_of (ra_procedure_states acc) r)"
proof (cases "map_of (proc_lookup (eng_blueprint eng)) q")
  case None
  then show ?thesis using assms
    by (auto simp: run_procedure_def segment_ok_def intro!: exI[of _ "[]"])
next
  case (Some php)
  obtain ph p where php: "php = (ph, p)" by force
  have id: "pr_id p = q" using Some php proc_lookup_Some by fast
  show ?thesis
  proof (cases "runs (eng_overlay eng) p")
    case False
    then show ?thesis using assms Some php
      by (auto simp: run_procedure_def segment_ok_def runs_def split: if_splits intro!: exI[of _ "[]"])
  next
    case True
    let ?s = "agg_initial_state (pr_aggregate p)"
    let ?acc = "acc\<lparr>ra_procedure_states := AList.update q ?s (ra_procedure_states acc)\<rparr>"
    have loop: "procedure_loop env ctx (pr_id p) ph p (max_iterations (eng_overlay eng) q) ?s 0 (eng, ?acc) = (eng', acc')"
      using assms Some php True id by (auto simp: run_procedure_def runs_def)
    have "map_of (ra_procedure_states ?acc) (pr_id p) = Some ?s" by (simp add: id update_conv')
    from procedure_loop_trail[OF loop this] obtain k evs final where t: "same_config eng eng'"
      "k \<le> max_iterations (eng_overlay eng) q"
      "trail (ov_max_self_loop_iterations (eng_overlay eng)) ph p 0 k ?s evs final" "appends ?acc evs acc'"
      "map_of (ra_procedure_states acc') = (map_of (ra_procedure_states ?acc))(q \<mapsto> final)"
      using id by metis
    have "appends acc evs acc'" using t(4) by (simp add: appends_states)
    moreover have "segment_ok eng q evs (map_of (ra_procedure_states acc) q) (map_of (ra_procedure_states acc') q)"
      using t(2,3,5) True Some php by (auto simp: segment_ok_def)
    ultimately show ?thesis
      using t(1,5) trail_procedure_id[OF t(3)] id by (auto simp: update_conv')
  qed
qed

lemma run_procedures_segments:
  "fold (run_procedure env ctx) order (eng, acc) = (eng', acc') \<Longrightarrow> distinct order \<Longrightarrow>
   same_config eng eng' \<and>
   (\<exists>segs. appends acc (concat (map segs order)) acc' \<and>
      (\<forall>q \<in> set order. segment_ok eng q (segs q) (map_of (ra_procedure_states acc) q) (map_of (ra_procedure_states acc') q) \<and>
         (\<forall>e \<in> set (segs q). ae_procedure_id e = q)) \<and>
      (\<forall>q. q \<notin> set order \<longrightarrow> map_of (ra_procedure_states acc') q = map_of (ra_procedure_states acc) q))"
proof (induction order arbitrary: eng acc)
  case (Cons q order)
  obtain eng1 acc1 where r: "run_procedure env ctx q (eng, acc) = (eng1, acc1)" by force
  from run_procedure_segment[OF r] obtain evs where one: "same_config eng eng1" "appends acc evs acc1"
    "segment_ok eng q evs (map_of (ra_procedure_states acc) q) (map_of (ra_procedure_states acc1) q)"
    "\<forall>e \<in> set evs. ae_procedure_id e = q"
    "\<And>r. r \<noteq> q \<Longrightarrow> map_of (ra_procedure_states acc1) r = map_of (ra_procedure_states acc) r" by blast
  have "fold (run_procedure env ctx) order (eng1, acc1) = (eng', acc')" "distinct order"
    using Cons.prems r by simp_all
  from Cons.IH[OF this] obtain segs where rest: "same_config eng1 eng'"
    "appends acc1 (concat (map segs order)) acc'"
    "\<And>x. x \<in> set order \<Longrightarrow> segment_ok eng x (segs x) (map_of (ra_procedure_states acc1) x) (map_of (ra_procedure_states acc') x)"
    "\<And>x e. x \<in> set order \<Longrightarrow> e \<in> set (segs x) \<Longrightarrow> ae_procedure_id e = x"
    "\<And>x. x \<notin> set order \<Longrightarrow> map_of (ra_procedure_states acc') x = map_of (ra_procedure_states acc1) x"
    using segment_ok_config[OF one(1)] by metis
  let ?segs = "segs(q := evs)"
  have map_eq: "map ?segs order = map segs order" using Cons.prems(2) by (intro map_cong) auto
  have "appends acc (concat (map ?segs (q # order))) acc'"
    unfolding list.map concat.simps map_eq using appends_trans[OF one(2) rest(2)] by simp
  moreover have "segment_ok eng x (?segs x) (map_of (ra_procedure_states acc) x) (map_of (ra_procedure_states acc') x) \<and>
      (\<forall>e \<in> set (?segs x). ae_procedure_id e = x)" if "x \<in> set (q # order)" for x
  proof (cases "x = q")
    case True
    then show ?thesis using one(3,4) rest(5)[of q] Cons.prems(2) by simp
  next
    case False
    then show ?thesis using that one(5)[OF False] rest(3,4)[of x] by simp
  qed
  moreover have "map_of (ra_procedure_states acc') x = map_of (ra_procedure_states acc) x" if "x \<notin> set (q # order)" for x
    using that rest(5)[of x] one(5)[of x] by simp
  moreover have "same_config eng eng'" using one(1) rest(1) by (rule same_config_trans)
  ultimately show ?case by blast
qed (auto intro!: exI[of _ "\<lambda>_. []"])

text \<open>A finished engagement, taken apart.\<close>

definition events_of :: "string \<Rightarrow> AuditEvent list \<Rightarrow> AuditEvent list" where
  "events_of q es = filter (\<lambda>e. ae_procedure_id e = q) es"

lemma events_of_concat:
  "distinct order \<Longrightarrow> (\<And>x e. x \<in> set order \<Longrightarrow> e \<in> set (segs x) \<Longrightarrow> ae_procedure_id e = x) \<Longrightarrow>
   events_of q (concat (map segs order)) = (if q \<in> set order then segs q else [])"
proof (induction order)
  case (Cons x order)
  have "events_of q (segs x) = (if q = x then segs x else [])"
    using Cons.prems(2)[of x] by (auto simp: events_of_def filter_id_conv filter_empty_conv)
  then show ?case using Cons by (auto simp: events_of_def)
qed (simp add: events_of_def)

lemma engagement_parts:
  assumes "run_engagement env ctx eng = (Inr res, eng')"
  obtains order segs where
    "topological_sort_with_preconditions (eng_blueprint eng) (eng_preconditions eng) = Inr order"
    "distinct order" "set order = set (procedure_ids (eng_blueprint eng))"
    "res_event_log res = concat (map segs order)"
    "\<And>q. q \<in> set order \<Longrightarrow> segment_ok eng q (segs q) None (map_of (res_procedure_states res) q)"
    "\<And>q e. q \<in> set order \<Longrightarrow> e \<in> set (segs q) \<Longrightarrow> ae_procedure_id e = q"
    "\<And>q. q \<notin> set order \<Longrightarrow> map_of (res_procedure_states res) q = None"
    "\<exists>acc. appends (new_accum env ctx) (res_event_log res) acc \<and>
       res = engagement_result env ctx (eng_blueprint eng) acc"
proof -
  obtain order where order: "topological_sort_with_preconditions (eng_blueprint eng) (eng_preconditions eng) = Inr order"
    using assms by (auto simp: run_engagement_def bwp_topological_sort_def split: sum.splits)
  obtain acc where f: "fold (run_procedure env ctx) order (eng, new_accum env ctx) = (eng', acc)"
    and res: "res = engagement_result env ctx (eng_blueprint eng) acc"
    using assms order by (auto simp: run_engagement_def bwp_topological_sort_def split: prod.splits)
  note s = sort_ok_facts[OF order]
  have d: "distinct order"
    using kahn_output_done[of "procedure_ids (eng_blueprint eng)" "eng_preconditions eng"] s(1)
    by (simp add: sort_done_def)
  from run_procedures_segments[OF f d] obtain segs where sg:
    "appends (new_accum env ctx) (concat (map segs order)) acc"
    "\<forall>q \<in> set order. segment_ok eng q (segs q) (map_of (ra_procedure_states (new_accum env ctx)) q) (map_of (ra_procedure_states acc) q) \<and>
         (\<forall>e \<in> set (segs q). ae_procedure_id e = q)"
    "\<forall>q. q \<notin> set order \<longrightarrow> map_of (ra_procedure_states acc) q = map_of (ra_procedure_states (new_accum env ctx)) q"
    by blast
  have log: "res_event_log res = concat (map segs order)"
    using sg(1) by (simp add: res engagement_result_def appends_def new_accum_def)
  show thesis
    by (rule that[OF order d mset_eq_setD[OF s(2)] log])
       (use sg log in \<open>auto simp: res engagement_result_def new_accum_def\<close>)
qed

text \<open>C4. Refinement of the declared state machines: whatever the random draws and the dispatcher
  do, the events of a procedure that runs are a trail through its declared transitions from the
  initial state to the recorded final state, with all its steps in order after each entry of the
  work state and after each self-loop and at no other point, at most the configured number of
  transitions, and always fewer self-loops in a row than the configured maximum.\<close>

theorem procedure_follows_its_machine:
  assumes "run_engagement env ctx eng = (Inr res, eng')"
    and "map_of (proc_lookup (eng_blueprint eng)) q = Some (ph, p)" "runs (eng_overlay eng) p"
  shows "\<exists>n final. n \<le> max_iterations (eng_overlay eng) q \<and>
    map_of (res_procedure_states res) q = Some final \<and>
    trail (ov_max_self_loop_iterations (eng_overlay eng)) ph p 0 n
      (agg_initial_state (pr_aggregate p)) (events_of q (res_event_log res)) final"
proof -
  obtain order segs where parts: "distinct order" "set order = set (procedure_ids (eng_blueprint eng))"
    "res_event_log res = concat (map segs order)"
    "\<And>x. x \<in> set order \<Longrightarrow> segment_ok eng x (segs x) None (map_of (res_procedure_states res) x)"
    "\<And>x e. x \<in> set order \<Longrightarrow> e \<in> set (segs x) \<Longrightarrow> ae_procedure_id e = x"
    using engagement_parts[OF assms(1)] by metis
  have q: "q \<in> set order" using assms(2) proc_lookup_dom[of "eng_blueprint eng" q] parts(2) by simp
  have "events_of q (res_event_log res) = segs q"
    using events_of_concat[OF parts(1,5)] q parts(3) by simp
  then show ?thesis using parts(4)[OF q] assms(2,3) by (auto simp: segment_ok_def)
qed

text \<open>C5. Preconditions run first: after an event of a procedure the log of a finished engagement
  holds no event of any of its preconditions.\<close>

theorem preconditions_run_first:
  assumes "run_engagement env ctx eng = (Inr res, eng')"
    and "(d, q) \<in> set (precondition_edges (procedure_ids (eng_blueprint eng)) (eng_preconditions eng))"
    and "res_event_log res = xs @ e # ys" "ae_procedure_id e = q"
  shows "events_of d ys = []"
proof -
  obtain order segs where parts:
    "topological_sort_with_preconditions (eng_blueprint eng) (eng_preconditions eng) = Inr order"
    "distinct order" "res_event_log res = concat (map segs order)"
    "\<And>x e. x \<in> set order \<Longrightarrow> e \<in> set (segs x) \<Longrightarrow> ae_procedure_id e = x"
    using engagement_parts[OF assms(1)] by metis
  have log: "concat (map segs order) = xs @ e # ys" using parts(3) assms(3) by simp
  have "ae_procedure_id e' \<noteq> d" if "e' \<in> set ys" for e'
    by (rule procedure_order.segments_in_order[where f = ae_procedure_id and c = "\<lparr>bwp_blueprint = eng_blueprint eng, bwp_preconditions = eng_preconditions eng\<rparr>",
          OF _ _ parts(4) log assms(4) that]) (use parts(1) assms(2) in \<open>auto simp: bwp_topological_sort_def\<close>)
  then show ?thesis by (auto simp: events_of_def filter_empty_conv)
qed

text \<open>C36. The log of a finished engagement is consistent: time stamps never go back and start at
  or after 9:00 of the first day, the anomaly records are exactly the anomalies that the events
  carry, in order, the duration is not negative, and a step is completed exactly if the log has
  an event for it.\<close>

theorem engagement_log_is_consistent:
  assumes "run_engagement env ctx eng = (Inr res, eng')"
  shows "sorted (start_minutes env ctx # map ae_timestamp (res_event_log res)) \<and>
    map anomaly_key (res_anomalies res) = concat (map event_keys (res_event_log res)) \<and>
    0 \<le> res_total_duration_hours res \<and>
    (\<forall>i. map_of (res_step_completions res) i =
      (if Some i \<in> ae_step_id ` set (res_event_log res) then Some True else None))"
proof -
  obtain acc where a: "appends (new_accum env ctx) (res_event_log res) acc"
    "res = engagement_result env ctx (eng_blueprint eng) acc"
    using engagement_parts[OF assms] by metis
  have "completions_ok (new_accum env ctx)" by (simp add: completions_ok_def new_accum_def)
  then show ?thesis
    using a by (auto simp: appends_def engagement_result_def new_accum_def completions_ok_def sorted_append)
qed

text \<open>An engagement finishes exactly when its preconditions can be ordered; nothing after the
  sort fails.\<close>

lemma run_engagement_ok_iff:
  "is_ok (fst (run_engagement env ctx eng)) \<longleftrightarrow>
   is_ok (topological_sort_with_preconditions (eng_blueprint eng) (eng_preconditions eng))"
  by (auto simp: run_engagement_def bwp_topological_sort_def split: sum.splits prod.splits)


section \<open>Completed phases\<close>

lemma condition_met_converted:
  assumes "CHR ''.'' \<notin> set (rcond_procedure c)"
  shows "condition_met states (convert_gate_condition c) \<longleftrightarrow>
    map_of states (rcond_procedure c) = Some (rcond_state c)"
  using splitn_predicate[OF assms] by (simp add: condition_met_def convert_gate_condition_def)

definition document_phase_complete :: "(string \<times> string) list \<Rightarrow> RawPhase \<Rightarrow> bool" where
  "document_phase_complete states ph \<longleftrightarrow>
     (\<forall>ord \<in> set_option (rph_order ph). 0 \<le> sint ord) \<and>
     (\<forall>g \<in> set_option (rph_gate ph). \<forall>c \<in> set (rgate_all_of g).
        map_of states (rcond_procedure c) = Some (rcond_state c))"

definition gate_ids_plain :: "('f, 'j) RawBlueprint \<Rightarrow> bool" where
  "gate_ids_plain raw \<longleftrightarrow> (\<forall>ph \<in> set (rbp_phases raw). \<forall>g \<in> set_option (rph_gate ph).
     \<forall>c \<in> set (rgate_all_of g). CHR ''.'' \<notin> set (rcond_procedure c))"

lemma phase_complete_converted:
  assumes "\<forall>g \<in> set_option (rph_gate p). \<forall>c \<in> set (rgate_all_of g). CHR ''.'' \<notin> set (rcond_procedure c)"
    and "ph_order ph = rph_order p" "ph_exit_gate ph = map_option convert_gate (rph_gate p)"
  shows "phase_complete states ph \<longleftrightarrow> document_phase_complete states p"
  using assms condition_met_converted
  by (cases "rph_order p"; cases "rph_gate p")
     (auto simp: phase_complete_def document_phase_complete_def convert_gate_def list_all_iff)

lemma completed_phases_built:
  assumes "\<forall>p \<in> set phs. \<forall>g \<in> set_option (rph_gate p). \<forall>c \<in> set (rgate_all_of g). CHR ''.'' \<notin> set (rcond_procedure c)"
  shows "map ph_id (filter (phase_complete states) (build_phases phs m)) =
    map rph_id (filter (document_phase_complete states) phs)"
  using assms
proof (induction phs arbitrary: m)
  case (Cons p phs)
  then show ?case
    by (simp add: phase_complete_converted[of p])
qed simp


section \<open>Concrete instances\<close>

text \<open>Two procedures with two states each, the first depending on the second; a generator that
  always draws the same values.\<close>

definition sample_engine_env :: "(rat, unit, nat, unit, nat, int) engine_env" where
  "sample_engine_env =
     \<lparr>random_f64 = (\<lambda>r. (1 / 2, r + 1)), random_bytes = (\<lambda>r. (replicate 16 0, r + 1)),
      random_u64 = (\<lambda>r. (0, r + 1)), lognormal = (\<lambda>_ _. Some (\<lambda>r. (1, r + 1))),
      f_ln = id, f_sqrt = id, f_is_finite = (\<lambda>_. True), new_dispatcher = (\<lambda>_. ()),
      dispatch = (\<lambda>_ _ _ (d, art). (d, art + 1)), empty_bag = 0, engagement_start = id\<rparr>"

definition sample_fsm :: RawAggregate where
  "sample_fsm = \<lparr>ragg_initial_state = ''s0'', ragg_states = [''s0'', ''s1''],
     ragg_transitions = [\<lparr>rtn_from_state = ''s0'', rtn_to_state = ''s1'', rtn_command = None,
       rtn_emits = None, rtn_guards = []\<rparr>]\<rparr>"

definition sample_engine_doc :: "(rat, unit) RawBlueprint" where
  "sample_engine_doc =
     \<lparr>rbp_schema_version = ''1.0'', rbp_depth = None,
      rbp_methodology = \<lparr>rmeth_name = ''M'', rmeth_version = ''1'', rmeth_framework = ''ISA'', rmeth_description = None\<rparr>,
      rbp_discriminators = None, rbp_actors = [], rbp_standards_catalog = [], rbp_evidence_catalog = [],
      rbp_phases = [sample_raw_phase ''plan''],
      rbp_procedures = map (\<lambda>i. \<lparr>rpr_id = i, rpr_phase = ''plan'', rpr_title = i, rpr_discriminators = None,
        rpr_aggregate = Some sample_fsm, rpr_steps = [], rpr_preconditions = [], rpr_knowledge_refs = [],
        rpr_base_hours = None, rpr_required_roles = []\<rparr>) [''a'', ''b''],
      rbp_forms_catalog = [], rbp_standard_dependencies = [], rbp_coverage = None,
      rbp_form_enrichment = None, rbp_projections = None, rbp_reports = None\<rparr>"

definition sample_engine :: "(rat, unit, nat, unit) AuditFsmEngine" where
  "sample_engine = new_engine sample_engine_env
     \<lparr>bwp_blueprint = convert_raw_to_blueprint sample_engine_doc, bwp_preconditions = [(''a'', [''b'']), (''b'', [])]\<rparr>
     default_overlay 0"

definition sample_proc :: "string \<Rightarrow> (rat, unit) BlueprintProcedure" where
  "sample_proc i = \<lparr>pr_id = i, pr_name = i, pr_description = None, pr_discriminators = [],
     pr_aggregate = \<lparr>agg_initial_state = ''s0'', agg_states = [''s0'', ''s1''], agg_transitions =
       [\<lparr>tn_from_state = ''s0'', tn_to_state = ''s1'', tn_command = None, tn_emits = None, tn_guards = []\<rparr>]\<rparr>,
     pr_steps = [], pr_base_hours = None, pr_required_roles = []\<rparr>"

lemma sample_phases:
  "bp_phases (convert_raw_to_blueprint sample_engine_doc) =
    [\<lparr>ph_id = ''plan'', ph_name = ''plan'', ph_order = None, ph_description = None, ph_entry_gate = None,
      ph_exit_gate = None, ph_procedures = [sample_proc ''a'', sample_proc ''b'']\<rparr>]"
  by (simp add: convert_raw_to_blueprint_def get_or_empty_group sample_engine_doc_def sample_raw_phase_def
      convert_raw_procedure_def convert_aggregate_def sample_fsm_def sample_proc_def)

lemma sample_engine_simps:
  "eng_blueprint sample_engine = convert_raw_to_blueprint sample_engine_doc"
  "eng_overlay sample_engine = default_overlay"
  "eng_preconditions sample_engine = [(''a'', [''b'']), (''b'', [])]"
  by (simp_all add: sample_engine_def new_engine_def sample_engine_env_def)

lemma sample_procedure_ids: "procedure_ids (convert_raw_to_blueprint sample_engine_doc) = [''a'', ''b'']"
  by (simp add: procedure_ids_def procedures_def sample_phases sample_proc_def)

lemma sample_lookup: "map_of (proc_lookup (convert_raw_to_blueprint sample_engine_doc)) q =
   (if q = ''a'' then Some (''plan'', sample_proc ''a'') else if q = ''b'' then Some (''plan'', sample_proc ''b'') else None)"
  by (simp add: proc_lookup_def sample_phases sample_proc_def)

lemma sample_order:
  "topological_sort_with_preconditions (convert_raw_to_blueprint sample_engine_doc) [(''a'', [''b'']), (''b'', [])] = Inr [''b'', ''a'']"
  unfolding topological_sort_with_preconditions_def sample_procedure_ids
  by (simp add: missing_precondition_def build_graph_known_def init_degrees_def add_preconditions_def
      add_edge_def get_or_empty_def kahn_sort_def initial_queue_def)

lemma sample_runs: "runs default_overlay (sample_proc i)"
  by (simp add: runs_def should_skip_procedure_def default_overlay_def sample_proc_def)

lemma sample_run: "\<exists>res eng'. run_engagement sample_engine_env 0 sample_engine = (Inr res, eng')"
  by (simp add: run_engagement_def bwp_topological_sort_def sample_engine_simps sample_order split: prod.split)

lemma max_iterations_default [simp]: "max_iterations default_overlay q = 30"
  by (simp add: max_iterations_def default_overlay_def default_iteration_limits_def)

theorem procedure_follows_its_machine_witness:
  "\<exists>res n final. fst (run_engagement sample_engine_env 0 sample_engine) = Inr res \<and> n \<le> 30 \<and>
     trail 5 ''plan'' (sample_proc ''a'') 0 n ''s0'' (events_of ''a'' (res_event_log res)) final"
proof -
  obtain res eng' where r: "run_engagement sample_engine_env 0 sample_engine = (Inr res, eng')" using sample_run by blast
  have m: "ov_max_self_loop_iterations (default_overlay :: rat GenerationOverlay) = 5"
    "agg_initial_state (pr_aggregate (sample_proc ''a'')) = ''s0''"
    by (simp_all add: default_overlay_def sample_proc_def)
  show ?thesis
    using procedure_follows_its_machine[OF r, of "''a''" "''plan''" "sample_proc ''a''"] r
    by (auto simp: sample_engine_simps sample_lookup sample_runs m)
qed

theorem engagement_log_is_consistent_witness:
  "\<exists>res. fst (run_engagement sample_engine_env 0 sample_engine) = Inr res \<and>
     sorted (540 # map ae_timestamp (res_event_log res)) \<and> 0 \<le> res_total_duration_hours res"
proof -
  obtain res eng' where r: "run_engagement sample_engine_env 0 sample_engine = (Inr res, eng')" using sample_run by blast
  have "start_minutes sample_engine_env 0 = 540" by (simp add: start_minutes_def sample_engine_env_def)
  then show ?thesis using engagement_log_is_consistent[OF r] r by (intro exI[of _ res]) simp
qed


text \<open>The sample's log: one transition for each procedure, the second procedure first.\<close>

lemma sample_loop_stops: "procedure_loop sample_engine_env 0 i ''plan'' (sample_proc i) n ''s1'' c st = st"
  by (cases n) (simp_all add: sample_proc_def)

definition sample_move :: "string \<Rightarrow> ProcedureTransition" where
  "sample_move i = hd (agg_transitions (pr_aggregate (sample_proc i)))"

lemma sample_loop:
  "procedure_loop sample_engine_env 0 i ''plan'' (sample_proc i) (Suc n) ''s0'' 0 st =
     take_transition sample_engine_env 0 i ''plan'' (sample_proc i) ''s0'' (sample_move i) st"
  using sample_loop_stops[of i n]
  by (simp add: select_transition_def bound_self_loop_def sample_move_def sample_proc_def)

lemma sample_initial: "agg_initial_state (pr_aggregate (sample_proc i)) = ''s0''" "pr_id (sample_proc i) = i"
  by (simp_all add: sample_proc_def)

lemma sample_segment:
  assumes "run_procedure sample_engine_env 0 i (eng, acc) = (eng', acc')" "same_config sample_engine eng" "i \<in> {''a'', ''b''}"
  shows "same_config sample_engine eng' \<and> (\<exists>e. ae_procedure_id e = i \<and> ra_event_log acc' = ra_event_log acc @ [e])"
proof -
  have c: "eng_blueprint eng = convert_raw_to_blueprint sample_engine_doc" "eng_overlay eng = default_overlay"
    using assms(2) by (simp_all add: same_config_def sample_engine_simps)
  let ?acc = "acc\<lparr>ra_procedure_states := AList.update i ''s0'' (ra_procedure_states acc)\<rparr>"
  have "take_transition sample_engine_env 0 i ''plan'' (sample_proc i) ''s0'' (sample_move i) (eng, ?acc) = (eng', acc')"
    using assms(1,3) sample_runs[of i]
      sample_loop[of i 29]
    by (auto simp: run_procedure_def c sample_lookup runs_def sample_initial)
  from take_transition_effect[OF this sample_initial(2)] obtain e evs where e: "same_config eng eng'"
    "move_event_of i ''plan'' ''s0'' (sample_move i) e"
    "list_all2 (step_event_of i ''plan'') (steps_run (sample_proc i) ''s0'' (tn_to_state (sample_move i))) evs"
    "appends ?acc (e # evs) acc'" by blast
  have "steps_run (sample_proc i) ''s0'' x = []" for x by (simp add: steps_run_def sample_proc_def)
  then have "evs = []" using e(3) by simp
  then have "ra_event_log acc' = ra_event_log acc @ [e]" using e(4) by (simp add: appends_def)
  then show ?thesis using same_config_trans[OF assms(2) e(1)] e(2) by (auto simp: move_event_of_def)
qed

lemma sample_log:
  assumes "run_engagement sample_engine_env 0 sample_engine = (Inr res, eng')"
  shows "\<exists>e f. res_event_log res = [e, f] \<and> ae_procedure_id e = ''b'' \<and> ae_procedure_id f = ''a''"
proof -
  obtain e1 a1 where r1: "run_procedure sample_engine_env 0 ''b'' (sample_engine, new_accum sample_engine_env 0) = (e1, a1)" by force
  obtain e2 a2 where r2: "run_procedure sample_engine_env 0 ''a'' (e1, a1) = (e2, a2)" by force
  have "res_event_log res = ra_event_log a2"
    using assms r1 r2
    by (auto simp: run_engagement_def bwp_topological_sort_def sample_engine_simps sample_order engagement_result_def
        split: prod.splits)
  then show ?thesis
    using sample_segment[OF r1] sample_segment[OF r2] by (auto simp: new_accum_def)
qed

theorem preconditions_run_first_witness:
  "\<exists>res f. fst (run_engagement sample_engine_env 0 sample_engine) = Inr res \<and> ae_procedure_id f = ''a'' \<and>
     last (res_event_log res) = f \<and> events_of ''b'' [] = []"
proof -
  obtain res eng' where r: "run_engagement sample_engine_env 0 sample_engine = (Inr res, eng')" using sample_run by blast
  obtain e f where l: "res_event_log res = [e] @ f # []" "ae_procedure_id f = ''a''" using sample_log[OF r] by auto
  have "(''b'', ''a'') \<in> set (precondition_edges (procedure_ids (eng_blueprint sample_engine)) (eng_preconditions sample_engine))"
    by (simp add: sample_engine_simps sample_procedure_ids precondition_edges_def)
  from preconditions_run_first[OF r this l] show ?thesis using r l by auto
qed


text \<open>The alternatives of an exit gate are not looked at.\<close>

lemma any_of_ignored:
  "phase_complete states (ph\<lparr>ph_exit_gate := Some (g\<lparr>gate_any_of := x\<rparr>)\<rparr>) =
   phase_complete states (ph\<lparr>ph_exit_gate := Some g\<rparr>)"
  by (simp add: phase_complete_def)

end
