(* ===== verification/Spec2Isabelle.thy ===== *)
theory Spec2Isabelle
  imports Driver Merkle Uuid_Factory Channel Tracker Engine Trial_Balance
begin

text \<open>
  \<^bold>\<open>A verification library for DataSynth.\<close>

  DataSynth (a Rust workspace under \<^verbatim>\<open>src/crates\<close>) generates synthetic enterprise data: double-entry
  journals and balances, audit engagements, and consolidated groups of companies. The library
  models the deterministic logic that the generated data has to satisfy. Random samplers,
  statistics, file formats and services are not part of it.

  \<^bold>\<open>Theories and the code they model.\<close>

  \<^item> \<open>Prelude\<close>: Rust's \<open>Result\<close> as a sum (error on the left), \<open>try_bind\<close> for the \<open>?\<close> operator,
    bytes and machine words, facts on association lists. \<open>Ordered_Map\<close>: \<open>BTreeMap\<close> as a sorted
    association list (\<open>bt_entry\<close>, \<open>bt_insert\<close>, grouping by key). \<open>Decimal_Text\<close>: printing and
    parsing of unsigned numbers with zero padding. \<open>Ledger\<close>: the sum of the amounts of a key, and
    the locale \<open>posting_ledger\<close>.
  \<^item> \<open>Accounts\<close> (\<^verbatim>\<open>datasynth-core: accounts.rs, framework_accounts.rs\<close>): account categories and the
    US-GAAP, French and German classifiers.
  \<^item> \<open>Journal\<close> (\<^verbatim>\<open>models/journal_entry.rs\<close>): header, line and entry with their constructors and queries.
  \<^item> \<open>Balance\<close> (\<^verbatim>\<open>models/balance/account_balance.rs\<close>): one account's balance, snapshots and their
    comparison. \<open>Trial_Balance\<close> (\<^verbatim>\<open>models/balance/trial_balance.rs\<close>): the trial balance of a company,
    its categories and the accounting-equation check, comparative trial balances.
  \<^item> \<open>Tracker\<close> (\<^verbatim>\<open>datasynth-generators: balance/balance_tracker.rs\<close>): applies journal entries of
    \<open>Journal\<close> to the balances of \<open>Balance\<close>, for all companies.
  \<^item> \<open>Merkle\<close> (\<^verbatim>\<open>datasynth-audit-fsm: working_paper_merkle.rs\<close>): Merkle tree, inclusion proofs and
    bundle root over an abstract digest.
  \<^item> \<open>Uuid_Factory\<close> (\<^verbatim>\<open>datasynth-core: uuid_factory.rs\<close>): FNV-based identifiers on 64-bit words, and
    the registry of factories.
  \<^item> \<open>Channel\<close> (\<^verbatim>\<open>datasynth-core: streaming/channel.rs\<close>): the bounded channel, first its critical
    sections, then a system of threads as the step relation \<open>sys_step\<close>.
  \<^item> \<open>Blueprint\<close> (\<^verbatim>\<open>datasynth-audit-fsm: schema.rs, loader.rs, error.rs\<close>): blueprints, conversion from
    the raw document, structural validation. \<open>Topo\<close> (\<^verbatim>\<open>loader.rs\<close>): execution order of the procedures
    (Kahn's algorithm). \<open>Overlay\<close> (\<^verbatim>\<open>schema.rs\<close>): engine settings. \<open>Engine\<close> (\<^verbatim>\<open>engine.rs, event.rs\<close>):
    the walk over the procedures, which uses all three.
  \<^item> \<open>Group_Plan\<close> (\<^verbatim>\<open>datasynth-group: config.rs, manifest/, shard/ic_plan.rs, shard/ic_je_injector.rs\<close>):
    expansion of intercompany relationships, the pair plans each entity derives on its own, and
    the journal entries it posts for them. \<open>Ic_Matcher\<close> (\<^verbatim>\<open>aggregate/ic_matcher.rs,
    aggregate/coverage_report.rs\<close>): joins the entries of all entities by pair identifier.
  \<^item> \<open>Elimination\<close> (\<^verbatim>\<open>models/intercompany/elimination.rs, intercompany/elimination_to_je.rs\<close>): elimination
    entries, the consolidation journal and the conversion to journal entries. \<open>Group_Elimination\<close>
    (\<^verbatim>\<open>aggregate/elimination.rs\<close>): the eliminations of the matched pairs.
  \<^item> \<open>Investments\<close> (\<^verbatim>\<open>aggregate/nci/, aggregate/equity_method.rs\<close>): non-controlling interests and
    associates. \<open>Consolidation\<close> (\<^verbatim>\<open>aggregate/pre_elim.rs, aggregate/post_elim.rs\<close>): the consolidated
    trial balance, before and after the eliminations and with the overlay of \<open>Investments\<close>.
  \<^item> \<open>Translation\<close> (\<^verbatim>\<open>manifest/fx_master.rs, aggregate/translation/, models/hyperinflation.rs\<close>): the rate
    master, price indices, classification of accounts and the translation of a trial balance.
  \<^item> \<open>Statements\<close> (\<^verbatim>\<open>aggregate/fs/\<close>): account names, balance sheet, income statement, cash flow,
    changes in equity and the consolidation schedule. \<open>Impairment\<close> (\<^verbatim>\<open>models/cgu.rs,
    manifest/cgu_plan.rs, aggregate/cgu_impairment.rs\<close>): goodwill impairment tests.
  \<^item> \<open>Driver\<close> (\<^verbatim>\<open>aggregate/driver.rs, aggregate/tb_loader.rs\<close>): one period, from the archives of the
    entities through all the theories above to the statements, and the chain of periods.

  \<^bold>\<open>State and operations.\<close> A struct is a record whose fields carry a prefix for the struct; an
  enumeration is a datatype. A method that mutates \<^verbatim>\<open>self\<close> returns the new record, and every error
  or early return is a branch of a sum or option. A concurrent operation is split at the points
  where it takes or releases the mutex; every interleaving of these steps is a run of \<open>sys_step\<close>.

  \<^bold>\<open>Interfaces.\<close> \<open>ledger_account\<close> (theory \<open>Balance\<close>): what posting debits and credits does to a
  closing balance; interpreted on accounts and on period activity. \<open>posting_ledger\<close> (\<open>Ledger\<close>):
  posting adds the amount of a line to the total of its key; interpreted on the category summaries,
  on both columns of a trial balance, and on the debit and the credit totals of the consolidated
  accounts, for postings and for the lines of an entity. \<open>drainable\<close> (\<open>Channel\<close>): receiving takes
  the oldest item; interpreted on blocking and polling receivers. \<open>schedule\<close> (\<open>Topo\<close>): an order that
  respects the preconditions; interpreted on the sort of the loader. \<open>opening_carried\<close> (\<open>Driver\<close>): a
  rollforward opens with what the map of openings holds for its key; interpreted on the translation
  adjustments, the carrying amounts and suppressed losses of associates, and the minority interests.

  \<^bold>\<open>What is proved.\<close> The properties carry the numbers C1, C2, ... in the theories. Channel:
  first-in first-out conservation of items under every interleaving, the capacity bound, the
  statistics, when a receiver can be stranded, draining after close. Merkle: proofs of members
  verify, a verified proof shows membership, the bundle root commits to the papers. Journal,
  balances, tracker: debits equal credits, closing balances are sums of lines, the trial balance is
  conserved, snapshots and comparisons are exact, and what an unbalanced entry does. Audit engine:
  the sort succeeds exactly on acyclic preconditions and orders them; procedures follow their state
  machine; their preconditions run first; the log is consistent; completed phases are those of the
  document. Group: relationship expansion yields exactly the wanted triples; seller and buyer derive
  mirrored plans independently; matching neither loses nor invents an observed side; complete shards
  match completely; what the eliminations of a pair are, and that a group which posts its plans
  consolidates to the trade with third parties alone. Consolidation: aggregation, eliminations and
  overlay are exact on every account, in any order of the entities; the translation of every line
  is exact up to rounding and its residual is the adjustment; rollforwards of minorities and
  associates conserve their net; the statements add up, with the amount by which the balance sheet
  is out; the schedule reconciles; impairment losses go to goodwill first. Driver: the walk in one
  pass equals the separate passes, no step adds an imbalance, every period of a chain opens with
  the closing amounts of the one before, and which missing archive is fatal.

  \<^bold>\<open>Termination and bounds.\<close> Loops are structural recursion or have a measure (tree levels, the queue
  of the sort). The engine's loop over transitions takes the code's own iteration limit as fuel, so
  it needs no other. A blocking channel operation is a sequence of steps; that it proceeds is stated
  about runs. Machine integers are words where wrap-around can happen; sizes are natural numbers.

  \<^bold>\<open>Abstractions.\<close> Code that is not in the repository is a parameter: the digests SHA-256 and
  BLAKE3, random generators and samplers, the clock and calendar, the YAML parser. \<open>Decimal\<close> and
  \<open>f64\<close> are an ordered field or ring: overflow, rounding and special values are not modelled, and
  where the code rounds explicitly the rounding is a parameter. A hash map is an association list
  with distinct keys whose order stands for the unspecified iteration order; a \<open>BTreeMap\<close> is sorted.
  Rounding to cents is a function \<open>rd\<close> that satisfies \<open>rounds_to_cents\<close> where a property needs it
  (\<open>round_cents\<close> is an instance), the division of \<open>Decimal\<close> a function \<open>divide_dec\<close>. A JSON file is
  the list of the records it holds, or \<open>None\<close> where it does not exist; parse errors and file output
  are not modelled. Checks that only log are functions that always succeed.

  \<^bold>\<open>Not modelled.\<close> Generators and samplers, evaluation and fingerprinting statistics (they compute in
  floating point over random data); graph, event-log and file exporters, server, command line (input
  and output); configuration schema checks; the step dispatcher and the optimizer of the audit crate;
  the shard runner, the notes and the journal-entry network of the group crate; the drift correction
  of the balance tracker.
\<close>

end
